(* ===== verification/Prelude.thy ===== *)
theory Prelude
  imports Main
begin

text \<open>
  What every theory of the development shares.

  An \<open>async\<close> method of the program talks to the outside world (Redis, S3, NATS, the clock) and
  ends by returning a value or by raising an exception. It is modelled as a function on the
  state of that world, of type \<open>'w \<Rightarrow> ('e + 'a) \<times> 'w\<close>: \<open>Inl e\<close> is "raised \<open>e\<close>",
  \<open>Inr x\<close> is "returned \<open>x\<close>", and the second component is the world afterwards, in both cases.
  The type \<open>'w\<close> is never fixed by the model of the program: it is whatever the environment is.
  Code that does not touch the world is a plain value of \<open>'e + 'a\<close>.

  \<^item> \<open>ret\<close>, \<open>raise\<close>, \<open>bnd\<close> (sequencing), \<open>catch\<close> (\<open>try\<close>/\<open>except\<close>), \<open>lift\<close> (a pure
    computation inside an effectful one), \<open>guard\<close> (\<open>if not p: raise e\<close>), \<open>mapM\<close> (a
    \<open>for\<close> loop that collects results);
  \<^item> \<open>wp\<close>: what must hold of the world before for the two postconditions to hold after; the
    collection \<open>wp_rules\<close> computes it;
  \<^item> the same combinators for pure results, \<open>andThen\<close> and \<open>check\<close>.
\<close>

section \<open>Pure results\<close>

definition andThen :: "'e + 'a \<Rightarrow> ('a \<Rightarrow> 'e + 'b) \<Rightarrow> 'e + 'b" where
  "andThen r f = (case r of Inl e \<Rightarrow> Inl e | Inr x \<Rightarrow> f x)"

definition check :: "bool \<Rightarrow> 'e \<Rightarrow> 'e + unit" where
  "check p e = (if p then Inr () else Inl e)"

lemma andThen_simps [simp]:
  "andThen (Inl e) f = Inl e"
  "andThen (Inr x) f = f x"
  by (simp_all add: andThen_def)

lemma andThen_eq_Inr [simp]:
  "andThen r f = Inr y \<longleftrightarrow> (\<exists>x. r = Inr x \<and> f x = Inr y)"
  by (cases r) simp_all

lemma andThen_eq_Inl:
  "andThen r f = Inl e \<longleftrightarrow> r = Inl e \<or> (\<exists>x. r = Inr x \<and> f x = Inl e)"
  by (cases r) auto

lemma andThen_assoc: "andThen (andThen r f) g = andThen r (\<lambda>x. andThen (f x) g)"
  by (cases r) simp_all

lemma check_eq [simp]:
  "check p e = Inr u \<longleftrightarrow> p"
  "check p e = Inl e' \<longleftrightarrow> \<not> p \<and> e' = e"
  by (auto simp: check_def)

lemma check_True [simp]: "p \<Longrightarrow> check p e = Inr ()"
  by simp

lemma check_False [simp]: "\<not> p \<Longrightarrow> check p e = Inl e"
  by simp

text \<open>A pure loop that stops at the first error.\<close>

primrec mapR :: "('a \<Rightarrow> 'e + 'b) \<Rightarrow> 'a list \<Rightarrow> 'e + 'b list" where
  "mapR f [] = Inr []"
| "mapR f (x # xs) = andThen (f x) (\<lambda>y. andThen (mapR f xs) (\<lambda>ys. Inr (y # ys)))"

lemma mapR_map: "(\<And>x. x \<in> set xs \<Longrightarrow> f x = Inr (g x)) \<Longrightarrow> mapR f xs = Inr (map g xs)"
  by (induction xs) simp_all

lemma mapR_Inr_length: "mapR f xs = Inr ys \<Longrightarrow> length ys = length xs"
  by (induction xs arbitrary: ys) auto

section \<open>Effectful computations\<close>

type_synonym ('e, 'w, 'a) mon = "'w \<Rightarrow> ('e + 'a) \<times> 'w"

definition ret :: "'a \<Rightarrow> ('e, 'w, 'a) mon" where
  "ret x = (\<lambda>w. (Inr x, w))"

definition raise :: "'e \<Rightarrow> ('e, 'w, 'a) mon" where
  "raise e = (\<lambda>w. (Inl e, w))"

definition bnd :: "('e, 'w, 'a) mon \<Rightarrow> ('a \<Rightarrow> ('e, 'w, 'b) mon) \<Rightarrow> ('e, 'w, 'b) mon" where
  "bnd m f = (\<lambda>w. case m w of (Inl e, w') \<Rightarrow> (Inl e, w') | (Inr x, w') \<Rightarrow> f x w')"

definition catch :: "('e, 'w, 'a) mon \<Rightarrow> ('e \<Rightarrow> ('e, 'w, 'a) mon) \<Rightarrow> ('e, 'w, 'a) mon" where
  "catch m h = (\<lambda>w. case m w of (Inl e, w') \<Rightarrow> h e w' | (Inr x, w') \<Rightarrow> (Inr x, w'))"

definition lift :: "'e + 'a \<Rightarrow> ('e, 'w, 'a) mon" where
  "lift r = (\<lambda>w. (r, w))"

definition guard :: "bool \<Rightarrow> 'e \<Rightarrow> ('e, 'w, unit) mon" where
  "guard p e = (if p then ret () else raise e)"

primrec mapM :: "('a \<Rightarrow> ('e, 'w, 'b) mon) \<Rightarrow> 'a list \<Rightarrow> ('e, 'w, 'b list) mon" where
  "mapM f [] = ret []"
| "mapM f (x # xs) = bnd (f x) (\<lambda>y. bnd (mapM f xs) (\<lambda>ys. ret (y # ys)))"

subsection \<open>Weakest preconditions\<close>

definition wp :: "('e, 'w, 'a) mon \<Rightarrow> ('a \<Rightarrow> 'w \<Rightarrow> bool) \<Rightarrow> ('e \<Rightarrow> 'w \<Rightarrow> bool) \<Rightarrow> 'w \<Rightarrow> bool" where
  "wp m Q E w = (case m w of (Inl e, w') \<Rightarrow> E e w' | (Inr x, w') \<Rightarrow> Q x w')"

named_theorems wp_rules "equations that compute wp over the program combinators"

lemma wp_ret [wp_rules]: "wp (ret x) Q E w = Q x w"
  by (simp add: wp_def ret_def)

lemma wp_raise [wp_rules]: "wp (raise e) Q E w = E e w"
  by (simp add: wp_def raise_def)

lemma wp_bnd [wp_rules]: "wp (bnd m f) Q E w = wp m (\<lambda>x. wp (f x) Q E) E w"
  by (auto simp: wp_def bnd_def split: prod.splits sum.splits)

lemma wp_catch [wp_rules]: "wp (catch m h) Q E w = wp m Q (\<lambda>e. wp (h e) Q E) w"
  by (auto simp: wp_def catch_def split: prod.splits sum.splits)

lemma wp_lift [wp_rules]:
  "wp (lift r) Q E w = (case r of Inl e \<Rightarrow> E e w | Inr x \<Rightarrow> Q x w)"
  by (simp add: wp_def lift_def)

text \<open>Simplified forms of \<open>ret\<close> and \<open>raise\<close>.\<close>

lemma wp_Pair [wp_rules, simp]: "wp (Pair (Inr x)) Q E w = Q x w" "wp (Pair (Inl e)) Q E w = E e w"
  by (simp_all add: wp_def)

lemma wp_guard [wp_rules]: "wp (guard p e) Q E w = (if p then Q () w else E e w)"
  by (simp add: guard_def wp_ret wp_raise)

lemma wp_if [wp_rules]: "wp (if p then m else n) Q E w = (if p then wp m Q E w else wp n Q E w)"
  by simp

lemma wp_case_option [wp_rules]:
  "wp (case v of None \<Rightarrow> m | Some x \<Rightarrow> n x) Q E w
    = (case v of None \<Rightarrow> wp m Q E w | Some x \<Rightarrow> wp (n x) Q E w)"
  by (cases v) simp_all

lemma wp_case_sum [wp_rules]:
  "wp (case v of Inl x \<Rightarrow> m x | Inr y \<Rightarrow> n y) Q E w
    = (case v of Inl x \<Rightarrow> wp (m x) Q E w | Inr y \<Rightarrow> wp (n y) Q E w)"
  by (cases v) simp_all

lemma wp_case_prod [wp_rules]:
  "wp (case p of (x, y) \<Rightarrow> m x y) Q E w = (case p of (x, y) \<Rightarrow> wp (m x y) Q E w)"
  by (cases p) simp

lemma wp_mapM_Nil [wp_rules]: "wp (mapM f []) Q E w = Q [] w"
  by (simp add: wp_rules)

text \<open>The same equations under a binder, where the world is not applied yet.\<close>

lemma wp_fun:
  "wp (ret x) Q E = Q x"
  "wp (raise e) Q E = E e"
  "wp (bnd m f) Q E = wp m (\<lambda>x. wp (f x) Q E) E"
  "wp (catch m h) Q E = wp m Q (\<lambda>e. wp (h e) Q E)"
  "wp (if p then m else n) Q E = (if p then wp m Q E else wp n Q E)"
  by (simp_all add: fun_eq_iff wp_rules)

text \<open>Strengthening postconditions, and reading a run off its weakest precondition.\<close>

lemma wp_mono:
  assumes "wp m Q E w"
    and "\<And>x w'. Q x w' \<Longrightarrow> Q' x w'"
    and "\<And>e w'. E e w' \<Longrightarrow> E' e w'"
  shows "wp m Q' E' w"
  using assms by (auto simp: wp_def split: prod.splits sum.splits)

lemma wp_conj: "wp m Q E w \<Longrightarrow> wp m Q' E' w \<Longrightarrow>
    wp m (\<lambda>x w'. Q x w' \<and> Q' x w') (\<lambda>e w'. E e w' \<and> E' e w') w"
  by (auto simp: wp_def split: prod.splits sum.splits)

lemma wp_trivial [simp]: "wp m (\<lambda>_ _. True) (\<lambda>_ _. True) w"
  by (simp add: wp_def split: prod.splits sum.splits)

lemma wp_InrD: "wp m Q E w \<Longrightarrow> m w = (Inr x, w') \<Longrightarrow> Q x w'"
  by (simp add: wp_def)

lemma wp_InlD: "wp m Q E w \<Longrightarrow> m w = (Inl e, w') \<Longrightarrow> E e w'"
  by (simp add: wp_def)

lemma wpI:
  assumes "\<And>x w'. m w = (Inr x, w') \<Longrightarrow> Q x w'"
    and "\<And>e w'. m w = (Inl e, w') \<Longrightarrow> E e w'"
  shows "wp m Q E w"
  using assms by (auto simp: wp_def split: prod.splits sum.splits)

lemma wp_iff:
  "wp m Q E w \<longleftrightarrow> (\<forall>x w'. m w = (Inr x, w') \<longrightarrow> Q x w') \<and> (\<forall>e w'. m w = (Inl e, w') \<longrightarrow> E e w')"
  by (auto simp: wp_def split: prod.splits sum.splits)

text \<open>Remembering the run itself in the postconditions.\<close>

lemma wp_run: "wp m Q E w \<Longrightarrow>
    wp m (\<lambda>x w'. Q x w' \<and> m w = (Inr x, w')) (\<lambda>e w'. E e w' \<and> m w = (Inl e, w')) w"
  by (auto simp: wp_def split: prod.splits sum.splits)

text \<open>
  The rule used at every call of an operation whose contract is known: the contract is a
  \<open>wp\<close> fact, and what is left to show is that its postconditions imply the wanted ones.
\<close>

lemma wp_use:
  assumes "wp m P F w"
    and "\<And>x w'. P x w' \<Longrightarrow> Q x w'"
    and "\<And>e w'. F e w' \<Longrightarrow> E e w'"
  shows "wp m Q E w"
  using assms by (rule wp_mono)

text \<open>Loops: an invariant over the elements already processed.\<close>

lemma wp_mapM_inv:
  assumes step: "\<And>x w. x \<in> set xs \<Longrightarrow> I w \<Longrightarrow> wp (f x) (\<lambda>_. I) E w"
    and start: "I w"
  shows "wp (mapM f xs) (\<lambda>ys w'. I w' \<and> length ys = length xs) E w"
  using step start
proof (induction xs arbitrary: w)
  case Nil
  then show ?case by (simp add: wp_rules)
next
  case (Cons x xs)
  have hd: "wp (f x) (\<lambda>_. I) E w" using Cons.prems by simp
  have tl: "wp (mapM f xs) (\<lambda>ys w'. I w' \<and> length ys = length xs) E w'" if "I w'" for w'
    using Cons.IH [of w'] Cons.prems(1) that by auto
  show ?case
    unfolding mapM.simps wp_bnd
  proof (rule wp_use [OF hd])
    fix y w' assume "I w'"
    then show "wp (mapM f xs) (\<lambda>ys. wp (ret (y # ys))
        (\<lambda>ys w'. I w' \<and> length ys = length (x # xs)) E) E w'"
      by (rule wp_use [OF tl]) (simp_all add: wp_rules)
  qed
qed

section \<open>Runs, as equations\<close>

lemma ret_run [simp]: "ret x w = (Inr x, w)"
  by (simp add: ret_def)

lemma raise_run [simp]: "raise e w = (Inl e, w)"
  by (simp add: raise_def)

lemma lift_run [simp]: "lift r w = (r, w)"
  by (simp add: lift_def)

lemma bnd_Inr: "m w = (Inr x, w') \<Longrightarrow> bnd m f w = f x w'"
  by (simp add: bnd_def)

lemma bnd_Inl: "m w = (Inl e, w') \<Longrightarrow> bnd m f w = (Inl e, w')"
  by (simp add: bnd_def)

lemma catch_Inr: "m w = (Inr x, w') \<Longrightarrow> catch m h w = (Inr x, w')"
  by (simp add: catch_def)

lemma catch_Inl: "m w = (Inl e, w') \<Longrightarrow> catch m h w = h e w'"
  by (simp add: catch_def)

lemma bnd_ret_left [simp]: "bnd (ret x) f = f x"
  by (simp add: bnd_def fun_eq_iff)

lemma bnd_raise_left [simp]: "bnd (raise e) f = raise e"
  by (simp add: bnd_def fun_eq_iff)

lemma bnd_lift_Inr [simp]: "bnd (lift (Inr x)) f = f x"
  by (simp add: bnd_def fun_eq_iff)

lemma bnd_lift_Inl [simp]: "bnd (lift (Inl e)) f = raise e"
  by (simp add: bnd_def fun_eq_iff)

lemma bnd_guard_True [simp]: "p \<Longrightarrow> bnd (guard p e) f = f ()"
  by (simp add: guard_def)

lemma bnd_guard_False [simp]: "\<not> p \<Longrightarrow> bnd (guard p e) f = raise e"
  by (simp add: guard_def)

lemma catch_ret [simp]: "catch (ret x) h = ret x"
  by (simp add: catch_def fun_eq_iff)

lemma catch_raise [simp]: "catch (raise e) h = h e"
  by (simp add: catch_def fun_eq_iff)

lemma bnd_assoc: "bnd (bnd m f) g = bnd m (\<lambda>x. bnd (f x) g)"
  by (auto simp: bnd_def fun_eq_iff split: prod.splits sum.splits)

section \<open>Objects with mutable fields\<close>

text \<open>
  A method that assigns to fields of \<open>self\<close> acts on the pair of the world and the object: \<open>self\<close> reads the
  object, \<open>set_self\<close> updates it, \<open>on_client\<close> runs a call on the world alone. What was assigned before an
  exception stays assigned.
\<close>

definition on_client :: "('e, 'w, 'a) mon \<Rightarrow> ('e, 'w \<times> 'o, 'a) mon" where
  "on_client m = (\<lambda>(w, p). let (r, w') = m w in (r, (w', p)))"

definition self :: "('e, 'w \<times> 'o, 'o) mon" where
  "self = (\<lambda>(w, p). (Inr p, (w, p)))"

definition set_self :: "('o \<Rightarrow> 'o) \<Rightarrow> ('e, 'w \<times> 'o, unit) mon" where
  "set_self f = (\<lambda>(w, p). (Inr (), (w, f p)))"

lemma wp_self: "wp self Q E (w, p) = Q p (w, p)"
  by (simp add: wp_def self_def)

lemma wp_set_self: "wp (set_self f) Q E (w, p) = Q () (w, f p)"
  by (simp add: wp_def set_self_def)

lemma wp_on_client: "wp (on_client m) Q E (w, p) = wp m (\<lambda>x w'. Q x (w', p)) (\<lambda>e w'. E e (w', p)) w"
  by (simp add: wp_def on_client_def Let_def split: prod.splits sum.splits)

section \<open>Maps\<close>

lemma map_le_upd: "m \<subseteq>\<^sub>m m' \<Longrightarrow> m(k \<mapsto> v) \<subseteq>\<^sub>m m'(k \<mapsto> v)"
  by (auto simp: map_le_def)

lemma map_le_SomeD: "m \<subseteq>\<^sub>m m' \<Longrightarrow> m k = Some v \<Longrightarrow> m' k = Some v"
  by (auto simp: map_le_def dom_def)

end
