(* ===== verification/Py_String.thy ===== *)
theory Py_String
  imports Prelude "HOL-Library.Char_ord" "HOL-Library.Sublist"
begin

text \<open>
  The operations of Python's \<open>str\<close>, \<open>int\<close> and \<open>bytes\<close> that the program uses.

  A Python string is a \<^typ>\<open>string\<close> whose characters are the code points U+0000 to U+00FF;
  strings with larger code points are outside the model. Whitespace, letter case and \<open>int\<close> are
  the Unicode ones, restricted to that range. The parsers of \<open>int\<close> accept what Python accepts:
  surrounding whitespace, a sign, single underscores between digits, and in base 16 the
  prefix \<open>0x\<close>. \<open>py_int_str_int\<close> is the round trip the stores rely on.
\<close>

type_synonym bytes = "nat list" \<comment> \<open>each below 256; see \<open>is_bytes\<close>\<close>

definition is_bytes :: "bytes \<Rightarrow> bool" where
  "is_bytes bs = list_all (\<lambda>b. b < 256) bs"

section \<open>Characters\<close>

definition code :: "char \<Rightarrow> nat" where
  "code c = of_char c"

definition is_space :: "char \<Rightarrow> bool" where
  "is_space c = (let n = code c in (9 \<le> n \<and> n \<le> 13) \<or> (28 \<le> n \<and> n \<le> 32) \<or> n = 133 \<or> n = 160)"

definition lower_char :: "char \<Rightarrow> char" where
  "lower_char c = (let n = code c in
     if (65 \<le> n \<and> n \<le> 90) \<or> (192 \<le> n \<and> n \<le> 222 \<and> n \<noteq> 215) then char_of (n + 32) else c)"

text \<open>\<open>upper\<close> on ASCII letters; no other character of the range has an ASCII upper case but
  U+00DF, whose upper case is two letters, so comparisons with ASCII words other than with
  \<open>SS\<close> are unaffected.\<close>

definition upper_char :: "char \<Rightarrow> char" where
  "upper_char c = (let n = code c in if 97 \<le> n \<and> n \<le> 122 then char_of (n - 32) else c)"

definition lower_str :: "string \<Rightarrow> string" where
  "lower_str s = map lower_char s"

definition upper_str :: "string \<Rightarrow> string" where
  "upper_str s = map upper_char s"

section \<open>Stripping, searching, splitting\<close>

definition lstrip :: "string \<Rightarrow> string" where
  "lstrip s = dropWhile is_space s"

definition rstrip :: "string \<Rightarrow> string" where
  "rstrip s = rev (dropWhile is_space (rev s))"

definition strip :: "string \<Rightarrow> string" where
  "strip s = rstrip (lstrip s)"

definition strip_chars :: "char list \<Rightarrow> string \<Rightarrow> string" where
  "strip_chars cs s = rev (dropWhile (\<lambda>c. c \<in> set cs) (rev (dropWhile (\<lambda>c. c \<in> set cs) s)))"

definition starts_with :: "string \<Rightarrow> string \<Rightarrow> bool" where
  "starts_with p s = (take (length p) s = p)"

fun str_contains :: "string \<Rightarrow> string \<Rightarrow> bool" where
  "str_contains p [] = (p = [])"
| "str_contains p (c # cs) = (starts_with p (c # cs) \<or> str_contains p cs)"

text \<open>\<open>s.replace(old, new)\<close> for a non-empty \<open>old\<close>: left to right, without overlap.\<close>

function replace_str :: "string \<Rightarrow> string \<Rightarrow> string \<Rightarrow> string" where
  "replace_str p q [] = []"
| "replace_str p q (c # cs) =
     (if p \<noteq> [] \<and> starts_with p (c # cs) then q @ replace_str p q (drop (length p) (c # cs))
      else c # replace_str p q cs)"
  by pat_completeness auto
termination
  by (relation "measure (\<lambda>(p, q, s). length s)") auto

text \<open>\<open>s.split(sep, 1)\<close> and \<open>s.rsplit(sep, 1)\<close> for a one-character separator.\<close>

definition split_first :: "char \<Rightarrow> string \<Rightarrow> string list" where
  "split_first sep s =
     (let a = takeWhile (\<lambda>c. c \<noteq> sep) s; b = dropWhile (\<lambda>c. c \<noteq> sep) s in
      case b of [] \<Rightarrow> [a] | _ # r \<Rightarrow> [a, r])"

definition split_last :: "char \<Rightarrow> string \<Rightarrow> string list" where
  "split_last sep s =
     (let a = takeWhile (\<lambda>c. c \<noteq> sep) (rev s); b = dropWhile (\<lambda>c. c \<noteq> sep) (rev s) in
      case b of [] \<Rightarrow> [s] | _ # r \<Rightarrow> [rev r, rev a])"

lemma starts_with_append [simp]: "starts_with p (p @ s)"
  by (simp add: starts_with_def)

lemma starts_with_iff: "starts_with p s \<longleftrightarrow> (\<exists>r. s = p @ r)"
  by (metis append_eq_conv_conj starts_with_def)

lemma str_contains_iff: "str_contains p s \<longleftrightarrow> (\<exists>a b. s = a @ p @ b)"
proof (induction s)
  case Nil
  then show ?case by auto
next
  case IH: (Cons c cs)
  show ?case
  proof
    assume "str_contains p (c # cs)"
    then consider r where "c # cs = p @ r" | "str_contains p cs"
      by (auto simp: starts_with_iff)
    then show "\<exists>a b. c # cs = a @ p @ b"
      by cases (metis append_Nil, metis IH.IH append_Cons)
  next
    assume "\<exists>a b. c # cs = a @ p @ b"
    then obtain a b where ab: "c # cs = a @ p @ b" by blast
    show "str_contains p (c # cs)"
    proof (cases a)
      case Nil
      with ab have "starts_with p (c # cs)" by (simp add: starts_with_iff)
      then show ?thesis by simp
    next
      case (Cons d a')
      with ab have "cs = a' @ p @ b" by simp
      then show ?thesis using IH.IH by auto
    qed
  qed
qed

lemma str_contains_middle [simp]: "str_contains p (a @ p @ b)"
  by (auto simp: str_contains_iff)

lemma split_first_sep:
  "sep \<notin> set a \<Longrightarrow> split_first sep (a @ sep # r) = [a, r]"
  by (simp add: split_first_def takeWhile_append dropWhile_append) 

section \<open>Decimal and hexadecimal numerals\<close>

definition digit_char :: "nat \<Rightarrow> char" where
  "digit_char d = (if d < 10 then char_of (48 + d) else char_of (87 + d))"

definition digit_val :: "char \<Rightarrow> nat option" where
  "digit_val c = (let n = code c in
     if 48 \<le> n \<and> n \<le> 57 then Some (n - 48)
     else if 97 \<le> n \<and> n \<le> 122 then Some (n - 87)
     else if 65 \<le> n \<and> n \<le> 90 then Some (n - 55)
     else None)"

definition is_digit :: "char \<Rightarrow> bool" where
  "is_digit c = (48 \<le> code c \<and> code c \<le> 57)"

definition dec_value :: "string \<Rightarrow> nat" where
  "dec_value s = foldl (\<lambda>a c. a * 10 + (code c - 48)) 0 s"

fun str_nat :: "nat \<Rightarrow> string" where
  "str_nat n = (if n < 10 then [digit_char n] else str_nat (n div 10) @ [digit_char (n mod 10)])"

declare str_nat.simps [simp del]

definition str_int :: "int \<Rightarrow> string" where
  "str_int i = (if i < 0 then CHR ''-'' # str_nat (nat (- i)) else str_nat (nat i))"

text \<open>The digits of \<open>int(s, base)\<close>, with single underscores between digits; the flag says
  whether the previous character was a digit.\<close>

fun int_digits :: "nat \<Rightarrow> nat \<Rightarrow> bool \<Rightarrow> string \<Rightarrow> nat option" where
  "int_digits b acc ok [] = (if ok then Some acc else None)"
| "int_digits b acc ok (c # cs) =
     (if c = CHR ''_'' then (if ok then int_digits b acc False cs else None)
      else case digit_val c of
             None \<Rightarrow> None
           | Some d \<Rightarrow> if d < b then int_digits b (acc * b + d) True cs else None)"

definition int_body :: "nat \<Rightarrow> string \<Rightarrow> nat option" where
  "int_body b s =
     (if b = 16 \<and> (starts_with ''0x'' s \<or> starts_with ''0X'' s)
      then (case drop 2 s of
              [] \<Rightarrow> None
            | c # cs \<Rightarrow> if c = CHR ''_'' then int_digits b 0 False cs else int_digits b 0 False (c # cs))
      else int_digits b 0 False s)"

definition py_int :: "nat \<Rightarrow> string \<Rightarrow> int option" where
  "py_int b s =
     (case strip s of
        [] \<Rightarrow> None
      | c # cs \<Rightarrow>
          if c = CHR ''-'' then map_option (\<lambda>n. - int n) (int_body b cs)
          else if c = CHR ''+'' then map_option int (int_body b cs)
          else map_option int (int_body b (c # cs)))"

definition is_hex_lower :: "char \<Rightarrow> bool" where
  "is_hex_lower c = (c \<in> set ''0123456789abcdef'')"

text \<open>The regular expression \<open>^[a-f0-9]{64}$\<close> under \<open>re.match\<close>: \<open>$\<close> also matches
  before a newline that ends the string.\<close>

definition match_hex64 :: "string \<Rightarrow> bool" where
  "match_hex64 s =
     (list_all is_hex_lower (take 64 s) \<and> (length s = 64 \<or> (length s = 65 \<and> s ! 64 = CHR 0x0A)))"

subsection \<open>Properties of numerals\<close>

lemma code_char_of [simp]: "n < 256 \<Longrightarrow> code (char_of n) = n"
  by (simp add: code_def)

lemma code_less [simp]: "code c < 256"
  by (simp add: code_def)

lemma char_of_code [simp]: "char_of (code c) = c"
  by (simp add: code_def)

lemma code_inj [simp]: "code c = code d \<longleftrightarrow> c = d"
  by (simp add: code_def)

lemma digit_val_digit_char [simp]: "d < 36 \<Longrightarrow> digit_val (digit_char d) = Some d"
  by (auto simp: digit_val_def digit_char_def Let_def)

lemma code_digit_char: "d < 36 \<Longrightarrow> code (digit_char d) = (if d < 10 then 48 + d else 87 + d)"
  by (simp add: digit_char_def)

lemma digit_char_not_underscore [simp]: "d < 36 \<Longrightarrow> digit_char d \<noteq> CHR ''_''"
  using code_digit_char [of d] by (auto simp: code_def split: if_splits)

lemma digit_char_not_sign [simp]:
  "d < 36 \<Longrightarrow> digit_char d \<noteq> CHR ''-''" "d < 36 \<Longrightarrow> digit_char d \<noteq> CHR ''+''"
  using code_digit_char [of d] by (auto simp: code_def split: if_splits)

lemma digit_char_not_space [simp]: "d < 36 \<Longrightarrow> \<not> is_space (digit_char d)"
  using code_digit_char [of d] by (auto simp: is_space_def Let_def)

lemma str_nat_not_Nil [simp]: "str_nat n \<noteq> []"
  by (subst str_nat.simps) simp

lemma str_nat_digits: "\<exists>ds. str_nat n = map digit_char ds \<and> ds \<noteq> [] \<and> (\<forall>d \<in> set ds. d < 10)"
proof (induction n rule: str_nat.induct)
  case (1 n)
  show ?case
  proof (cases "n < 10")
    case True
    then show ?thesis by (subst str_nat.simps) (auto intro!: exI [of _ "[n]"])
  next
    case False
    with 1 obtain ds where "str_nat (n div 10) = map digit_char ds" "\<forall>d \<in> set ds. d < 10"
      by blast
    with False show ?thesis
      by (subst str_nat.simps) (auto intro!: exI [of _ "ds @ [n mod 10]"])
  qed
qed

lemma int_digits_append:
  "\<forall>d \<in> set ds. d < 10 \<Longrightarrow>
    int_digits 10 acc ok (map digit_char ds @ s)
      = int_digits 10 (foldl (\<lambda>a d. a * 10 + d) acc ds) (if ds = [] then ok else True) s"
proof (induction ds arbitrary: acc ok)
  case Nil
  then show ?case by simp
next
  case (Cons d ds)
  then show ?case by simp
qed

lemma int_digits_str_nat: "int_digits 10 0 ok (str_nat n) = Some n"
proof (induction n rule: str_nat.induct)
  case (1 n)
  show ?case
  proof (cases "n < 10")
    case True
    then show ?thesis by (subst str_nat.simps) simp
  next
    case False
    obtain ds where ds: "str_nat (n div 10) = map digit_char ds" "ds \<noteq> []" "\<forall>d \<in> set ds. d < 10"
      using str_nat_digits by blast
    with 1 [OF False] int_digits_append [of ds 0 ok "[]"]
    have "foldl (\<lambda>a d. a * 10 + d) 0 ds = n div 10" by simp
    with ds int_digits_append [of ds 0 ok "[digit_char (n mod 10)]"] False
    show ?thesis by (subst str_nat.simps) simp
  qed
qed

lemma strip_no_space: "s \<noteq> [] \<Longrightarrow> \<not> is_space (hd s) \<Longrightarrow> \<not> is_space (last s) \<Longrightarrow> strip s = s"
proof -
  assume "s \<noteq> []" "\<not> is_space (hd s)" "\<not> is_space (last s)"
  then have "lstrip s = s" by (cases s) (simp_all add: lstrip_def)
  moreover have "rev s \<noteq> []" "hd (rev s) = last s"
    using \<open>s \<noteq> []\<close> by (simp_all add: hd_rev)
  then have "dropWhile is_space (rev s) = rev s"
    using \<open>\<not> is_space (last s)\<close> by (metis dropWhile_eq_self_iff)
  ultimately show ?thesis by (simp add: strip_def rstrip_def)
qed

lemma str_nat_hd_last: "\<not> is_space (hd (str_nat n)) \<and> \<not> is_space (last (str_nat n))
    \<and> hd (str_nat n) \<noteq> CHR ''-'' \<and> hd (str_nat n) \<noteq> CHR ''+''"
proof -
  obtain ds where ds: "str_nat n = map digit_char ds" "ds \<noteq> []" "\<forall>d \<in> set ds. d < 10"
    using str_nat_digits by blast
  have "hd ds < 10" "last ds < 10" using ds(2,3) by simp_all
  then have "hd ds < 36" "last ds < 36" by simp_all
  with ds show ?thesis by (simp add: hd_map last_map)
qed

lemma py_int_str_int [simp]: "py_int 10 (str_int i) = Some i"
proof (cases "i < 0")
  case True
  let ?n = "nat (- i)"
  have "strip (CHR ''-'' # str_nat ?n) = CHR ''-'' # str_nat ?n"
    using str_nat_hd_last [of ?n] by (intro strip_no_space) (auto simp: is_space_def code_def)
  with True show ?thesis
    by (simp add: py_int_def str_int_def int_body_def int_digits_str_nat)
next
  case False
  let ?n = "nat i"
  obtain c cs where c: "str_nat ?n = c # cs" by (cases "str_nat ?n") simp_all
  have "strip (str_nat ?n) = str_nat ?n"
    using str_nat_hd_last [of ?n] by (intro strip_no_space) simp_all
  with False c str_nat_hd_last [of ?n] int_digits_str_nat [of False ?n] show ?thesis
    by (simp add: py_int_def str_int_def int_body_def)
qed

lemma str_int_inj [simp]: "str_int i = str_int j \<longleftrightarrow> i = j"
  by (metis option.inject py_int_str_int)

lemma str_int_not_Nil [simp]: "str_int i \<noteq> []"
  by (simp add: str_int_def)

lemma str_int_digits:
  "0 \<le> i \<Longrightarrow> \<exists>ds. str_int i = map digit_char ds \<and> ds \<noteq> [] \<and> (\<forall>d \<in> set ds. d < 10)"
  using str_nat_digits [of "nat i"] by (simp add: str_int_def)

lemma is_digit_digit_char [simp]: "d < 10 \<Longrightarrow> is_digit (digit_char d)"
  by (simp add: is_digit_def code_digit_char)

lemma str_nat_is_digit: "list_all is_digit (str_nat n)"
  using str_nat_digits [of n] by (auto simp: list_all_iff)

lemma dec_value_str_nat: "dec_value (str_nat n) = n"
proof (induction n rule: str_nat.induct)
  case (1 n)
  then show ?case
    by (subst str_nat.simps) (auto simp: dec_value_def code_digit_char)
qed

lemma str_nat_hd_zero: "hd (str_nat n) = CHR ''0'' \<Longrightarrow> n = 0"
proof (induction n rule: str_nat.induct)
  case (1 n)
  show ?case
  proof (cases "n < 10")
    case True
    then have "code (digit_char n) = code (CHR ''0'')" using "1.prems"
      by (subst (asm) str_nat.simps) simp
    then show ?thesis using True by (simp add: code_digit_char [unfolded code_def] code_def)
  next
    case False
    with "1.prems" have "hd (str_nat (n div 10)) = CHR ''0''"
      by (subst (asm) str_nat.simps) simp
    with "1.IH" False have "n div 10 = 0" by blast
    then show ?thesis using False by simp
  qed
qed

lemma match_hex64_64: "length s = 64 \<Longrightarrow> match_hex64 s \<longleftrightarrow> list_all is_hex_lower s"
  by (simp add: match_hex64_def)

lemma is_hex_lower_digits: "list_all (\<lambda>d. is_hex_lower (digit_char d)) [0..<16]"
  by code_simp

lemma is_hex_lower_digit: "d < 16 \<Longrightarrow> is_hex_lower (digit_char d)"
  using is_hex_lower_digits by (simp add: list_all_iff del: upt_Suc)

end
