(* ===== verification/Py_Uuid.thy ===== *)
theory Py_Uuid
  imports Py_String "HOL-Library.Word"
begin

text \<open>
  Python's \<open>uuid.UUID\<close>: a 128-bit value, its canonical text \<open>8-4-4-4-12\<close> (\<open>uuid_str\<close>, which is
  \<open>str(u)\<close>), and the constructor \<open>UUID(text)\<close> (\<open>uuid_of_str\<close>, \<open>None\<close> for the \<open>ValueError\<close>), with its
  tolerance for \<open>urn:uuid:\<close>, braces and dashes anywhere. The round trip \<open>uuid_of_str_uuid_str\<close>
  makes \<open>uuid_str\<close> injective, on which the isolation of the storage keys rests.
\<close>

type_synonym uuid = "128 word"

text \<open>\<open>k\<close> hexadecimal digits of \<open>n\<close>, most significant first.\<close>

fun hexn :: "nat \<Rightarrow> nat \<Rightarrow> string" where
  "hexn 0 n = []"
| "hexn (Suc k) n = hexn k (n div 16) @ [digit_char (n mod 16)]"

definition uuid_hex :: "uuid \<Rightarrow> string" where
  "uuid_hex u = hexn 32 (unat u)"

definition uuid_str :: "uuid \<Rightarrow> string" where
  "uuid_str u = (let h = uuid_hex u in
     take 8 h @ ''-'' @ take 4 (drop 8 h) @ ''-'' @ take 4 (drop 12 h) @ ''-''
     @ take 4 (drop 16 h) @ ''-'' @ drop 20 h)"

definition uuid_of_str :: "string \<Rightarrow> uuid option" where
  "uuid_of_str s =
     (let h = replace_str ''-'' '''' (strip_chars ''{}''
                (replace_str ''uuid:'' '''' (replace_str ''urn:'' '''' s)))
      in if length h \<noteq> 32 then None
         else case py_int 16 h of
                None \<Rightarrow> None
              | Some i \<Rightarrow> if 0 \<le> i \<and> i < 2 ^ 128 then Some (word_of_int i) else None)"

definition nil_uuid :: uuid where
  "nil_uuid = 0"

subsection \<open>Hexadecimal digits\<close>

lemma length_hexn [simp]: "length (hexn k n) = k"
  by (induction k arbitrary: n) simp_all

lemma hexn_digits: "c \<in> set (hexn k n) \<Longrightarrow> \<exists>d < 16. c = digit_char d"
proof (induction k arbitrary: n)
  case 0
  then show ?case by simp
next
  case (Suc k)
  have "n mod 16 < 16" by simp
  moreover from Suc.prems have "c \<in> set (hexn k (n div 16)) \<or> c = digit_char (n mod 16)" by auto
  ultimately show ?case using Suc.IH by blast
qed

lemma hexn_hex [simp]: "list_all is_hex_lower (hexn k n)"
  using hexn_digits [of _ k n] by (auto simp: list_all_iff intro: is_hex_lower_digit)

lemma hexn_absent: "\<not> is_hex_lower c \<Longrightarrow> c \<notin> set (hexn k n)"
  using hexn_hex [of k n] unfolding list_all_iff by blast

lemma int_digits_hexn_append:
  "int_digits 16 acc ok (hexn k n @ s)
    = int_digits 16 (acc * 16 ^ k + n mod 16 ^ k) (if k = 0 then ok else True) s"
proof (induction k arbitrary: n s ok)
  case 0
  then show ?case by simp
next
  case (Suc k)
  have "int_digits 16 acc ok (hexn (Suc k) n @ s)
      = int_digits 16 (acc * 16 ^ k + (n div 16) mod 16 ^ k) (if k = 0 then ok else True)
          (digit_char (n mod 16) # s)"
    by (simp add: Suc.IH)
  also have "\<dots> = int_digits 16 ((acc * 16 ^ k + (n div 16) mod 16 ^ k) * 16 + n mod 16) True s"
    by simp
  also have "(acc * 16 ^ k + (n div 16) mod 16 ^ k) * 16 + n mod 16
      = acc * 16 ^ Suc k + n mod 16 ^ Suc k"
    by (simp add: algebra_simps mod_mult2_eq)
  finally show ?case by simp
qed

lemma hexn_not_space: "c \<in> set (hexn k n) \<Longrightarrow>
    \<not> is_space c \<and> c \<noteq> CHR ''-'' \<and> c \<noteq> CHR ''+'' \<and> c \<noteq> CHR ''_''"
proof -
  assume "c \<in> set (hexn k n)"
  then obtain d where "d < 16" "c = digit_char d" using hexn_digits by blast
  then have "d < 36" "c = digit_char d" by simp_all
  then show ?thesis by simp
qed

lemma is_hex_lower_cases: "is_hex_lower c \<Longrightarrow>
    c \<noteq> CHR ''x'' \<and> c \<noteq> CHR ''X'' \<and> c \<noteq> CHR ''u'' \<and> c \<noteq> CHR ''{'' \<and> c \<noteq> CHR ''}''
    \<and> c \<noteq> CHR ''-'' \<and> c \<noteq> CHR '' '' \<and> c \<noteq> CHR '':'' \<and> c \<noteq> CHR ''/'' \<and> c \<noteq> CHR ''Z'' \<and> c \<noteq> CHR ''+''"
  by (auto simp: is_hex_lower_def)

lemma py_int_hexn:
  assumes "0 < k" and "n < 16 ^ k"
  shows "py_int 16 (hexn k n) = Some (int n)"
proof -
  obtain c cs where c: "hexn k n = c # cs"
    using assms(1) by (cases "hexn k n") (auto dest: arg_cong [of _ _ length])
  then have "c \<in> set (hexn k n)" by simp
  from hexn_not_space [OF this] have sign: "c \<noteq> CHR ''-''" "c \<noteq> CHR ''+''" by simp_all
  have ne: "hexn k n \<noteq> []" using c by simp
  have "strip (hexn k n) = hexn k n"
    using ne hexn_not_space [OF hd_in_set [OF ne]] hexn_not_space [OF last_in_set [OF ne]]
    by (intro strip_no_space) simp_all
  moreover have "CHR ''x'' \<notin> set (hexn k n)" "CHR ''X'' \<notin> set (hexn k n)"
    by (rule hexn_absent, simp add: is_hex_lower_def)+
  then have "\<not> starts_with ''0x'' (hexn k n)" "\<not> starts_with ''0X'' (hexn k n)"
    by (auto simp: starts_with_iff)
  then have "int_body 16 (hexn k n) = Some n"
    using int_digits_hexn_append [of 0 False k n "[]"] assms by (simp add: int_body_def)
  ultimately show ?thesis using c sign by (simp add: py_int_def)
qed

subsection \<open>Replacement of absent and of single characters\<close>

lemma replace_absent: "p \<noteq> [] \<Longrightarrow> hd p \<notin> set s \<Longrightarrow> replace_str p q s = s"
  by (induction s) (auto simp: starts_with_iff Cons_eq_append_conv)

lemma replace_char_filter: "replace_str [c] [] s = filter (\<lambda>x. x \<noteq> c) s"
  by (induction s) (auto simp: starts_with_def)

lemma strip_chars_absent: "set cs \<inter> set s = {} \<Longrightarrow> strip_chars cs s = s"
proof -
  assume "set cs \<inter> set s = {}"
  then have *: "dropWhile (\<lambda>c. c \<in> set cs) s = s" "dropWhile (\<lambda>c. c \<in> set cs) (rev s) = rev s"
    by (auto simp: dropWhile_eq_self_iff dest: hd_in_set) (metis disjoint_iff hd_in_set rev_is_Nil_conv set_rev)
  then show ?thesis by (simp add: strip_chars_def)
qed

subsection \<open>The round trip\<close>

lemma uuid_hex_length [simp]: "length (uuid_hex u) = 32"
  by (simp add: uuid_hex_def)

lemma uuid_hex_hex [simp]: "list_all is_hex_lower (uuid_hex u)"
  by (simp add: uuid_hex_def)

lemma uuid_hex_parts: "take 8 h @ take 4 (drop 8 h) @ take 4 (drop 12 h) @ take 4 (drop 16 h) @ drop 20 h
    = (h :: string)"
  using append_take_drop_id [of 8 h] append_take_drop_id [of 4 "drop 8 h"]
    append_take_drop_id [of 4 "drop 12 h"] append_take_drop_id [of 4 "drop 16 h"]
  by simp

lemma uuid_str_length [simp]: "length (uuid_str u) = 36"
  by (simp add: uuid_str_def Let_def)

lemma uuid_str_set: "set (uuid_str u) \<subseteq> insert (CHR ''-'') {c. is_hex_lower c}"
  using uuid_hex_hex [of u]
  by (auto simp: uuid_str_def Let_def list_all_iff dest: in_set_takeD in_set_dropD)

lemma filter_dash_uuid_str: "filter (\<lambda>c. c \<noteq> CHR ''-'') (uuid_str u) = uuid_hex u"
proof -
  have *: "filter (\<lambda>c. c \<noteq> CHR ''-'') s = s" if "set s \<subseteq> set (uuid_hex u)" for s
    using that uuid_hex_hex [of u] is_hex_lower_cases
    by (auto simp: filter_id_conv list_all_iff)
  have "filter (\<lambda>c. c \<noteq> CHR ''-'') (uuid_str u)
      = take 8 (uuid_hex u) @ take 4 (drop 8 (uuid_hex u)) @ take 4 (drop 12 (uuid_hex u))
        @ take 4 (drop 16 (uuid_hex u)) @ drop 20 (uuid_hex u)"
    using *[of "take 8 (uuid_hex u)"] *[of "take 4 (drop 8 (uuid_hex u))"]
      *[of "take 4 (drop 12 (uuid_hex u))"] *[of "take 4 (drop 16 (uuid_hex u))"]
      *[of "drop 20 (uuid_hex u)"]
    by (simp add: uuid_str_def Let_def set_take_subset set_drop_subset
        order_trans [OF set_take_subset set_drop_subset])
  also have "\<dots> = uuid_hex u" by (rule uuid_hex_parts)
  finally show ?thesis .
qed

lemma uuid_of_str_uuid_str [simp]: "uuid_of_str (uuid_str u) = Some u"
proof -
  have absent: "CHR ''u'' \<notin> set (uuid_str u)" "set ''{}'' \<inter> set (uuid_str u) = {}"
    using uuid_str_set [of u] is_hex_lower_cases by auto
  have "unat u < 16 ^ 32" using unsigned_less [of u, where 'a = nat] by simp
  then have "py_int 16 (uuid_hex u) = Some (uint u)"
    by (simp add: uuid_hex_def py_int_hexn)
  then show ?thesis
    using absent uint_bounded [of u]
    by (simp add: uuid_of_str_def Let_def replace_absent strip_chars_absent replace_char_filter
        filter_dash_uuid_str)
qed

lemma uuid_str_inj [simp]: "uuid_str u = uuid_str v \<longleftrightarrow> u = v"
  by (metis option.inject uuid_of_str_uuid_str)

lemma uuid_str_not_Nil [simp]: "uuid_str u \<noteq> []"
  using uuid_str_length [of u] by (metis list.size(3) zero_neq_numeral)

end
