(* ===== verification/Py_Datetime.thy ===== *)
theory Py_Datetime
  imports Py_String "HOL-Library.Monad_Syntax"
begin

text \<open>
  Python's \<open>datetime\<close>: a wall-clock reading in microseconds since 0001-01-01T00:00:00 and an
  optional UTC offset in seconds (\<open>None\<close> is a naive value, \<open>tzinfo is None\<close>). Comparison and
  subtraction of aware values go through \<open>instant\<close>. The text form \<open>isoformat()\<close> needs the
  Gregorian calendar, computed here by \<open>year_of\<close> and \<open>month_of\<close> with their correctness lemmas.
  \<open>fromisoformat\<close> is modelled on the extended format that \<open>isoformat\<close> writes, with an optional
  fraction and an offset \<open>+HH:MM\<close>, \<open>+HH:MM:SS\<close> or \<open>Z\<close>; other ISO 8601 spellings, which the
  program never stores, are \<open>None\<close> here. \<open>fromisoformat_isoformat\<close> is the round trip.
\<close>

record datetime =
  wall :: nat
  utcoff :: "int option"

definition is_aware :: "datetime \<Rightarrow> bool" where
  "is_aware d = (utcoff d \<noteq> None)"

definition instant :: "datetime \<Rightarrow> int" where
  "instant d = int (wall d) - 1000000 * (case utcoff d of None \<Rightarrow> 0 | Some off \<Rightarrow> off)"

definition usec_hour :: nat where "usec_hour = 3600000000"
definition usec_day :: nat where "usec_day = 86400000000"

section \<open>The calendar\<close>

definition is_leap :: "nat \<Rightarrow> bool" where
  "is_leap y = (y mod 4 = 0 \<and> (y mod 100 \<noteq> 0 \<or> y mod 400 = 0))"

text \<open>Days before 1 January of a year (\<open>y \<ge> 1\<close>), and before the first of a month.\<close>

definition days_before_year :: "nat \<Rightarrow> nat" where
  "days_before_year y = (let p = y - 1 in p * 365 + p div 4 + p div 400 - p div 100)"

fun month_start :: "nat \<Rightarrow> nat" where
  "month_start m = (if m \<le> 1 then 0 else if m = 2 then 31 else if m = 3 then 59
     else if m = 4 then 90 else if m = 5 then 120 else if m = 6 then 151 else if m = 7 then 181
     else if m = 8 then 212 else if m = 9 then 243 else if m = 10 then 273 else if m = 11 then 304
     else if m = 12 then 334 else 365)"

definition days_before_month :: "nat \<Rightarrow> nat \<Rightarrow> nat" where
  "days_before_month y m = month_start m + (if 2 < m \<and> is_leap y then 1 else 0)"

definition days_in_month :: "nat \<Rightarrow> nat \<Rightarrow> nat" where
  "days_in_month y m = days_before_month y (m + 1) - days_before_month y m"

definition days_in_year :: "nat \<Rightarrow> nat" where
  "days_in_year y = (if is_leap y then 366 else 365)"

lemma days_before_year_sum: "days_before_year (Suc p) + p div 100 = p * 365 + p div 4 + p div 400"
proof -
  have "p div 100 \<le> p" by simp
  then show ?thesis unfolding days_before_year_def Let_def diff_Suc_1 by linarith
qed

lemma leap_quotients:
  "Suc p div 4 + Suc p div 400 + p div 100 + 365
    = p div 4 + p div 400 + Suc p div 100 + days_in_year (Suc p)"
proof -
  have m: "Suc p mod 100 = 0 \<Longrightarrow> Suc p mod 4 = 0" "Suc p mod 400 = 0 \<Longrightarrow> Suc p mod 100 = 0"
    by presburger+
  have q: "Suc p div k = p div k + (if Suc p mod k = 0 then 1 else 0)" for k
    by (simp add: div_Suc)
  show ?thesis
    unfolding q [of 4] q [of 100] q [of 400] days_in_year_def is_leap_def using m by auto
qed

lemma days_before_year_Suc: "1 \<le> y \<Longrightarrow> days_before_year (Suc y) = days_before_year y + days_in_year y"
proof -
  assume "1 \<le> y"
  then obtain p where y: "y = Suc p" by (cases y) auto
  show ?thesis
    using days_before_year_sum [of p] days_before_year_sum [of "Suc p"] leap_quotients [of p]
    unfolding y mult_Suc by linarith
qed

lemma days_before_year_ge: "365 * p \<le> days_before_year (Suc p)"
proof -
  have "p div 100 \<le> p div 4" by (rule div_le_mono2) simp_all
  then show ?thesis using days_before_year_sum [of p] by linarith
qed

lemma days_before_year_le: "days_before_year (Suc p) \<le> 366 * p"
proof -
  have "p div 400 \<le> p div 100" by (rule div_le_mono2) simp_all
  moreover have "p div 4 \<le> p" by simp
  ultimately show ?thesis using days_before_year_sum [of p] by linarith
qed

lemma days_in_month_le: "1 \<le> m \<Longrightarrow> m \<le> 12 \<Longrightarrow> days_in_month y m \<le> 31"
proof -
  assume m: "1 \<le> m" "m \<le> 12"
  then have "m = 1 \<or> m = 2 \<or> m = 3 \<or> m = 4 \<or> m = 5 \<or> m = 6 \<or> m = 7 \<or> m = 8 \<or> m = 9
      \<or> m = 10 \<or> m = 11 \<or> m = 12" by presburger
  then show ?thesis by (auto simp: days_in_month_def days_before_month_def)
qed

lemma days_before_january [simp]: "days_before_month y 1 = 0" "days_before_month y (Suc 0) = 0"
  by (simp_all add: days_before_month_def)

subsection \<open>From a day number to year, month and day\<close>

function year_from :: "nat \<Rightarrow> nat \<Rightarrow> nat" where
  "year_from y n = (if days_before_year (Suc y) \<le> n then year_from (Suc y) n else y)"
  by pat_completeness auto
termination
proof (relation "measure (\<lambda>(y, n). Suc n - y)")
  fix y n assume a: "days_before_year (Suc y) \<le> n"
  have "365 * y \<le> days_before_year (Suc y)" by (rule days_before_year_ge)
  then have "y \<le> n" using a by linarith
  then show "((Suc y, n), y, n) \<in> measure (\<lambda>(y, n). Suc n - y)" by simp
qed simp

declare year_from.simps [simp del]

text \<open>The year of a day number: no year is longer than 366 days, so the search starts close by.\<close>

definition year_of :: "nat \<Rightarrow> nat" where
  "year_of n = year_from (n div 366 + 1) n"

function month_from :: "nat \<Rightarrow> nat \<Rightarrow> nat \<Rightarrow> nat" where
  "month_from y m d = (if m < 12 \<and> days_before_month y (m + 1) \<le> d then month_from y (m + 1) d else m)"
  by pat_completeness auto
termination
  by (relation "measure (\<lambda>(y, m, d). 12 - m)") auto

declare month_from.simps [simp del]

lemma year_from_correct:
  "1 \<le> y \<Longrightarrow> days_before_year y \<le> n \<Longrightarrow>
    1 \<le> year_from y n \<and> days_before_year (year_from y n) \<le> n \<and> n < days_before_year (Suc (year_from y n))"
proof (induction y n rule: year_from.induct)
  case (1 y n)
  then show ?case
    by (cases "days_before_year (Suc y) \<le> n") (simp_all add: year_from.simps [of y n])
qed

lemma year_of_correct:
  "1 \<le> year_of n \<and> days_before_year (year_of n) \<le> n \<and> n < days_before_year (Suc (year_of n))"
proof -
  have "days_before_year (n div 366 + 1) \<le> 366 * (n div 366)"
    using days_before_year_le [of "n div 366"] by simp
  also have "\<dots> \<le> n" by simp
  finally show ?thesis unfolding year_of_def by (intro year_from_correct) simp_all
qed

lemma month_from_correct:
  "1 \<le> m \<Longrightarrow> m \<le> 12 \<Longrightarrow> days_before_month y m \<le> d \<Longrightarrow> d < days_in_year y \<Longrightarrow>
    1 \<le> month_from y m d \<and> month_from y m d \<le> 12
      \<and> days_before_month y (month_from y m d) \<le> d \<and> d < days_before_month y (month_from y m d + 1)"
proof (induction y m d rule: month_from.induct)
  case (1 y m d)
  have last: "days_before_month y 13 = days_in_year y"
    by (simp add: days_before_month_def days_in_year_def)
  show ?case
  proof (cases "m < 12 \<and> days_before_month y (m + 1) \<le> d")
    case True
    with "1.IH" "1.prems" show ?thesis by (simp add: month_from.simps [of y m d])
  next
    case False
    then have "d < days_before_month y (m + 1)"
      using "1.prems" last by (cases "m = 12") auto
    with False "1.prems" show ?thesis by (auto simp: month_from.simps [of y m d])
  qed
qed

section \<open>Text\<close>

fun decn :: "nat \<Rightarrow> nat \<Rightarrow> string" where
  "decn 0 n = []"
| "decn (Suc k) n = decn k (n div 10) @ [digit_char (n mod 10)]"

definition iso_offset :: "int \<Rightarrow> string" where
  "iso_offset off = (let a = nat \<bar>off\<bar> in
     (if off < 0 then ''-'' else ''+'') @ decn 2 (a div 3600) @ '':'' @ decn 2 (a div 60 mod 60)
     @ (if a mod 60 = 0 then [] else '':'' @ decn 2 (a mod 60)))"

definition isoformat :: "datetime \<Rightarrow> string" where
  "isoformat d =
     (let n = wall d div usec_day; t = wall d mod usec_day;
          y = year_of n; doy = n - days_before_year y; m = month_from y 1 doy;
          us = t mod 1000000
      in decn 4 y @ ''-'' @ decn 2 m @ ''-'' @ decn 2 (doy - days_before_month y m + 1) @ ''T''
         @ decn 2 (t div usec_hour) @ '':'' @ decn 2 (t div 60000000 mod 60) @ '':''
         @ decn 2 (t div 1000000 mod 60)
         @ (if us = 0 then [] else ''.'' @ decn 6 us)
         @ (case utcoff d of None \<Rightarrow> [] | Some off \<Rightarrow> iso_offset off))"

definition take_num :: "nat \<Rightarrow> string \<Rightarrow> (nat \<times> string) option" where
  "take_num k s = (if k \<le> length s \<and> list_all is_digit (take k s)
     then Some (dec_value (take k s), drop k s) else None)"

definition expect :: "char \<Rightarrow> string \<Rightarrow> string option" where
  "expect c s = (case s of [] \<Rightarrow> None | x # r \<Rightarrow> if x = c then Some r else None)"

definition take_fraction :: "string \<Rightarrow> (nat \<times> string) option" where
  "take_fraction s =
     (case s of
        [] \<Rightarrow> Some (0, [])
      | c # r \<Rightarrow>
          if c = CHR ''.'' then
            (let ds = takeWhile is_digit r in
             if ds = [] then None
             else Some (dec_value (take 6 (ds @ ''000000'')), dropWhile is_digit r))
          else Some (0, c # r))"

definition take_offset :: "string \<Rightarrow> int option option" where
  "take_offset s =
     (case s of
        [] \<Rightarrow> Some None
      | c # r \<Rightarrow>
          if c = CHR ''Z'' \<and> r = [] then Some (Some 0)
          else if c = CHR ''+'' \<or> c = CHR ''-'' then do {
            (h, s) \<leftarrow> take_num 2 r;
            s \<leftarrow> expect CHR '':'' s;
            (mi, s) \<leftarrow> take_num 2 s;
            sec \<leftarrow> (if s = [] then Some 0 else do {
              s \<leftarrow> expect CHR '':'' s;
              (x, s) \<leftarrow> take_num 2 s;
              if s = [] then Some x else None });
            if h < 24 \<and> mi < 60 \<and> sec < 60
            then (let a = int (h * 3600 + mi * 60 + sec)
                  in Some (Some (if c = CHR ''-'' then - a else a)))
            else None }
          else None)"

definition fromisoformat :: "string \<Rightarrow> datetime option" where
  "fromisoformat s = do {
     (y, s) \<leftarrow> take_num 4 s;
     s \<leftarrow> expect CHR ''-'' s;
     (m, s) \<leftarrow> take_num 2 s;
     s \<leftarrow> expect CHR ''-'' s;
     (d, s) \<leftarrow> take_num 2 s;
     s \<leftarrow> expect CHR ''T'' s;
     (h, s) \<leftarrow> take_num 2 s;
     s \<leftarrow> expect CHR '':'' s;
     (mi, s) \<leftarrow> take_num 2 s;
     s \<leftarrow> expect CHR '':'' s;
     (sec, s) \<leftarrow> take_num 2 s;
     (us, s) \<leftarrow> take_fraction s;
     off \<leftarrow> take_offset s;
     if 1 \<le> y \<and> 1 \<le> m \<and> m \<le> 12 \<and> 1 \<le> d \<and> d \<le> days_in_month y m
        \<and> h < 24 \<and> mi < 60 \<and> sec < 60
     then Some \<lparr>wall = (days_before_year y + days_before_month y m + (d - 1)) * usec_day
                  + ((h * 60 + mi) * 60 + sec) * 1000000 + us,
                utcoff = off\<rparr>
     else None }"

subsection \<open>The values Python can represent\<close>

definition max_wall :: nat where
  "max_wall = days_before_year 10000 * usec_day"

definition valid_datetime :: "datetime \<Rightarrow> bool" where
  "valid_datetime d = (wall d < max_wall \<and>
     (case utcoff d of None \<Rightarrow> True | Some off \<Rightarrow> \<bar>off\<bar> < 86400))"

text \<open>\<open>d + timedelta(hours=h)\<close>, \<open>None\<close> for the \<open>OverflowError\<close> beyond the year 9999.\<close>

definition add_hours :: "datetime \<Rightarrow> nat \<Rightarrow> datetime option" where
  "add_hours d h = (let w = wall d + h * usec_hour in
     if w < max_wall then Some (d\<lparr>wall := w\<rparr>) else None)"

text \<open>\<open>d.astimezone(UTC)\<close> of an aware value.\<close>

definition to_utc :: "datetime \<Rightarrow> datetime" where
  "to_utc d = \<lparr>wall = nat (instant d), utcoff = Some 0\<rparr>"

subsection \<open>The round trip\<close>

lemma length_decn [simp]: "length (decn k n) = k"
  by (induction k arbitrary: n) simp_all

lemma code_digit [simp]: "d < 10 \<Longrightarrow> code (digit_char d) = 48 + d"
  by (simp add: code_digit_char)

lemma decn_value: "foldl (\<lambda>a c. a * 10 + (code c - 48)) 0 (decn k n) = n mod 10 ^ k"
proof (induction k arbitrary: n)
  case 0
  then show ?case by simp
next
  case (Suc k)
  then show ?case by (simp add: mod_mult2_eq)
qed

lemma decn_is_digit [simp]: "list_all is_digit (decn k n)"
  by (induction k arbitrary: n) (simp_all add: is_digit_def)

lemma take_num_decn [simp]: "n < 10 ^ k \<Longrightarrow> take_num k (decn k n @ r) = Some (n, r)"
  by (simp add: take_num_def dec_value_def decn_value)

lemma take_num_decn' [simp]: "n < 10 ^ k \<Longrightarrow> take_num k (decn k n) = Some (n, [])"
  using take_num_decn [of n k "[]"] by simp

lemma expect_Cons [simp]: "expect c (c # r) = Some r"
  by (simp add: expect_def)

lemma takeWhile_digits: "list_all is_digit ds \<Longrightarrow> s = [] \<or> \<not> is_digit (hd s) \<Longrightarrow>
    takeWhile is_digit (ds @ s) = ds \<and> dropWhile is_digit (ds @ s) = s"
  by (cases s) (auto simp: list_all_iff takeWhile_append2 dropWhile_append2)

lemma take_fraction_iso:
  assumes "us < 1000000" and "s = [] \<or> \<not> is_digit (hd s) \<and> hd s \<noteq> CHR ''.''"
  shows "take_fraction ((if us = 0 then [] else ''.'' @ decn 6 us) @ s) = Some (us, s)"
proof (cases "us = 0")
  case True
  with assms(2) show ?thesis by (cases s) (auto simp: take_fraction_def)
next
  case False
  have tw: "takeWhile is_digit (decn 6 us @ s) = decn 6 us" "dropWhile is_digit (decn 6 us @ s) = s"
    using takeWhile_digits [of "decn 6 us" s] assms(2) by auto
  have ne: "decn 6 us \<noteq> []" by (metis length_decn list.size(3) zero_neq_numeral)
  have "dec_value (take 6 (decn 6 us @ ''000000'')) = us"
    using assms(1) by (simp add: dec_value_def decn_value)
  with False tw ne show ?thesis by (simp add: take_fraction_def Let_def)
qed

lemma iso_offset_head: "iso_offset off \<noteq> [] \<and> \<not> is_digit (hd (iso_offset off)) \<and> hd (iso_offset off) \<noteq> CHR ''.''"
  by (simp add: iso_offset_def Let_def is_digit_def code_def)

text \<open>Splitting a count of units into larger units and the remainder.\<close>

lemma div_split: "a div (k * n) * n + a div k mod n = (a div k :: nat)"
  by (metis div_mult2_eq div_mult_mod_eq)

lemma take_offset_digits:
  assumes a: "a < 86400"
  shows "take_offset ((if neg then ''-'' else ''+'') @ decn 2 (a div 3600) @ '':''
      @ decn 2 (a div 60 mod 60) @ (if a mod 60 = 0 then [] else '':'' @ decn 2 (a mod 60)))
    = Some (Some (if neg then - int a else int a))"
proof -
  have h: "a div 3600 < 24" "a div 60 mod 60 < 60" "a mod 60 < 60" using a by auto
  have "a div 3600 * 60 + a div 60 mod 60 = a div 60" using div_split [of a 60 60] by simp
  moreover have "a div 60 * 60 + a mod 60 = a" by (rule div_mult_mod_eq)
  ultimately have eq: "a div 3600 * 3600 + a div 60 mod 60 * 60 + a mod 60 = a" by linarith
  then have z: "a mod 60 = 0 \<Longrightarrow> a div 3600 * 3600 + a div 60 mod 60 * 60 = a" by linarith
  show ?thesis
    using h eq z
    by (cases "a mod 60 = 0"; cases neg)
      (simp_all add: take_offset_def Let_def del: of_nat_add of_nat_mult)
qed

lemma take_offset_iso: "\<bar>off\<bar> < 86400 \<Longrightarrow> take_offset (iso_offset off) = Some (Some off)"
  unfolding iso_offset_def Let_def
  by (subst take_offset_digits) auto

lemma year_of_less_10000: "n < days_before_year 10000 \<Longrightarrow> year_of n < 10000"
proof (rule ccontr)
  assume n: "n < days_before_year 10000" "\<not> year_of n < 10000"
  have mono: "days_before_year a \<le> days_before_year (a + k)" if "1 \<le> a" for a k
    using that by (induction k) (simp_all add: days_before_year_Suc le_SucI trans_le_add1)
  from n(2) obtain k where "year_of n = 10000 + k" using le_Suc_ex linorder_not_less by blast
  with mono [of 10000 k] year_of_correct [of n] n(1) show False by simp
qed

theorem fromisoformat_isoformat:
  assumes "valid_datetime d"
  shows "fromisoformat (isoformat d) = Some d"
proof -
  define n t where nt: "n = wall d div usec_day" "t = wall d mod usec_day"
  define y where "y = year_of n"
  define doy where "doy = n - days_before_year y"
  define m where "m = month_from y 1 doy"
  have "n < days_before_year 10000"
    using assms by (simp add: valid_datetime_def max_wall_def nt less_mult_imp_div_less)
  then have y: "1 \<le> y" "y < 10000" "days_before_year y \<le> n" "doy < days_in_year y"
    using year_of_correct [of n] year_of_less_10000 [of n] days_before_year_Suc [of y]
    by (auto simp: y_def [symmetric] doy_def)
  have m: "1 \<le> m" "m \<le> 12" "days_before_month y m \<le> doy" "doy < days_before_month y (m + 1)"
    using month_from_correct [of 1 y doy] y(4) by (auto simp: m_def)
  define dd where "dd = doy - days_before_month y m + 1"
  have dd: "1 \<le> dd" "dd \<le> days_in_month y m" "days_before_year y + days_before_month y m + (dd - 1) = n"
    using m y(3) by (auto simp: dd_def days_in_month_def doy_def)
  have "days_in_month y m \<le> 31" by (rule days_in_month_le [OF m(1,2)])
  then have dd100: "dd < 100" using dd(2) by simp
  have t: "t < 86400000000" by (simp add: nt usec_day_def)
  then have h: "t div usec_hour < 24" "t div 60000000 mod 60 < 60" "t div 1000000 mod 60 < 60"
    by (auto simp: usec_hour_def)
  have teq: "((t div usec_hour * 60 + t div 60000000 mod 60) * 60 + t div 1000000 mod 60) * 1000000
      + t mod 1000000 = t"
  proof -
    have "t div usec_hour * 60 + t div 60000000 mod 60 = t div 60000000"
      using div_split [of t 60000000 60] by (simp add: usec_hour_def)
    moreover have "t div 60000000 * 60 + t div 1000000 mod 60 = t div 1000000"
      using div_split [of t 1000000 60] by simp
    moreover have "t div 1000000 * 1000000 + t mod 1000000 = t" by (rule div_mult_mod_eq)
    ultimately show ?thesis by simp
  qed
  have weq: "n * usec_day + t = wall d" by (simp add: nt)
  define off where "off = (case utcoff d of None \<Rightarrow> [] | Some off \<Rightarrow> iso_offset off)"
  have off: "take_offset off = Some (utcoff d)" "off = [] \<or> \<not> is_digit (hd off) \<and> hd off \<noteq> CHR ''.''"
    using assms take_offset_iso iso_offset_head
    by (auto simp: off_def valid_datetime_def take_offset_def split: option.splits)
  have fr: "take_fraction ((if t mod 1000000 = 0 then [] else ''.'' @ decn 6 (t mod 1000000)) @ off)
      = Some (t mod 1000000, off)"
    by (rule take_fraction_iso [OF _ off(2)]) simp
  have iso: "isoformat d = decn 4 y @ CHR ''-'' # decn 2 m @ CHR ''-'' # decn 2 dd @ CHR ''T''
      # decn 2 (t div usec_hour) @ CHR '':'' # decn 2 (t div 60000000 mod 60) @ CHR '':''
      # decn 2 (t div 1000000 mod 60)
      @ (if t mod 1000000 = 0 then [] else ''.'' @ decn 6 (t mod 1000000)) @ off"
    by (simp add: isoformat_def Let_def off_def dd_def m_def doy_def y_def nt)
  have small: "y < 10 ^ 4" "m < 10 ^ 2" "dd < 10 ^ 2" "t div usec_hour < 10 ^ 2"
      "t div 60000000 mod 60 < 10 ^ 2" "t div 1000000 mod 60 < 10 ^ 2"
    using y m dd100 h by simp_all
  have "fromisoformat (isoformat d)
      = Some \<lparr>wall = (days_before_year y + days_before_month y m + (dd - 1)) * usec_day
          + ((t div usec_hour * 60 + t div 60000000 mod 60) * 60 + t div 1000000 mod 60) * 1000000
          + t mod 1000000, utcoff = utcoff d\<rparr>"
    unfolding iso fromisoformat_def
    using y(1) m(1,2) dd(1,2) h fr off(1)
    by (simp only: take_num_decn [OF small(1)] take_num_decn [OF small(2)] take_num_decn [OF small(3)]
        take_num_decn [OF small(4)] take_num_decn [OF small(5)] take_num_decn [OF small(6)]
        expect_Cons Option.bind.simps prod.case fr) simp
  also have "\<dots> = Some d"
    using teq weq dd(3) by (simp add: add.assoc)
  finally show ?thesis .
qed

end
