(* ===== verification/Py_Json.thy ===== *)
theory Py_Json
  imports Py_String "HOL-Library.AList" "HOL-Library.Monad_Syntax"
begin

text \<open>
  \<open>json.dumps\<close> and \<open>json.loads\<close> with their default options, and UTF-8.

  A JSON value is a value of the type \<open>json\<close>; a Python dict is the list of its items in insertion order
  (\<open>JObj\<close>). The writer separates with \<open>, \<close> and \<open>: \<close> and escapes everything outside printable
  ASCII; the reader skips whitespace, keeps the last of two equal keys and rejects control
  characters in strings. Numbers with a fraction or an exponent and the constants \<open>NaN\<close> and
  \<open>Infinity\<close>, which the program never writes, and escapes beyond U+00FF are outside the model:
  the reader rejects them. \<open>json_loads_dumps\<close> is the round trip.
\<close>

datatype json = JNull | JBool bool | JInt int | JStr string | JArr "json list"
  | JObj "(string \<times> json) list"

section \<open>Writing\<close>

definition json_escape :: "char \<Rightarrow> string" where
  "json_escape c =
     (if c = CHR 0x22 then [CHR 0x5C, CHR 0x22]
      else if c = CHR 0x5C then [CHR 0x5C, CHR 0x5C]
      else if c = CHR 0x0A then [CHR 0x5C, CHR ''n'']
      else if c = CHR 0x0D then [CHR 0x5C, CHR ''r'']
      else if c = CHR 0x09 then [CHR 0x5C, CHR ''t'']
      else if c = CHR 0x0C then [CHR 0x5C, CHR ''f'']
      else if c = CHR 0x08 then [CHR 0x5C, CHR ''b'']
      else if 32 \<le> code c \<and> code c \<le> 126 then [c]
      else [CHR 0x5C, CHR ''u'', CHR ''0'', CHR ''0'', digit_char (code c div 16), digit_char (code c mod 16)])"

definition dump_str :: "string \<Rightarrow> string" where
  "dump_str s = CHR 0x22 # concat (map json_escape s) @ [CHR 0x22]"

fun json_dumps :: "json \<Rightarrow> string"
  and dump_elems :: "json list \<Rightarrow> string"
  and dump_members :: "(string \<times> json) list \<Rightarrow> string" where
  "json_dumps JNull = ''null''"
| "json_dumps (JBool b) = (if b then ''true'' else ''false'')"
| "json_dumps (JInt i) = str_int i"
| "json_dumps (JStr s) = dump_str s"
| "json_dumps (JArr xs) = ''['' @ dump_elems xs @ '']''"
| "json_dumps (JObj ms) = ''{'' @ dump_members ms @ ''}''"
| "dump_elems [] = []"
| "dump_elems (x # xs) = json_dumps x @ (if xs = [] then [] else '', '' @ dump_elems xs)"
| "dump_members [] = []"
| "dump_members ((k, v) # ms) = dump_str k @ '': '' @ json_dumps v @ (if ms = [] then [] else '', '' @ dump_members ms)"

section \<open>Reading\<close>

definition skip_ws :: "string \<Rightarrow> string" where
  "skip_ws s = dropWhile (\<lambda>c. c \<in> set [CHR '' '', CHR 0x09, CHR 0x0A, CHR 0x0D]) s"

definition hex4 :: "char \<Rightarrow> char \<Rightarrow> char \<Rightarrow> char \<Rightarrow> char option" where
  "hex4 a b c d =
     (case map digit_val [a, b, c, d] of
        [Some x, Some y, Some z, Some t] \<Rightarrow>
          if x < 16 \<and> y < 16 \<and> z < 16 \<and> t < 16 \<and> x = 0 \<and> y = 0
          then Some (char_of (z * 16 + t)) else None
      | _ \<Rightarrow> None)"

fun unescape1 :: "char \<Rightarrow> char option" where
  "unescape1 e =
     (if e = CHR 0x22 \<or> e = CHR 0x5C \<or> e = CHR ''/'' then Some e
      else if e = CHR ''n'' then Some (CHR 0x0A)
      else if e = CHR ''r'' then Some (CHR 0x0D)
      else if e = CHR ''t'' then Some (CHR 0x09)
      else if e = CHR ''f'' then Some (CHR 0x0C)
      else if e = CHR ''b'' then Some (CHR 0x08)
      else None)"

text \<open>The rest of a string literal, after its opening quote.\<close>

fun parse_str :: "string \<Rightarrow> (string \<times> string) option" where
  "parse_str [] = None"
| "parse_str (c # r) =
     (if c = CHR 0x22 then Some ([], r)
      else if c = CHR 0x5C then
        (case r of
           [] \<Rightarrow> None
         | e # r1 \<Rightarrow>
             if e = CHR ''u'' then
               (case r1 of
                  x1 # x2 # x3 # x4 # r2 \<Rightarrow>
                    (case hex4 x1 x2 x3 x4 of
                       None \<Rightarrow> None
                     | Some u \<Rightarrow> map_option (\<lambda>(t, q). (u # t, q)) (parse_str r2))
                | _ \<Rightarrow> None)
             else (case unescape1 e of
                     None \<Rightarrow> None
                   | Some u \<Rightarrow> map_option (\<lambda>(t, q). (u # t, q)) (parse_str r1)))
      else if code c < 32 then None
      else map_option (\<lambda>(t, q). (c # t, q)) (parse_str r))"

definition parse_nat :: "string \<Rightarrow> (nat \<times> string) option" where
  "parse_nat s =
     (case s of
        [] \<Rightarrow> None
      | c # r \<Rightarrow>
          if c = CHR ''0'' then Some (0, r)
          else if is_digit c then Some (dec_value (takeWhile is_digit s), dropWhile is_digit s)
          else None)"

definition parse_int :: "string \<Rightarrow> (int \<times> string) option" where
  "parse_int s =
     (case s of
        [] \<Rightarrow> None
      | c # r \<Rightarrow>
          if c = CHR ''-'' then map_option (\<lambda>(n, q). (- int n, q)) (parse_nat r)
          else map_option (\<lambda>(n, q). (int n, q)) (parse_nat s))"

definition expect_char :: "char \<Rightarrow> string \<Rightarrow> string option" where
  "expect_char c s = (case s of [] \<Rightarrow> None | x # r \<Rightarrow> if x = c then Some r else None)"

text \<open>The fuel bounds the depth and the length of nested values; the length of the text suffices.\<close>

fun parse_value :: "nat \<Rightarrow> string \<Rightarrow> (json \<times> string) option"
  and parse_elems :: "nat \<Rightarrow> string \<Rightarrow> (json list \<times> string) option"
  and parse_members :: "nat \<Rightarrow> string \<Rightarrow> ((string \<times> json) list \<times> string) option" where
  "parse_value 0 s = None"
| "parse_value (Suc n) s =
     (case s of
        [] \<Rightarrow> None
      | c # r \<Rightarrow>
          if c = CHR 0x22 then map_option (\<lambda>(t, q). (JStr t, q)) (parse_str r)
          else if c = CHR ''['' then
            (case expect_char CHR '']'' (skip_ws r) of
               Some q \<Rightarrow> Some (JArr [], q)
             | None \<Rightarrow> map_option (\<lambda>(xs, q). (JArr xs, q)) (parse_elems n (skip_ws r)))
          else if c = CHR ''{'' then
            (case expect_char CHR ''}'' (skip_ws r) of
               Some q \<Rightarrow> Some (JObj [], q)
             | None \<Rightarrow> map_option (\<lambda>(ms, q). (JObj (fold (\<lambda>(k, v). AList.update k v) ms []), q))
                         (parse_members n (skip_ws r)))
          else if starts_with ''null'' s then Some (JNull, drop 4 s)
          else if starts_with ''true'' s then Some (JBool True, drop 4 s)
          else if starts_with ''false'' s then Some (JBool False, drop 5 s)
          else map_option (\<lambda>(i, q). (JInt i, q)) (parse_int s))"
| "parse_elems 0 s = None"
| "parse_elems (Suc n) s = do {
     (x, q) \<leftarrow> parse_value n s;
     (case expect_char CHR '']'' (skip_ws q) of
       Some r \<Rightarrow> Some ([x], r)
     | None \<Rightarrow> do {
         q \<leftarrow> expect_char CHR '','' (skip_ws q);
         (xs, r) \<leftarrow> parse_elems n (skip_ws q);
         Some (x # xs, r) }) }"
| "parse_members 0 s = None"
| "parse_members (Suc n) s = do {
     q \<leftarrow> expect_char CHR 0x22 s;
     (k, q) \<leftarrow> parse_str q;
     q \<leftarrow> expect_char CHR '':'' (skip_ws q);
     (v, q) \<leftarrow> parse_value n (skip_ws q);
     (case expect_char CHR ''}'' (skip_ws q) of
       Some r \<Rightarrow> Some ([(k, v)], r)
     | None \<Rightarrow> do {
         q \<leftarrow> expect_char CHR '','' (skip_ws q);
         (ms, r) \<leftarrow> parse_members n (skip_ws q);
         Some ((k, v) # ms, r) }) }"

definition json_loads :: "string \<Rightarrow> json option" where
  "json_loads s =
     (case parse_value (Suc (length s)) (skip_ws s) of
        Some (j, r) \<Rightarrow> if skip_ws r = [] then Some j else None
      | None \<Rightarrow> None)"

section \<open>UTF-8\<close>

definition utf8_encode :: "string \<Rightarrow> bytes" where
  "utf8_encode s =
     concat (map (\<lambda>c. if code c < 128 then [code c] else [192 + code c div 64, 128 + code c mod 64]) s)"

fun utf8_decode :: "bytes \<Rightarrow> string option" where
  "utf8_decode [] = Some []"
| "utf8_decode (b # bs) =
     (if b < 128 then map_option (\<lambda>s. char_of b # s) (utf8_decode bs)
      else case bs of
             [] \<Rightarrow> None
           | b' # r \<Rightarrow>
               if (b = 194 \<or> b = 195) \<and> 128 \<le> b' \<and> b' < 192
               then map_option (\<lambda>s. char_of ((b - 192) * 64 + (b' - 128)) # s) (utf8_decode r)
               else None)"

text \<open>A value that is \<open>bytes\<close> or \<open>str\<close>.\<close>

datatype reply = RBytes bytes | RStr string

section \<open>The round trip\<close>

lemma code_ascii: "is_space CHR '' ''" "code CHR 0x22 = 34" "code CHR 0x5C = 92"
  by (simp_all add: is_space_def code_def)

lemma hex4_code: "hex4 CHR ''0'' CHR ''0'' (digit_char (code c div 16)) (digit_char (code c mod 16)) = Some c"
proof -
  have "code c div 16 < 16" using code_less [of c] by (simp add: less_mult_imp_div_less del: code_less)
  then have "digit_val (digit_char (code c div 16)) = Some (code c div 16)"
    "digit_val (digit_char (code c mod 16)) = Some (code c mod 16)" by simp_all
  moreover have "digit_val CHR ''0'' = Some 0" by (simp add: digit_val_def code_def)
  ultimately show ?thesis using \<open>code c div 16 < 16\<close> by (simp add: hex4_def)
qed

lemma parse_str_escape:
  "parse_str (json_escape c @ r) = map_option (\<lambda>(t, q). (c # t, q)) (parse_str r)"
  using hex4_code [of c]
  by (auto simp: json_escape_def)

lemma parse_str_dump [simp]:
  "parse_str (concat (map json_escape s) @ CHR 0x22 # r) = Some (s, r)"
proof (induction s)
  case (Cons c s)
  then show ?case by (simp only: list.map concat.simps append_assoc parse_str_escape) simp
qed simp

lemma expect_char_Cons [simp]: "expect_char c (x # r) = (if x = c then Some r else None)"
  by (simp add: expect_char_def)

lemma skip_ws_visible [simp]: "c \<notin> set [CHR '' '', CHR 0x09, CHR 0x0A, CHR 0x0D] \<Longrightarrow> skip_ws (c # r) = c # r"
  by (simp add: skip_ws_def)

lemma skip_ws_space [simp]: "skip_ws (CHR '' '' # r) = skip_ws r"
  by (simp add: skip_ws_def)

text \<open>What a written value starts with.\<close>

definition starts_value :: "string \<Rightarrow> bool" where
  "starts_value s = (s \<noteq> [] \<and> hd s \<notin> set [CHR '' '', CHR 0x09, CHR 0x0A, CHR 0x0D, CHR '']'', CHR ''}'', CHR '',''])"

lemma digit_starts: "is_digit c \<Longrightarrow>
    c \<notin> set [CHR '' '', CHR 0x09, CHR 0x0A, CHR 0x0D, CHR '']'', CHR ''}'', CHR '','']
    \<and> c \<notin> set [CHR 0x22, CHR ''['', CHR ''{'', CHR ''n'', CHR ''t'', CHR ''f'', CHR ''-'']"
  by (auto simp: is_digit_def code_def)

lemma str_nat_hd_digit: "is_digit (hd (str_nat n))"
  using str_nat_is_digit [of n] by (metis hd_in_set list_all_iff str_nat_not_Nil)

lemma starts_value_str_int: "starts_value (str_int i)"
  using digit_starts [OF str_nat_hd_digit [of "nat i"]]
  by (auto simp: starts_value_def str_int_def)

lemma starts_value_dumps: "starts_value (json_dumps j)"
  by (cases j) (simp_all add: starts_value_str_int, simp_all add: starts_value_def dump_str_def)

lemma skip_ws_starts [simp]: "starts_value s \<Longrightarrow> skip_ws (s @ r) = s @ r"
  by (cases s) (auto simp: starts_value_def skip_ws_def)

lemma expect_char_starts: "starts_value s \<Longrightarrow> c \<in> set [CHR '']'', CHR ''}'', CHR '',''] \<Longrightarrow> expect_char c (s @ r) = None"
  by (cases s) (auto simp: starts_value_def)

lemma parse_nat_str_nat:
  assumes "r = [] \<or> \<not> is_digit (hd r)"
  shows "parse_nat (str_nat n @ r) = Some (n, r)"
proof (cases "hd (str_nat n) = CHR ''0''")
  case True
  then have n: "n = 0" by (rule str_nat_hd_zero)
  have "str_nat 0 = ''0''" by code_simp
  then show ?thesis using n by (simp add: parse_nat_def)
next
  case False
  obtain c cs where c: "str_nat n = c # cs" by (cases "str_nat n") simp_all
  have "takeWhile is_digit (str_nat n @ r) = str_nat n \<and> dropWhile is_digit (str_nat n @ r) = r"
    using assms str_nat_is_digit [of n]
    by (cases r) (auto simp: list_all_iff takeWhile_append2 dropWhile_append2)
  moreover have "is_digit c" using str_nat_hd_digit [of n] c by simp
  ultimately show ?thesis using False c dec_value_str_nat [of n] by (simp add: parse_nat_def)
qed

lemma parse_int_str_int:
  assumes "r = [] \<or> \<not> is_digit (hd r)"
  shows "parse_int (str_int i @ r) = Some (i, r)"
proof (cases "i < 0")
  case True
  then show ?thesis using parse_nat_str_nat [OF assms] by (simp add: parse_int_def str_int_def)
next
  case False
  obtain c cs where c: "str_nat (nat i) = c # cs" by (cases "str_nat (nat i)") simp_all
  then have "c \<noteq> CHR ''-''" using digit_starts [OF str_nat_hd_digit [of "nat i"]] by auto
  with False c parse_nat_str_nat [OF assms, of "nat i"] show ?thesis
    by (simp add: parse_int_def str_int_def)
qed

lemma parse_value_str_int:
  assumes "r = [] \<or> \<not> is_digit (hd r)"
  shows "parse_value (Suc n) (str_int i @ r) = Some (JInt i, r)"
proof -
  obtain c cs where c: "str_int i = c # cs" by (cases "str_int i") simp_all
  have "c = CHR ''-'' \<or> is_digit c"
    using c str_nat_hd_digit [of "nat i"] by (auto simp: str_int_def split: if_splits)
  then have ne: "c \<noteq> CHR 0x22" "c \<noteq> CHR ''[''" "c \<noteq> CHR ''{''" "c \<noteq> CHR ''n''" "c \<noteq> CHR ''t''"
      "c \<noteq> CHR ''f''"
    using digit_starts [of c] by (elim disjE; simp)+
  then have "\<not> starts_with ''null'' (c # cs @ r)" "\<not> starts_with ''true'' (c # cs @ r)"
      "\<not> starts_with ''false'' (c # cs @ r)"
    by (auto simp: starts_with_iff)
  moreover have "parse_int (c # cs @ r) = Some (i, r)"
    using parse_int_str_int [OF assms, of i] unfolding c by simp
  ultimately show ?thesis
    unfolding c append_Cons parse_value.simps list.case using ne by (simp only: if_False) simp
qed

fun json_ok :: "json \<Rightarrow> bool" where
  "json_ok (JArr xs) = (\<forall>x \<in> set xs. json_ok x)"
| "json_ok (JObj ms) = (distinct (map fst ms) \<and> (\<forall>m \<in> set ms. json_ok (snd m)))"
| "json_ok _ = True"

lemma update_absent: "k \<notin> fst ` set al \<Longrightarrow> AList.update k v al = al @ [(k, v)]"
  by (induction al) auto

lemma fold_update_distinct:
  "distinct (map fst (al @ ms)) \<Longrightarrow> fold (\<lambda>(k, v). AList.update k v) ms al = al @ ms"
proof (induction ms arbitrary: al)
  case (Cons m ms)
  obtain k v where m: "m = (k, v)" by fastforce
  from Cons.prems have "k \<notin> fst ` set al" by (simp add: m)
  then have "fold (\<lambda>(k, v). AList.update k v) (m # ms) al
      = fold (\<lambda>(k, v). AList.update k v) ms (al @ [(k, v)])"
    by (simp add: m update_absent)
  also have "\<dots> = (al @ [(k, v)]) @ ms"
    using Cons.prems by (intro Cons.IH) (simp add: m)
  finally show ?case by (simp add: m)
qed simp

lemma dump_str_starts: "starts_value (dump_str k)"
  by (simp add: starts_value_def dump_str_def)

lemma starts_value_append: "starts_value s \<Longrightarrow> starts_value (s @ r)"
  by (auto simp: starts_value_def)

lemma starts_value_elems: "xs \<noteq> [] \<Longrightarrow> starts_value (dump_elems xs)"
  by (cases xs) (simp_all add: starts_value_append starts_value_dumps)

lemma starts_value_members: "ms \<noteq> [] \<Longrightarrow> starts_value (dump_members ms)"
  by (cases ms rule: dump_members.cases) (simp_all add: starts_value_append dump_str_starts)

lemma parse_value_dumps:
  "json_ok j \<Longrightarrow> length (json_dumps j) < n \<Longrightarrow> r = [] \<or> \<not> is_digit (hd r)
    \<Longrightarrow> parse_value n (json_dumps j @ r) = Some (j, r)"
  "list_all json_ok xs \<Longrightarrow> xs \<noteq> [] \<Longrightarrow> Suc (length (dump_elems xs)) < n
    \<Longrightarrow> parse_elems n (dump_elems xs @ CHR '']'' # r) = Some (xs, r)"
  "list_all (json_ok \<circ> snd) ms \<Longrightarrow> ms \<noteq> [] \<Longrightarrow> Suc (length (dump_members ms)) < n
    \<Longrightarrow> parse_members n (dump_members ms @ CHR ''}'' # r) = Some (ms, r)"
proof (induction j and xs and ms arbitrary: n r and n r and n r
    rule: json_dumps_dump_elems_dump_members.induct)
  case 1
  then show ?case by (cases n) (simp_all add: starts_with_def)
next
  case (2 b)
  then show ?case by (cases n) (simp_all add: starts_with_def)
next
  case (3 i)
  then show ?case by (cases n) (auto simp: parse_value_str_int simp del: parse_value.simps)
next
  case (4 s)
  then show ?case by (cases n) (simp_all add: dump_str_def)
next
  case (5 xs)
  obtain m where n: "n = Suc m" using "5.prems"(2) by (cases n) simp_all
  show ?case
  proof (cases "xs = []")
    case False
    with "5.prems" n have "parse_elems m (dump_elems xs @ CHR '']'' # r) = Some (xs, r)"
      by (intro "5.IH") (auto simp: list_all_iff)
    with False n starts_value_elems [OF False] show ?thesis
      by (simp add: expect_char_starts)
  qed (simp add: n)
next
  case (6 ms)
  obtain m where n: "n = Suc m" using "6.prems"(2) by (cases n) simp_all
  show ?case
  proof (cases "ms = []")
    case False
    with "6.prems" n have "parse_members m (dump_members ms @ CHR ''}'' # r) = Some (ms, r)"
      by (intro "6.IH") (auto simp: list_all_iff)
    with False n starts_value_members [OF False] "6.prems"(1) fold_update_distinct [of "[]" ms]
    show ?thesis by (simp add: expect_char_starts)
  qed (simp add: n)
next
  case (8 x xs)
  obtain m where n: "n = Suc m" using "8.prems"(3) by (cases n) simp_all
  let ?r = "(if xs = [] then [] else '', '' @ dump_elems xs) @ CHR '']'' # r"
  have x: "parse_value m (json_dumps x @ ?r) = Some (x, ?r)"
    using "8.prems" n by (intro "8.IH"(1)) (auto simp: is_digit_def code_def)
  show ?case
  proof (cases "xs = []")
    case True
    with x n show ?thesis by simp
  next
    case False
    with "8.prems" n have "parse_elems m (dump_elems xs @ CHR '']'' # r) = Some (xs, r)"
      by (intro "8.IH"(2)) auto
    with False x n starts_value_elems [OF False] show ?thesis by simp
  qed
next
  case (10 k v ms)
  obtain m where n: "n = Suc m" using "10.prems"(3) by (cases n) simp_all
  let ?r = "(if ms = [] then [] else '', '' @ dump_members ms) @ CHR ''}'' # r"
  have v: "parse_value m (json_dumps v @ ?r) = Some (v, ?r)"
    using "10.prems" n by (intro "10.IH"(1)) (auto simp: is_digit_def code_def)
  show ?case
  proof (cases "ms = []")
    case True
    with v n starts_value_dumps [of v] show ?thesis by (simp add: dump_str_def)
  next
    case False
    with "10.prems" n have "parse_members m (dump_members ms @ CHR ''}'' # r) = Some (ms, r)"
      by (intro "10.IH"(2)) auto
    with False v n starts_value_dumps [of v] starts_value_members [OF False] show ?thesis
      by (simp add: dump_str_def)
  qed
qed simp_all

theorem json_loads_dumps [simp]: "json_ok j \<Longrightarrow> json_loads (json_dumps j) = Some j"
proof -
  assume "json_ok j"
  then have "parse_value (Suc (length (json_dumps j))) (json_dumps j @ []) = Some (j, [])"
    by (intro parse_value_dumps) simp_all
  moreover have "skip_ws (json_dumps j) = json_dumps j"
    using skip_ws_starts [OF starts_value_dumps, of j "[]"] by simp
  ultimately show ?thesis by (simp add: json_loads_def skip_ws_def del: parse_value.simps)
qed

lemma utf8_decode_two: "128 \<le> n \<Longrightarrow> n < 256 \<Longrightarrow>
    utf8_decode ((192 + n div 64) # (128 + n mod 64) # bs) = map_option (\<lambda>s. char_of n # s) (utf8_decode bs)"
proof -
  assume "128 \<le> n" "n < 256"
  then have "2 \<le> n div 64" "n div 64 < 4"
    using div_le_mono [of 128 n 64] by (simp_all add: less_mult_imp_div_less)
  then have "192 + n div 64 = 194 \<or> 192 + n div 64 = 195" by linarith
  moreover have "n div 64 * 64 + n mod 64 = n" by (rule div_mult_mod_eq)
  ultimately show ?thesis by auto
qed

lemma utf8_round [simp]: "utf8_decode (utf8_encode s) = Some s"
proof (induction s)
  case (Cons c s)
  have "utf8_encode (c # s) = (if code c < 128 then [code c]
      else [192 + code c div 64, 128 + code c mod 64]) @ utf8_encode s"
    by (simp add: utf8_encode_def)
  then show ?case
    using Cons utf8_decode_two [of "code c" "utf8_encode s"] by (cases "code c < 128") simp_all
qed (simp add: utf8_encode_def)

end
