(* ===== verification/Exceptions.thy ===== *)
theory Exceptions
  imports Py_Uuid Py_Datetime Py_Json
begin

text \<open>
  Every exception the program raises or catches (\<open>src/domain/exceptions.py\<close> and the classes of
  the standard library and of the clients), as one datatype; \<open>except\<close> clauses test the class
  predicates \<open>is_\<dots>\<close>. An exception class whose \<open>__init__\<close> validates its arguments has a function
  \<open>new_\<dots>\<close>: \<open>raise C(args)\<close> raises \<open>new_C args\<close>, which is the \<open>ValueError\<close> of the failed
  validation when there is one. \<open>exn_str\<close> is \<open>str(e)\<close>; the texts the interpreter itself generates
  (\<open>int\<close>, \<open>UUID\<close>, \<open>json\<close>, \<open>fromisoformat\<close>, \<open>decode\<close>) are cut down to the name of the failing function.
\<close>

datatype exn =
    ValueError string
  | TypeError string
  | KeyError string
  | AttributeError string
  | UnicodeDecodeError
  | JSONDecodeError
  | OverflowError
  | DomainException string
  | AuthenticationError string
  | TokenExpiredError string
  | InvalidTokenError string
  | SessionNotFoundError string \<comment> \<open>\<open>UploadSessionNotFoundError\<close>, by its alias\<close>
  | InfrastructureError string
  | SerializationError string
  | ChecksumMismatchError string string "int option" int
  | OffsetMismatchError int int uuid
  | InvalidSessionStateError uuid string string
  | RateLimitExceededError string int int int
  | DuplicateFileError string uuid string datetime
  | FileSizeLimitExceededError int int
  | UnsupportedMediaTypeError string "string list"
  | WorkspaceMismatchError uuid string uuid uuid
  | IntegrityError string "string option" "string option" uuid
  | RedisError string
  | ClientError string string \<comment> \<open>botocore: error code and message\<close>
  | BotoCoreError string
  | NatsNotFoundError string
  | HttpxTimeout string
  | HTTPStatusError int string
  | JwtExpiredSignatureError string
  | JwtInvalidTokenError string
  | HTTPException int json "(string \<times> string) list" \<comment> \<open>fastapi: status, detail, headers\<close>
  | OtherException string \<comment> \<open>any other subclass of \<open>Exception\<close>\<close>
  | AsyncTimeoutError
  | CancelledError \<comment> \<open>not a subclass of \<open>Exception\<close>\<close>

type_synonym ('w, 'a) io = "(exn, 'w, 'a) mon"

section \<open>Classes\<close>

fun is_Exception :: "exn \<Rightarrow> bool" where
  "is_Exception CancelledError = False"
| "is_Exception _ = True"

fun is_ValueError :: "exn \<Rightarrow> bool" where
  "is_ValueError (ValueError _) = True"
| "is_ValueError UnicodeDecodeError = True"
| "is_ValueError JSONDecodeError = True"
| "is_ValueError _ = False"

fun is_TypeError :: "exn \<Rightarrow> bool" where
  "is_TypeError (TypeError _) = True"
| "is_TypeError _ = False"

fun is_KeyError :: "exn \<Rightarrow> bool" where
  "is_KeyError (KeyError _) = True"
| "is_KeyError _ = False"

fun is_RedisError :: "exn \<Rightarrow> bool" where
  "is_RedisError (RedisError _) = True"
| "is_RedisError _ = False"

fun is_InfrastructureError :: "exn \<Rightarrow> bool" where
  "is_InfrastructureError (InfrastructureError _) = True"
| "is_InfrastructureError (SerializationError _) = True"
| "is_InfrastructureError _ = False"

fun is_SessionNotFoundError :: "exn \<Rightarrow> bool" where
  "is_SessionNotFoundError (SessionNotFoundError _) = True"
| "is_SessionNotFoundError _ = False"

fun is_RateLimitExceededError :: "exn \<Rightarrow> bool" where
  "is_RateLimitExceededError (RateLimitExceededError _ _ _ _) = True"
| "is_RateLimitExceededError _ = False"

fun is_AuthenticationError :: "exn \<Rightarrow> bool" where
  "is_AuthenticationError (AuthenticationError _) = True"
| "is_AuthenticationError (TokenExpiredError _) = True"
| "is_AuthenticationError (InvalidTokenError _) = True"
| "is_AuthenticationError _ = False"

section \<open>Constructors that validate\<close>

definition new_ChecksumMismatchError :: "string \<Rightarrow> string \<Rightarrow> int option \<Rightarrow> int \<Rightarrow> exn" where
  "new_ChecksumMismatchError expected computed chunk_index chunk_size =
     (if expected = [] then ValueError ''expected_checksum cannot be empty''
      else if computed = [] then ValueError ''computed_checksum cannot be empty''
      else if (case chunk_index of None \<Rightarrow> False | Some i \<Rightarrow> i < 0)
        then ValueError ''chunk_index cannot be negative''
      else if chunk_size < 0 then ValueError ''chunk_size cannot be negative''
      else ChecksumMismatchError expected computed chunk_index chunk_size)"

definition new_OffsetMismatchError :: "int \<Rightarrow> int \<Rightarrow> uuid \<Rightarrow> exn" where
  "new_OffsetMismatchError expected received sid =
     (if expected < 0 then ValueError ''expected_offset cannot be negative''
      else if received < 0 then ValueError ''received_offset cannot be negative''
      else OffsetMismatchError expected received sid)"

definition new_RateLimitExceededError :: "string \<Rightarrow> int \<Rightarrow> int \<Rightarrow> int \<Rightarrow> exn" where
  "new_RateLimitExceededError ws current limit retry_after =
     (if current < 0 then ValueError ''current_count cannot be negative''
      else if limit \<le> 0 then ValueError ''limit must be positive''
      else if retry_after \<le> 0 then ValueError ''retry_after_seconds must be positive''
      else RateLimitExceededError ws current limit retry_after)"

definition new_DuplicateFileError :: "string \<Rightarrow> uuid \<Rightarrow> string \<Rightarrow> datetime \<Rightarrow> exn" where
  "new_DuplicateFileError sha existing_file_id existing_s3_path uploaded_at =
     (if existing_s3_path = [] then ValueError ''existing_s3_path cannot be empty''
      else if \<not> is_aware uploaded_at then ValueError ''uploaded_at must be timezone-aware''
      else DuplicateFileError sha existing_file_id existing_s3_path uploaded_at)"

definition new_WorkspaceMismatchError :: "uuid \<Rightarrow> string \<Rightarrow> uuid \<Rightarrow> uuid \<Rightarrow> exn" where
  "new_WorkspaceMismatchError resource_id resource_type expected_ws actual_ws =
     (if resource_type = [] then ValueError ''resource_type must not be empty''
      else WorkspaceMismatchError resource_id resource_type expected_ws actual_ws)"

section \<open>Messages\<close>

fun join_str :: "string \<Rightarrow> string list \<Rightarrow> string" where
  "join_str sep [] = []"
| "join_str sep [s] = s"
| "join_str sep (s # t # ss) = s @ sep @ join_str sep (t # ss)"

fun exn_str :: "exn \<Rightarrow> string" where
  "exn_str (ValueError m) = m"
| "exn_str (TypeError m) = m"
| "exn_str (KeyError k) = [CHR 0x27] @ k @ [CHR 0x27]"
| "exn_str (AttributeError m) = m"
| "exn_str UnicodeDecodeError = ''decode''"
| "exn_str JSONDecodeError = ''json''"
| "exn_str OverflowError = ''date value out of range''"
| "exn_str (DomainException m) = m"
| "exn_str (AuthenticationError m) = m"
| "exn_str (TokenExpiredError m) = m"
| "exn_str (InvalidTokenError m) = m"
| "exn_str (SessionNotFoundError m) = m"
| "exn_str (InfrastructureError m) = m"
| "exn_str (SerializationError m) = m"
| "exn_str (ChecksumMismatchError e c i n) =
     ''Chunk checksum verification failed: expected '' @ e @ '', got '' @ c
     @ (case i of None \<Rightarrow> [] | Some k \<Rightarrow> '' (chunk '' @ str_int k @ '')'')
     @ (if n > 0 then '' ('' @ str_int n @ '' bytes)'' else [])"
| "exn_str (OffsetMismatchError e r sid) =
     ''Upload offset mismatch: expected '' @ str_int e @ '', received '' @ str_int r
     @ '' (session '' @ uuid_str sid @ '')''"
| "exn_str (InvalidSessionStateError sid st op) =
     ''Cannot '' @ op @ '' for session '' @ uuid_str sid @ '' in '' @ st @ '' state''"
| "exn_str (RateLimitExceededError ws n lim r) =
     ''Workspace '' @ ws @ '' has '' @ str_int n @ '' active uploads (limit: '' @ str_int lim
     @ ''). Retry after '' @ str_int r @ '' seconds.''"
| "exn_str (DuplicateFileError sha fid p at) =
     ''File with SHA-256 '' @ sha @ '' already exists in workspace (file_id: '' @ uuid_str fid
     @ '', uploaded: '' @ isoformat at @ '')''"
| "exn_str (FileSizeLimitExceededError n mx) =
     ''File size '' @ str_int n @ '' bytes exceeds maximum allowed size of '' @ str_int mx @ '' bytes''"
| "exn_str (UnsupportedMediaTypeError m allowed) =
     ''MIME type '' @ [CHR 0x27] @ m @ [CHR 0x27] @ '' is not supported. Allowed types: ''
     @ join_str '', '' allowed"
| "exn_str (WorkspaceMismatchError r t e a) =
     ''Resource '' @ t @ '' '' @ uuid_str r @ '' belongs to different workspace than active workspace''"
| "exn_str (IntegrityError m e c f) = m"
| "exn_str (RedisError m) = m"
| "exn_str (ClientError c m) = m"
| "exn_str (BotoCoreError m) = m"
| "exn_str (NatsNotFoundError m) = m"
| "exn_str (HttpxTimeout m) = m"
| "exn_str (HTTPStatusError c m) = m"
| "exn_str (JwtExpiredSignatureError m) = m"
| "exn_str (JwtInvalidTokenError m) = m"
| "exn_str (HTTPException c d h) = str_int c @ '': '' @ json_dumps d"
| "exn_str (OtherException m) = m"
| "exn_str AsyncTimeoutError = []"
| "exn_str CancelledError = []"

section \<open>Python helpers that raise\<close>

text \<open>\<open>d[k]\<close> on a value decoded from JSON, \<open>UUID(s)\<close>, \<open>int(s)\<close>, \<open>fromisoformat(s)\<close>, \<open>json.loads\<close>,
  \<open>x.decode()\<close>.\<close>

definition json_item :: "json \<Rightarrow> string \<Rightarrow> exn + json" where
  "json_item j k = (case j of
     JObj ms \<Rightarrow> (case map_of ms k of Some v \<Rightarrow> Inr v | None \<Rightarrow> Inl (KeyError k))
   | _ \<Rightarrow> Inl (TypeError ''indices''))"

fun json_type_name :: "json \<Rightarrow> string" where
  "json_type_name JNull = ''NoneType''"
| "json_type_name (JBool _) = ''bool''"
| "json_type_name (JInt _) = ''int''"
| "json_type_name (JStr _) = ''str''"
| "json_type_name (JArr _) = ''list''"
| "json_type_name (JObj _) = ''dict''"

definition opt_raise :: "exn \<Rightarrow> 'a option \<Rightarrow> exn + 'a" where
  "opt_raise e v = (case v of None \<Rightarrow> Inl e | Some x \<Rightarrow> Inr x)"

definition to_UUID :: "string \<Rightarrow> exn + uuid" where
  "to_UUID s = opt_raise (ValueError ''UUID'') (uuid_of_str s)"

definition to_int :: "string \<Rightarrow> exn + int" where
  "to_int s = opt_raise (ValueError ''int'') (py_int 10 s)"

definition to_datetime :: "string \<Rightarrow> exn + datetime" where
  "to_datetime s = opt_raise (ValueError ''fromisoformat'') (fromisoformat s)"

definition to_json :: "string \<Rightarrow> exn + json" where
  "to_json s = opt_raise JSONDecodeError (json_loads s)"

lemma opt_raise_simps [simp]:
  "opt_raise e (Some x) = Inr x"
  "opt_raise e None = Inl e"
  by (simp_all add: opt_raise_def)

lemma to_UUID_str [simp]: "to_UUID (uuid_str u) = Inr u"
  by (simp add: to_UUID_def)

lemma to_int_str [simp]: "to_int (str_int i) = Inr i"
  by (simp add: to_int_def)

lemma to_datetime_isoformat [simp]: "valid_datetime d \<Longrightarrow> to_datetime (isoformat d) = Inr d"
  by (simp add: to_datetime_def fromisoformat_isoformat)

lemma to_json_dumps [simp]: "json_ok j \<Longrightarrow> to_json (json_dumps j) = Inr j"
  by (simp add: to_json_def)

end
