(* ===== verification/Sha256.thy ===== *)
theory Sha256
  imports Py_String "HOL-Library.Word"
begin

text \<open>
  The parts of \<open>hashlib\<close> and \<open>hmac\<close> the program uses: SHA-256 (FIPS 180-4) on 32-bit words with
  wrap-around addition, its lowercase \<open>hexdigest\<close>, and HMAC-SHA256 (RFC 2104). The streaming
  interface (\<open>update\<close> several times, then \<open>hexdigest\<close>) is the digest of the concatenation. What the
  program relies on is \<open>sha256_hex_length\<close> and \<open>sha256_hex_lower\<close>: the digest is always a
  well-formed value of \<open>SHA256Hash\<close>.
\<close>

unbundle bit_operations_syntax

text \<open>The first 32 bits of the fractional parts of the cube roots of the first 64 primes, and of the
  square roots of the first eight.\<close>

definition K256 :: "32 word list" where
  "K256 = [
   1116352408, 1899447441, 3049323471, 3921009573, 961987163, 1508970993, 2453635748, 2870763221,
   3624381080, 310598401, 607225278, 1426881987, 1925078388, 2162078206, 2614888103, 3248222580,
   3835390401, 4022224774, 264347078, 604807628, 770255983, 1249150122, 1555081692, 1996064986,
   2554220882, 2821834349, 2952996808, 3210313671, 3336571891, 3584528711, 113926993, 338241895,
   666307205, 773529912, 1294757372, 1396182291, 1695183700, 1986661051, 2177026350, 2456956037,
   2730485921, 2820302411, 3259730800, 3345764771, 3516065817, 3600352804, 4094571909, 275423344,
   430227734, 506948616, 659060556, 883997877, 958139571, 1322822218, 1537002063, 1747873779,
   1955562222, 2024104815, 2227730452, 2361852424, 2428436474, 2756734187, 3204031479, 3329325298]"

definition H256 :: "32 word list" where
  "H256 = [
   1779033703, 3144134277, 1013904242, 2773480762, 1359893119, 2600822924, 528734635, 1541459225]"

text \<open>The low \<open>k\<close> bytes of a number, most significant first.\<close>

fun be_bytes :: "nat \<Rightarrow> nat \<Rightarrow> bytes" where
  "be_bytes 0 n = []"
| "be_bytes (Suc k) n = be_bytes k (n div 256) @ [n mod 256]"

fun be_words :: "bytes \<Rightarrow> 32 word list" where
  "be_words (a # b # c # d # r) = word_of_nat (((a * 256 + b) * 256 + c) * 256 + d) # be_words r"
| "be_words _ = []"

definition pad256 :: "bytes \<Rightarrow> bytes" where
  "pad256 m = m @ 128 # replicate ((119 - length m mod 64) mod 64) 0 @ be_bytes 8 (8 * length m)"

text \<open>The message schedule, newest word first.\<close>

fun schedule :: "nat \<Rightarrow> 32 word list \<Rightarrow> 32 word list" where
  "schedule 0 ws = ws"
| "schedule (Suc n) ws =
     (let x = ws ! 14; y = ws ! 1;
          s0 = word_rotr 7 x XOR word_rotr 18 x XOR drop_bit 3 x;
          s1 = word_rotr 17 y XOR word_rotr 19 y XOR drop_bit 10 y
      in schedule n ((ws ! 15 + s0 + ws ! 6 + s1) # ws))"

definition round256 :: "32 word list \<Rightarrow> 32 word \<times> 32 word \<Rightarrow> 32 word list" where
  "round256 st kw =
     (case st of
        [a, b, c, d, e, f, g, h] \<Rightarrow>
          (let t1 = h + (word_rotr 6 e XOR word_rotr 11 e XOR word_rotr 25 e)
                      + ((e AND f) XOR (NOT e AND g)) + fst kw + snd kw;
               t2 = (word_rotr 2 a XOR word_rotr 13 a XOR word_rotr 22 a)
                      + ((a AND b) XOR (a AND c) XOR (b AND c))
           in [t1 + t2, a, b, c, d + t1, e, f, g])
      | _ \<Rightarrow> st)"

definition compress256 :: "32 word list \<Rightarrow> bytes \<Rightarrow> 32 word list" where
  "compress256 st block =
     (let w = rev (schedule 48 (rev (be_words block)))
      in map (\<lambda>(x, y). x + y) (zip st (foldl round256 st (zip K256 w))))"

fun blocks256 :: "nat \<Rightarrow> 32 word list \<Rightarrow> bytes \<Rightarrow> 32 word list" where
  "blocks256 0 st m = st"
| "blocks256 (Suc n) st m = blocks256 n (compress256 st (take 64 m)) (drop 64 m)"

definition sha256_words :: "bytes \<Rightarrow> 32 word list" where
  "sha256_words m = (let p = pad256 m in blocks256 (length p div 64) H256 p)"

definition sha256_digest :: "bytes \<Rightarrow> bytes" where
  "sha256_digest m = concat (map (\<lambda>w. be_bytes 4 (unat w)) (sha256_words m))"

definition byte_hex :: "nat \<Rightarrow> string" where
  "byte_hex b = [digit_char (b div 16 mod 16), digit_char (b mod 16)]"

definition hex_of_bytes :: "bytes \<Rightarrow> string" where
  "hex_of_bytes bs = concat (map byte_hex bs)"

definition sha256_hex :: "bytes \<Rightarrow> string" where
  "sha256_hex m = hex_of_bytes (sha256_digest m)"

definition hmac_sha256 :: "bytes \<Rightarrow> bytes \<Rightarrow> bytes" where
  "hmac_sha256 key m =
     (let k0 = (if length key > 64 then sha256_digest key else key);
          k = k0 @ replicate (64 - length k0) 0;
          x = (\<lambda>c. map (\<lambda>b. unat ((word_of_nat b :: 8 word) XOR c)) k)
      in sha256_digest (x 0x5c @ sha256_digest (x 0x36 @ m)))"

section \<open>The digest is well formed\<close>

lemma length_be_bytes [simp]: "length (be_bytes k n) = k"
  by (induction k arbitrary: n) simp_all

lemma length_round256 [simp]: "length (round256 st kw) = length st"
  by (simp add: round256_def Let_def split: list.splits)

lemma length_foldl_round256 [simp]: "length (foldl round256 st kws) = length st"
  by (induction kws arbitrary: st) simp_all

lemma length_compress256 [simp]: "length (compress256 st b) = length st"
  by (simp add: compress256_def Let_def)

lemma length_blocks256 [simp]: "length (blocks256 n st m) = length st"
  by (induction n arbitrary: st m) simp_all

lemma length_sha256_words [simp]: "length (sha256_words m) = 8"
  by (simp add: sha256_words_def Let_def H256_def)

lemma length_concat_const: "(\<And>x. length (f x) = k) \<Longrightarrow> length (concat (map f xs)) = k * length xs"
  by (induction xs) simp_all

lemma length_sha256_digest [simp]: "length (sha256_digest m) = 32"
  by (simp add: sha256_digest_def length_concat_const [of _ 4])

lemma sha256_hex_length [simp]: "length (sha256_hex m) = 64"
  by (simp add: sha256_hex_def hex_of_bytes_def length_concat_const [of _ 2] byte_hex_def)

lemma hex_of_bytes_lower [simp]: "list_all is_hex_lower (hex_of_bytes bs)"
  by (induction bs) (simp_all add: hex_of_bytes_def byte_hex_def is_hex_lower_digit)

lemma sha256_hex_lower [simp]: "list_all is_hex_lower (sha256_hex m)"
  by (simp add: sha256_hex_def)

lemma sha256_hex_not_Nil [simp]: "sha256_hex m \<noteq> []"
  using sha256_hex_length [of m] by (metis list.size(3) zero_neq_numeral)

end
