(* ===== verification/Value_Objects.thy ===== *)
theory Value_Objects
  imports Exceptions Sha256
begin

text \<open>
  \<open>src/domain/value_objects\<close>: the SHA-256 hash, the session status, the workspace role and the
  claims of a token. A frozen dataclass is a datatype or record; its \<open>__post_init__\<close> is a function
  \<open>mk_\<dots>\<close> that returns the value or the exception. Checks of the static types of the fields
  (\<open>isinstance(x, UUID)\<close>) hold by typing. \<open>mk_SHA256Hash_iff\<close> characterises exactly the accepted
  hashes, and \<open>SHA256Hash_from_bytes_total\<close> says that hashing data never raises.
\<close>

section \<open>SHA256Hash\<close>

datatype SHA256Hash = SHA256Hash (hash_value: string)

definition hex_lower_chars :: string where
  "hex_lower_chars = ''0123456789abcdef''"

definition mk_SHA256Hash :: "string \<Rightarrow> exn + SHA256Hash" where
  "mk_SHA256Hash v =
     (if length v \<noteq> 64
      then Inl (ValueError (''SHA-256 hash must be 64 chars, got '' @ str_int (int (length v))))
      else if \<not> list_all (\<lambda>c. c \<in> set hex_lower_chars) v
      then Inl (ValueError ''SHA-256 hash must be lowercase hex'')
      else Inr (SHA256Hash v))"

definition SHA256Hash_from_bytes :: "bytes \<Rightarrow> exn + SHA256Hash" where
  "SHA256Hash_from_bytes data = mk_SHA256Hash (sha256_hex data)"

definition SHA256Hash_str :: "SHA256Hash \<Rightarrow> string" where
  "SHA256Hash_str h = hash_value h"

definition SHA256Hash_eq :: "SHA256Hash \<Rightarrow> SHA256Hash \<Rightarrow> bool" where
  "SHA256Hash_eq a b = (hash_value a = hash_value b)"

lemma hex_lower_chars [simp]: "c \<in> set hex_lower_chars \<longleftrightarrow> is_hex_lower c"
  by (simp add: hex_lower_chars_def is_hex_lower_def)

definition valid_hash :: "SHA256Hash \<Rightarrow> bool" where
  "valid_hash h = (length (hash_value h) = 64 \<and> list_all is_hex_lower (hash_value h))"

lemma mk_SHA256Hash_iff:
  "mk_SHA256Hash v = Inr h \<longleftrightarrow> h = SHA256Hash v \<and> length v = 64 \<and> list_all is_hex_lower v"
  by (auto simp: mk_SHA256Hash_def)

lemma mk_SHA256Hash_valid [simp]: "valid_hash h \<Longrightarrow> mk_SHA256Hash (hash_value h) = Inr h"
  by (simp add: mk_SHA256Hash_iff valid_hash_def)

lemma mk_SHA256Hash_error: "mk_SHA256Hash v = Inl e \<Longrightarrow> is_ValueError e"
  by (auto simp: mk_SHA256Hash_def split: if_splits)

lemma SHA256Hash_from_bytes_total [simp]: "SHA256Hash_from_bytes data = Inr (SHA256Hash (sha256_hex data))"
  by (simp add: SHA256Hash_from_bytes_def mk_SHA256Hash_iff)

lemma SHA256Hash_eq_iff [simp]: "SHA256Hash_eq a b \<longleftrightarrow> a = b"
  by (cases a; cases b) (simp add: SHA256Hash_eq_def)

section \<open>SessionStatus\<close>

datatype SessionStatus = PENDING | IN_PROGRESS | COMPLETE | FAILED | ABORTED

fun status_value :: "SessionStatus \<Rightarrow> string" where
  "status_value PENDING = ''pending''"
| "status_value IN_PROGRESS = ''in_progress''"
| "status_value COMPLETE = ''complete''"
| "status_value FAILED = ''failed''"
| "status_value ABORTED = ''aborted''"

text \<open>The members in the order of the class.\<close>

lemma UNIV_SessionStatus: "UNIV = {PENDING, IN_PROGRESS, COMPLETE, FAILED, ABORTED}"
  using SessionStatus.exhaust by auto

instantiation SessionStatus :: enum
begin

definition enum_SessionStatus :: "SessionStatus list" where
  "enum_SessionStatus = [PENDING, IN_PROGRESS, COMPLETE, FAILED, ABORTED]"

definition enum_all_SessionStatus :: "(SessionStatus \<Rightarrow> bool) \<Rightarrow> bool" where
  "enum_all_SessionStatus P = list_all P [PENDING, IN_PROGRESS, COMPLETE, FAILED, ABORTED]"

definition enum_ex_SessionStatus :: "(SessionStatus \<Rightarrow> bool) \<Rightarrow> bool" where
  "enum_ex_SessionStatus P = list_ex P [PENDING, IN_PROGRESS, COMPLETE, FAILED, ABORTED]"

instance
  by standard
    (simp_all only: enum_SessionStatus_def enum_all_SessionStatus_def enum_ex_SessionStatus_def UNIV_SessionStatus, simp_all)

end

definition to_SessionStatus :: "string \<Rightarrow> exn + SessionStatus" where
  "to_SessionStatus s =
     opt_raise (ValueError ''SessionStatus'') (find (\<lambda>st. status_value st = s) Enum.enum)"

lemma to_SessionStatus_value [simp]: "to_SessionStatus (status_value st) = Inr st"
  by (cases st) (simp_all add: to_SessionStatus_def enum_SessionStatus_def)

definition is_terminal :: "SessionStatus \<Rightarrow> bool" where
  "is_terminal st = (st = COMPLETE \<or> st = FAILED \<or> st = ABORTED)"

section \<open>WorkspaceRole and JWTClaims\<close>

datatype WorkspaceRole = OWNER | COLLABORATOR

fun role_value :: "WorkspaceRole \<Rightarrow> string" where
  "role_value OWNER = ''owner''"
| "role_value COLLABORATOR = ''collaborator''"

lemma UNIV_WorkspaceRole: "UNIV = {OWNER, COLLABORATOR}"
  using WorkspaceRole.exhaust by auto

instantiation WorkspaceRole :: enum
begin

definition enum_WorkspaceRole :: "WorkspaceRole list" where
  "enum_WorkspaceRole = [OWNER, COLLABORATOR]"

definition enum_all_WorkspaceRole :: "(WorkspaceRole \<Rightarrow> bool) \<Rightarrow> bool" where
  "enum_all_WorkspaceRole P = list_all P [OWNER, COLLABORATOR]"

definition enum_ex_WorkspaceRole :: "(WorkspaceRole \<Rightarrow> bool) \<Rightarrow> bool" where
  "enum_ex_WorkspaceRole P = list_ex P [OWNER, COLLABORATOR]"

instance
  by standard
    (simp_all only: enum_WorkspaceRole_def enum_all_WorkspaceRole_def enum_ex_WorkspaceRole_def UNIV_WorkspaceRole, simp_all)

end

definition to_WorkspaceRole :: "string \<Rightarrow> exn + WorkspaceRole" where
  "to_WorkspaceRole s = opt_raise (ValueError ''WorkspaceRole'')
     (find (\<lambda>r. role_value r = s) Enum.enum)"

lemma to_WorkspaceRole_value [simp]: "to_WorkspaceRole (role_value r) = Inr r"
  by (cases r) (simp_all add: to_WorkspaceRole_def enum_WorkspaceRole_def)

record JWTClaims =
  jwt_user_id :: uuid
  jwt_workspace_id :: uuid
  jwt_workspace_role :: WorkspaceRole
  jwt_shared_file_ids :: "uuid list option"
  jwt_exp :: json \<comment> \<open>annotated \<open>int\<close>, not checked\<close>

definition JWTClaims_post_init :: "JWTClaims \<Rightarrow> exn + JWTClaims" where
  "JWTClaims_post_init c =
     (if jwt_workspace_role c = OWNER \<and> jwt_shared_file_ids c \<noteq> None
      then Inl (ValueError ''OWNER role cannot have shared_file_ids'')
      else if jwt_workspace_role c = COLLABORATOR \<and> jwt_shared_file_ids c = None
      then Inl (ValueError ''COLLABORATOR role must have shared_file_ids'')
      else Inr c)"

text \<open>\<open>current_timestamp\<close> defaults to the clock, read in whole seconds since 1970.\<close>

definition JWTClaims_is_expired :: "int \<Rightarrow> int option \<Rightarrow> JWTClaims \<Rightarrow> exn + bool" where
  "JWTClaims_is_expired clock current c =
     (let t = (case current of None \<Rightarrow> clock | Some t \<Rightarrow> t) in
      case jwt_exp c of
        JInt e \<Rightarrow> Inr (t > e)
      | JBool b \<Rightarrow> Inr (t > (if b then 1 else 0))
      | _ \<Rightarrow> Inl (TypeError ''>''))"

definition has_access_to_file :: "JWTClaims \<Rightarrow> uuid \<Rightarrow> bool" where
  "has_access_to_file c fid =
     (if jwt_workspace_role c = OWNER then True
      else (case jwt_shared_file_ids c of None \<Rightarrow> False | Some ids \<Rightarrow> fid \<in> set ids))"

lemma JWTClaims_post_init_iff:
  "JWTClaims_post_init c = Inr c' \<longleftrightarrow>
     c' = c \<and> (jwt_workspace_role c = OWNER \<longleftrightarrow> jwt_shared_file_ids c = None)"
  by (cases "jwt_workspace_role c") (auto simp: JWTClaims_post_init_def)

end
