(* ===== verification/Upload_Session.thy ===== *)
theory Upload_Session
  imports Value_Objects
begin

text \<open>
  \<open>src/domain/entities/upload_session.py\<close> and \<open>workspace.py\<close>. The mutable dataclass is a record;
  \<open>UploadSession_post_init\<close> is its constructor check and each method returns the updated record or
  the exception. \<open>chunk_manifest\<close> is a list of JSON values, as the code does not fix the shape of
  its entries. \<open>session_ok\<close> is the class invariant: \<open>UploadSession_post_init_iff\<close> says that the
  constructor establishes exactly it, and every method keeps it (\<open>session_ok_method\<close>).
\<close>

definition MAX_FILE_SIZE_BYTES :: int where "MAX_FILE_SIZE_BYTES = 1073741824"

definition ALLOWED_MIME_TYPES :: "string list" where
  "ALLOWED_MIME_TYPES = [''application/pdf'']"

record UploadSession =
  session_id :: uuid
  workspace_id :: uuid
  filename :: string
  file_size :: int
  mime_type :: string
  sha256_checksum :: SHA256Hash
  offset :: int
  status :: SessionStatus
  created_at :: datetime
  expires_at :: datetime
  chunk_manifest :: "json list"

section \<open>Construction\<close>

definition check_filename :: "string \<Rightarrow> exn + unit" where
  "check_filename fn =
     andThen (check (fn \<noteq> [] \<and> strip fn \<noteq> []) (ValueError ''filename cannot be empty'')) (\<lambda>_.
     andThen (check (CHR ''/'' \<notin> set fn \<and> CHR 0x5C \<notin> set fn)
                (ValueError ''filename cannot contain path separators'')) (\<lambda>_.
     andThen (check (CHR 0x00 \<notin> set fn) (ValueError ''filename cannot contain null bytes'')) (\<lambda>_.
     check (length fn \<le> 255) (ValueError ''filename cannot exceed 255 characters''))))"

fun check_manifest :: "nat \<Rightarrow> json list \<Rightarrow> exn + unit" where
  "check_manifest i [] = Inr ()"
| "check_manifest i (JObj ms # cs) =
     (if map_of ms ''index'' = None \<or> map_of ms ''size'' = None \<or> map_of ms ''checksum'' = None
      then Inl (ValueError (''chunk_manifest['' @ str_int (int i) @ ''] must contain 'index', 'size', and 'checksum' keys''))
      else check_manifest (Suc i) cs)"
| "check_manifest i (_ # cs) = Inl (TypeError (''chunk_manifest['' @ str_int (int i) @ ''] must be a dict''))"

definition UploadSession_post_init :: "UploadSession \<Rightarrow> exn + UploadSession" where
  "UploadSession_post_init s =
     andThen (check_filename (filename s)) (\<lambda>_.
     andThen (check (file_size s > 0) (ValueError ''size must be > 0'')) (\<lambda>_.
     andThen (check (file_size s \<le> MAX_FILE_SIZE_BYTES)
                (FileSizeLimitExceededError (file_size s) MAX_FILE_SIZE_BYTES)) (\<lambda>_.
     andThen (check (mime_type s \<in> set ALLOWED_MIME_TYPES)
                (UnsupportedMediaTypeError (mime_type s) ALLOWED_MIME_TYPES)) (\<lambda>_.
     andThen (check (0 \<le> offset s \<and> offset s \<le> file_size s)
                (ValueError ''offset must be >= 0 and <= size'')) (\<lambda>_.
     andThen (check (is_aware (created_at s)) (ValueError ''created_at must be timezone-aware'')) (\<lambda>_.
     andThen (check (is_aware (expires_at s)) (ValueError ''expires_at must be timezone-aware'')) (\<lambda>_.
     andThen (check (instant (created_at s) < instant (expires_at s))
                (ValueError ''expires_at must be after created_at'')) (\<lambda>_.
     andThen (check_manifest 0 (chunk_manifest s)) (\<lambda>_. Inr s)))))))))"

section \<open>Methods\<close>

text \<open>\<open>c["index"] == i\<close>: Python's equality counts \<open>True\<close> as 1.\<close>

fun json_eq_int :: "json \<Rightarrow> int \<Rightarrow> bool" where
  "json_eq_int (JInt j) i = (j = i)"
| "json_eq_int (JBool b) i = ((if b then 1 else 0) = i)"
| "json_eq_int _ i = False"

fun any_index :: "int \<Rightarrow> json list \<Rightarrow> exn + bool" where
  "any_index i [] = Inr False"
| "any_index i (c # cs) =
     andThen (json_item c ''index'') (\<lambda>v. if json_eq_int v i then Inr True else any_index i cs)"

definition chunk_entry :: "int \<Rightarrow> int \<Rightarrow> string \<Rightarrow> json" where
  "chunk_entry i n c = JObj [(''index'', JInt i), (''size'', JInt n), (''checksum'', JStr c)]"

definition add_chunk :: "int \<Rightarrow> int \<Rightarrow> string \<Rightarrow> UploadSession \<Rightarrow> exn + UploadSession" where
  "add_chunk chunk_index chunk_size chunk_checksum s =
     andThen (check (chunk_index \<ge> 0) (ValueError ''chunk_index must be >= 0'')) (\<lambda>_.
     andThen (check (chunk_size > 0) (ValueError ''chunk_size must be > 0'')) (\<lambda>_.
     andThen (check (chunk_checksum \<noteq> [] \<and> strip chunk_checksum \<noteq> [])
                (ValueError ''chunk_checksum cannot be empty'')) (\<lambda>_.
     andThen (any_index chunk_index (chunk_manifest s)) (\<lambda>dup.
     andThen (check (\<not> dup)
                (ValueError (''chunk_index '' @ str_int chunk_index @ '' already exists in manifest''))) (\<lambda>_.
     Inr (s\<lparr>chunk_manifest := chunk_manifest s @ [chunk_entry chunk_index chunk_size chunk_checksum]\<rparr>))))))"

definition update_offset :: "int \<Rightarrow> UploadSession \<Rightarrow> exn + UploadSession" where
  "update_offset new_offset s =
     andThen (check (new_offset \<ge> 0) (ValueError ''new_offset must be >= 0'')) (\<lambda>_.
     andThen (check (new_offset \<ge> offset s)
                (ValueError ''cannot decrease offset (non-monotonic update)'')) (\<lambda>_.
     andThen (check (new_offset \<le> file_size s) (ValueError ''new_offset must be <= size'')) (\<lambda>_.
     Inr (s\<lparr>offset := new_offset\<rparr>))))"

definition mark_in_progress :: "UploadSession \<Rightarrow> exn + UploadSession" where
  "mark_in_progress s =
     (if is_terminal (status s)
      then Inl (ValueError (''Cannot transition from '' @ status_value (status s)
                  @ '' to IN_PROGRESS (invalid state transition)''))
      else Inr (s\<lparr>status := IN_PROGRESS\<rparr>))"

definition mark_complete :: "UploadSession \<Rightarrow> exn + UploadSession" where
  "mark_complete s =
     (if is_terminal (status s)
      then Inl (ValueError (''Cannot transition from '' @ status_value (status s)
                  @ '' to COMPLETE (invalid state transition)''))
      else if offset s < file_size s
      then Inl (ValueError ''Cannot mark complete: offset < size'')
      else Inr (s\<lparr>status := COMPLETE\<rparr>))"

definition mark_failed :: "UploadSession \<Rightarrow> UploadSession" where
  "mark_failed s = s\<lparr>status := FAILED\<rparr>"

definition mark_aborted :: "UploadSession \<Rightarrow> UploadSession" where
  "mark_aborted s = s\<lparr>status := ABORTED\<rparr>"

definition is_expired :: "datetime \<Rightarrow> UploadSession \<Rightarrow> exn + bool" where
  "is_expired current_time s =
     andThen (check (is_aware current_time) (ValueError ''current_time must be timezone-aware'')) (\<lambda>_.
     Inr (instant current_time > instant (expires_at s)))"

definition is_complete :: "UploadSession \<Rightarrow> bool" where
  "is_complete s = (offset s = file_size s \<and> status s = COMPLETE)"

section \<open>The class invariant\<close>

definition filename_ok :: "string \<Rightarrow> bool" where
  "filename_ok fn = (strip fn \<noteq> [] \<and> CHR ''/'' \<notin> set fn \<and> CHR 0x5C \<notin> set fn
     \<and> CHR 0x00 \<notin> set fn \<and> length fn \<le> 255)"

fun entry_ok :: "json \<Rightarrow> bool" where
  "entry_ok (JObj ms) = (map_of ms ''index'' \<noteq> None \<and> map_of ms ''size'' \<noteq> None \<and> map_of ms ''checksum'' \<noteq> None)"
| "entry_ok _ = False"

definition session_ok :: "UploadSession \<Rightarrow> bool" where
  "session_ok s = (filename_ok (filename s)
     \<and> 0 < file_size s \<and> file_size s \<le> MAX_FILE_SIZE_BYTES
     \<and> mime_type s \<in> set ALLOWED_MIME_TYPES
     \<and> 0 \<le> offset s \<and> offset s \<le> file_size s
     \<and> is_aware (created_at s) \<and> is_aware (expires_at s)
     \<and> instant (created_at s) < instant (expires_at s)
     \<and> list_all entry_ok (chunk_manifest s))"

lemma strip_Nil [simp]: "strip [] = []"
  by (simp add: strip_def rstrip_def lstrip_def)

lemma check_filename_iff: "check_filename fn = Inr u \<longleftrightarrow> filename_ok fn"
  by (auto simp: check_filename_def filename_ok_def)

lemma check_manifest_iff: "check_manifest i cs = Inr u \<longleftrightarrow> list_all entry_ok cs"
  by (induction i cs rule: check_manifest.induct) auto

lemma UploadSession_post_init_iff:
  "UploadSession_post_init s = Inr s' \<longleftrightarrow> s' = s \<and> session_ok s"
  by (auto simp: UploadSession_post_init_def session_ok_def check_filename_iff check_manifest_iff)

lemma UploadSession_post_init_ok [simp]: "session_ok s \<Longrightarrow> UploadSession_post_init s = Inr s"
  by (simp add: UploadSession_post_init_iff)

lemma check_filename_error: "check_filename fn = Inl e \<Longrightarrow> is_ValueError e"
  by (auto simp: check_filename_def andThen_eq_Inl)

lemma check_manifest_error: "check_manifest i cs = Inl e \<Longrightarrow> is_ValueError e \<or> is_TypeError e"
  by (induction i cs rule: check_manifest.induct) (auto split: if_splits)

lemma is_Exception_simps [simp]:
  "is_ValueError e \<Longrightarrow> is_Exception e" "is_TypeError e \<Longrightarrow> is_Exception e"
  "is_InfrastructureError e \<Longrightarrow> is_Exception e" "is_RedisError e \<Longrightarrow> is_Exception e"
  by (cases e; simp)+

lemma UploadSession_post_init_error: "UploadSession_post_init s = Inl e \<Longrightarrow> is_Exception e"
  by (auto simp: UploadSession_post_init_def andThen_eq_Inl
      dest: check_filename_error check_manifest_error)

lemma chunk_entry_ok [simp]: "entry_ok (chunk_entry i n c)" "json_ok (chunk_entry i n c)"
  by (simp_all add: chunk_entry_def)

subsection \<open>What the methods do, exactly\<close>

definition index_is :: "int \<Rightarrow> json \<Rightarrow> bool" where
  "index_is i c = (case json_item c ''index'' of Inl _ \<Rightarrow> False | Inr v \<Rightarrow> json_eq_int v i)"

lemma any_index_total:
  "list_all entry_ok cs \<Longrightarrow> any_index i cs = Inr (list_ex (index_is i) cs)"
proof (induction cs)
  case (Cons c cs)
  then obtain ms v where "c = JObj ms" "map_of ms ''index'' = Some v" by (cases c) auto
  with Cons show ?case by (auto simp: json_item_def index_is_def)
qed simp

lemma index_is_chunk_entry [simp]: "index_is i (chunk_entry j n c) \<longleftrightarrow> j = i"
  by (simp add: index_is_def chunk_entry_def json_item_def)

lemma add_chunk_Inr:
  "add_chunk i n c s = Inr s' \<longleftrightarrow>
     0 \<le> i \<and> 0 < n \<and> strip c \<noteq> [] \<and> any_index i (chunk_manifest s) = Inr False
     \<and> s' = s\<lparr>chunk_manifest := chunk_manifest s @ [chunk_entry i n c]\<rparr>"
  by (auto simp: add_chunk_def)

lemma update_offset_Inr:
  "update_offset n s = Inr s' \<longleftrightarrow> 0 \<le> n \<and> offset s \<le> n \<and> n \<le> file_size s \<and> s' = s\<lparr>offset := n\<rparr>"
  by (auto simp: update_offset_def)

lemma update_offset_error: "update_offset n s = Inl e \<Longrightarrow> is_ValueError e"
  by (auto simp: update_offset_def andThen_eq_Inl)

lemma mark_in_progress_Inr:
  "mark_in_progress s = Inr s' \<longleftrightarrow> \<not> is_terminal (status s) \<and> s' = s\<lparr>status := IN_PROGRESS\<rparr>"
  by (auto simp: mark_in_progress_def)

lemma mark_complete_Inr:
  "mark_complete s = Inr s' \<longleftrightarrow>
     \<not> is_terminal (status s) \<and> file_size s \<le> offset s \<and> s' = s\<lparr>status := COMPLETE\<rparr>"
  by (auto simp: mark_complete_def)

lemmas method_Inr = add_chunk_Inr update_offset_Inr mark_in_progress_Inr mark_complete_Inr

subsection \<open>One step of an entity's life\<close>

inductive method_step :: "UploadSession \<Rightarrow> UploadSession \<Rightarrow> bool" where
  "add_chunk i n c s = Inr s' \<Longrightarrow> method_step s s'"
| "update_offset n s = Inr s' \<Longrightarrow> method_step s s'"
| "mark_in_progress s = Inr s' \<Longrightarrow> method_step s s'"
| "mark_complete s = Inr s' \<Longrightarrow> method_step s s'"
| "method_step s (mark_failed s)"
| "method_step s (mark_aborted s)"

lemma session_ok_method: "method_step s s' \<Longrightarrow> session_ok s \<Longrightarrow> session_ok s'"
  by (induction rule: method_step.induct)
    (auto simp: method_Inr session_ok_def mark_failed_def mark_aborted_def)

lemma method_step_fixed: "method_step s s' \<Longrightarrow>
    session_id s' = session_id s \<and> workspace_id s' = workspace_id s \<and> filename s' = filename s
    \<and> file_size s' = file_size s \<and> mime_type s' = mime_type s
    \<and> sha256_checksum s' = sha256_checksum s \<and> created_at s' = created_at s
    \<and> expires_at s' = expires_at s \<and> offset s \<le> offset s'
    \<and> (\<exists>l. chunk_manifest s' = chunk_manifest s @ l)"
  by (induction rule: method_step.induct)
    (auto simp: method_Inr mark_failed_def mark_aborted_def)

lemma method_step_terminal: "method_step s s' \<Longrightarrow> is_terminal (status s) \<Longrightarrow> is_terminal (status s')"
  by (induction rule: method_step.induct)
    (auto simp: method_Inr mark_failed_def mark_aborted_def is_terminal_def)

section \<open>Workspace\<close>

record Workspace =
  wsp_workspace_id :: uuid
  wsp_owner_user_id :: uuid
  wsp_created_at :: datetime

definition Workspace_post_init :: "Workspace \<Rightarrow> exn + Workspace" where
  "Workspace_post_init w =
     andThen (check (is_aware (wsp_created_at w)) (ValueError ''created_at must be timezone-aware''))
       (\<lambda>_. Inr w)"

end
