(* ===== verification/Protocols.thy ===== *)
theory Protocols
  imports Upload_Session
begin

text \<open>
  \<open>src/domain/protocols\<close>: the interfaces the use cases depend on. Each Protocol class is a record
  of its operations, and a locale of what its documentation promises, stated on an abstract
  \<open>store\<close>: sessions, expiry metadata, upload counters, chunk data and file fingerprints, each value
  with the time at which it expires. Time may pass during every operation; \<open>tick\<close> lets it pass.
  \<open>performs view rest Q E m\<close> says that \<open>m\<close> relates the stores before and after by \<open>Q\<close> when it
  returns and by \<open>E\<close> when it raises, and leaves the \<open>rest\<close> of the world alone. The providers are in
  \<open>Session_Store\<close>, \<open>Rate_Limiter\<close> and \<open>Dedup_Store\<close>.
\<close>

section \<open>Data\<close>

record ExpiryMetadata =
  em_session_id :: string
  em_workspace_id :: string
  em_expires_at :: string
  em_filename :: string

record FileMetadata =
  fm_file_id :: uuid
  fm_s3_path :: string
  fm_size :: int
  fm_uploaded_at :: datetime

definition FileMetadata_post_init :: "FileMetadata \<Rightarrow> exn + FileMetadata" where
  "FileMetadata_post_init m =
     andThen (check (fm_size m \<ge> 0)
                (ValueError (''size must be non-negative, got '' @ str_int (fm_size m)))) (\<lambda>_.
     andThen (check (is_aware (fm_uploaded_at m)) (ValueError ''uploaded_at must be timezone-aware'')) (\<lambda>_.
     andThen (check (fm_s3_path m \<noteq> [] \<and> strip (fm_s3_path m) \<noteq> [])
                (ValueError ''s3_path cannot be empty'')) (\<lambda>_. Inr m)))"

definition metadata_ok :: "FileMetadata \<Rightarrow> bool" where
  "metadata_ok m = (0 \<le> fm_size m \<and> is_aware (fm_uploaded_at m) \<and> strip (fm_s3_path m) \<noteq> [])"

lemma FileMetadata_post_init_iff: "FileMetadata_post_init m = Inr m' \<longleftrightarrow> m' = m \<and> metadata_ok m"
  by (auto simp: FileMetadata_post_init_def metadata_ok_def)

section \<open>The interfaces\<close>

record 'w ISessionStore =
  create_session :: "UploadSession \<Rightarrow> ('w, unit) io"
  get_session :: "uuid \<Rightarrow> uuid \<Rightarrow> ('w, UploadSession option) io"
  get_session_with_expiry_info ::
    "uuid \<Rightarrow> uuid \<Rightarrow> ('w, UploadSession option \<times> ExpiryMetadata option) io"
  update_session :: "UploadSession \<Rightarrow> ('w, unit) io"
  delete_session :: "uuid \<Rightarrow> uuid \<Rightarrow> ('w, unit) io"

record 'w IRateLimiter =
  check_and_increment :: "uuid \<Rightarrow> ('w, unit) io"
  decrement :: "uuid \<Rightarrow> ('w, unit) io"
  get_current_count :: "uuid \<Rightarrow> ('w, int) io"
  reset :: "uuid \<Rightarrow> ('w, unit) io"

record 'w IDeduplicationStore =
  check_duplicate :: "uuid \<Rightarrow> SHA256Hash \<Rightarrow> ('w, FileMetadata option) io"
  register_file :: "uuid \<Rightarrow> SHA256Hash \<Rightarrow> FileMetadata \<Rightarrow> ('w, unit) io"

record 'w IStorageClient =
  assemble_file :: "uuid \<Rightarrow> uuid \<Rightarrow> reply list \<Rightarrow> SHA256Hash \<Rightarrow> ('w, string \<times> int) io"

section \<open>The abstract store\<close>

type_synonym 'a timed = "('a \<times> nat option) option"

definition tick_value :: "nat \<Rightarrow> 'a timed \<Rightarrow> 'a timed" where
  "tick_value t x = (case x of Some (v, Some e) \<Rightarrow> if t < e then Some (v, Some e) else None | y \<Rightarrow> y)"

record store =
  st_now :: nat
  st_sessions :: "uuid \<Rightarrow> uuid \<Rightarrow> UploadSession option timed" \<comment> \<open>inner \<open>None\<close>: unreadable\<close>
  st_expired :: "uuid \<Rightarrow> ExpiryMetadata timed"
  st_counters :: "uuid \<Rightarrow> int option timed" \<comment> \<open>inner \<open>None\<close>: not a number\<close>
  st_chunks :: "uuid \<Rightarrow> uuid \<Rightarrow> string \<Rightarrow> bytes timed"
  st_files :: "uuid \<Rightarrow> string \<Rightarrow> FileMetadata option timed" \<comment> \<open>inner \<open>None\<close>: unreadable\<close>

definition tick :: "nat \<Rightarrow> store \<Rightarrow> store" where
  "tick t st = \<lparr>st_now = t,
     st_sessions = (\<lambda>ws sid. tick_value t (st_sessions st ws sid)),
     st_expired = (\<lambda>sid. tick_value t (st_expired st sid)),
     st_counters = (\<lambda>ws. tick_value t (st_counters st ws)),
     st_chunks = (\<lambda>ws sid i. tick_value t (st_chunks st ws sid i)),
     st_files = (\<lambda>ws h. tick_value t (st_files st ws h))\<rparr>"

definition passes :: "store \<Rightarrow> store \<Rightarrow> bool" where
  "passes st st' = (st_now st \<le> st_now st' \<and> st' = tick (st_now st') st)"

definition session_in :: "store \<Rightarrow> uuid \<Rightarrow> uuid \<Rightarrow> UploadSession option" where
  "session_in st ws sid = (case st_sessions st ws sid of None \<Rightarrow> None | Some (s, _) \<Rightarrow> s)"

definition count_in :: "store \<Rightarrow> uuid \<Rightarrow> int option" where
  "count_in st ws = (case st_counters st ws of None \<Rightarrow> Some 0 | Some (c, _) \<Rightarrow> c)"

definition expiry_of :: "'a timed \<Rightarrow> nat option" where
  "expiry_of x = (case x of None \<Rightarrow> None | Some (_, e) \<Rightarrow> e)"

definition put_session :: "UploadSession \<Rightarrow> nat option \<Rightarrow> store \<Rightarrow> store" where
  "put_session s e st = st\<lparr>st_sessions := (st_sessions st)(workspace_id s :=
     (st_sessions st (workspace_id s))(session_id s \<mapsto> (Some s, e)))\<rparr>"

definition drop_session :: "uuid \<Rightarrow> uuid \<Rightarrow> store \<Rightarrow> store" where
  "drop_session ws sid st = st\<lparr>
     st_sessions := (st_sessions st)(ws := (st_sessions st ws)(sid := None)),
     st_expired := (st_expired st)(sid := None)\<rparr>"

definition put_expired :: "uuid \<Rightarrow> ExpiryMetadata timed \<Rightarrow> store \<Rightarrow> store" where
  "put_expired sid m st = st\<lparr>st_expired := (st_expired st)(sid := m)\<rparr>"

definition put_count :: "uuid \<Rightarrow> int \<Rightarrow> store \<Rightarrow> store" where
  "put_count ws n st = st\<lparr>st_counters := (st_counters st)(ws \<mapsto>
     (Some n, expiry_of (st_counters st ws)))\<rparr>"

definition put_chunk :: "uuid \<Rightarrow> uuid \<Rightarrow> string \<Rightarrow> bytes timed \<Rightarrow> store \<Rightarrow> store" where
  "put_chunk ws sid i b st = st\<lparr>st_chunks := (st_chunks st)(ws := (st_chunks st ws)(sid :=
     (st_chunks st ws sid)(i := b)))\<rparr>"

definition put_file :: "uuid \<Rightarrow> string \<Rightarrow> FileMetadata option timed \<Rightarrow> store \<Rightarrow> store" where
  "put_file ws h m st = st\<lparr>st_files := (st_files st)(ws := (st_files st ws)(h := m))\<rparr>"

lemmas store_updates = put_session_def drop_session_def put_expired_def put_count_def put_chunk_def
  put_file_def

definition performs :: "('w \<Rightarrow> store) \<Rightarrow> ('w \<Rightarrow> 'o) \<Rightarrow> (store \<Rightarrow> 'a \<Rightarrow> store \<Rightarrow> bool)
    \<Rightarrow> (store \<Rightarrow> exn \<Rightarrow> store \<Rightarrow> bool) \<Rightarrow> ('w, 'a) io \<Rightarrow> bool" where
  "performs view rest Q E m = (\<forall>w. wp m
     (\<lambda>x w'. rest w' = rest w \<and> Q (view w) x (view w'))
     (\<lambda>e w'. rest w' = rest w \<and> E (view w) e (view w')) w)"

lemma performsD: "performs view rest Q E m \<Longrightarrow> wp m
     (\<lambda>x w'. rest w' = rest w \<and> Q (view w) x (view w'))
     (\<lambda>e w'. rest w' = rest w \<and> E (view w) e (view w')) w"
  by (simp add: performs_def)

subsection \<open>Time\<close>

lemma tick_value_simps [simp]:
  "tick_value t None = None"
  "tick_value t (Some (v, None)) = Some (v, None)"
  by (simp_all add: tick_value_def)

lemma tick_value_Some:
  "tick_value t x = Some (v, e) \<longleftrightarrow> x = Some (v, e) \<and> (case e of None \<Rightarrow> True | Some u \<Rightarrow> t < u)"
  by (auto simp: tick_value_def split: option.splits if_splits)

lemma tick_value_tick_value [simp]: "t \<le> t' \<Longrightarrow> tick_value t' (tick_value t x) = tick_value t' x"
  by (auto simp: tick_value_def split: option.splits)

lemma tick_tick [simp]: "t \<le> t' \<Longrightarrow> tick t' (tick t st) = tick t' st"
  by (simp add: tick_def)

lemma tick_sel [simp]:
  "st_now (tick t st) = t"
  "st_sessions (tick t st) ws sid = tick_value t (st_sessions st ws sid)"
  "st_expired (tick t st) sid = tick_value t (st_expired st sid)"
  "st_counters (tick t st) ws = tick_value t (st_counters st ws)"
  "st_chunks (tick t st) ws sid i = tick_value t (st_chunks st ws sid i)"
  "st_files (tick t st) ws h = tick_value t (st_files st ws h)"
  by (simp_all add: tick_def)

lemma passesD:
  assumes "passes st st'"
  shows "st_now st \<le> st_now st'"
    and "st_sessions st' ws sid = tick_value (st_now st') (st_sessions st ws sid)"
    and "st_expired st' sid = tick_value (st_now st') (st_expired st sid)"
    and "st_counters st' ws = tick_value (st_now st') (st_counters st ws)"
    and "st_chunks st' ws sid i = tick_value (st_now st') (st_chunks st ws sid i)"
    and "st_files st' ws h = tick_value (st_now st') (st_files st ws h)"
  using assms unfolding passes_def by (metis tick_sel)+

lemma passes_session: "passes st st' \<Longrightarrow> session_in st' ws sid = Some s \<Longrightarrow> session_in st ws sid = Some s"
  by (auto simp: session_in_def passesD tick_value_Some split: option.splits)

lemma passes_count: "passes st st' \<Longrightarrow> count_in st' ws = count_in st ws \<or> count_in st' ws = Some 0"
  by (auto simp: passesD count_in_def tick_value_def split: option.splits)

lemma passes_trans: "passes a b \<Longrightarrow> passes b c \<Longrightarrow> passes a c"
  unfolding passes_def by (metis le_trans tick_tick)

lemma passes_settled: "passes st st' \<Longrightarrow> passes st' st'"
  unfolding passes_def by (metis order_refl tick_tick)

text \<open>Sessions at most expired, at the time the store tells.\<close>

definition sessions_aged :: "store \<Rightarrow> store \<Rightarrow> bool" where
  "sessions_aged st st' = (\<exists>st1. passes st st1 \<and> st_sessions st' = st_sessions st1 \<and> st_now st' = st_now st1)"

lemma sessions_agedD:
  assumes "sessions_aged st st'"
  shows "st_now st \<le> st_now st'" and "st_sessions st' ws sid = tick_value (st_now st') (st_sessions st ws sid)"
  using assms by (auto simp: sessions_aged_def passesD)

lemma sessions_aged_refl: "passes st st' \<Longrightarrow> sessions_aged st st'"
  by (auto simp: sessions_aged_def)

lemma sessions_aged_passes: "passes st st1 \<Longrightarrow> sessions_aged st1 st' \<Longrightarrow> sessions_aged st st'"
  unfolding sessions_aged_def by (metis passes_trans)

lemma sessions_aged_iff:
  "sessions_aged st st' \<longleftrightarrow> st_now st \<le> st_now st'
     \<and> (\<forall>ws sid. st_sessions st' ws sid = tick_value (st_now st') (st_sessions st ws sid))"
proof
  assume *: "st_now st \<le> st_now st'
     \<and> (\<forall>ws sid. st_sessions st' ws sid = tick_value (st_now st') (st_sessions st ws sid))"
  then have "st_sessions st' = st_sessions (tick (st_now st') st)"
    by (intro ext) simp
  with * show "sessions_aged st st'"
    unfolding sessions_aged_def by (intro exI [of _ "tick (st_now st') st"]) (simp add: passes_def)
qed (simp add: sessions_agedD)

lemma sessions_aged_trans:
  assumes "sessions_aged st st1" and "passes st1 st2"
  shows "sessions_aged st st2"
  using assms(1) passesD(1) [OF assms(2)] by (simp add: sessions_aged_iff passesD(2) [OF assms(2)])

text \<open>A value that was to expire, and did so by then.\<close>

definition outlived :: "nat option \<Rightarrow> nat \<Rightarrow> bool" where
  "outlived e now = (\<exists>t. e = Some t \<and> t \<le> now)"

lemma outlived_mono: "outlived e t \<Longrightarrow> t \<le> t' \<Longrightarrow> outlived e t'"
  by (auto simp: outlived_def)

lemma tick_value_None: "tick_value t x = None \<longleftrightarrow> x = None \<or> outlived (expiry_of x) t"
  by (auto simp: tick_value_def outlived_def expiry_of_def split: option.splits)

lemma passes_tick: "st_now st \<le> t \<Longrightarrow> passes st (tick t st)"
  by (simp add: passes_def)

section \<open>The contracts\<close>

text \<open>Sessions that can be written and read back.\<close>

definition storable :: "UploadSession \<Rightarrow> bool" where
  "storable s = (session_ok s \<and> valid_hash (sha256_checksum s)
     \<and> valid_datetime (created_at s) \<and> valid_datetime (expires_at s)
     \<and> list_all json_ok (chunk_manifest s) \<and> workspace_id s \<noteq> 0 \<and> session_id s \<noteq> 0)"

definition expiry_metadata_of :: "UploadSession \<Rightarrow> ExpiryMetadata" where
  "expiry_metadata_of s = \<lparr>em_session_id = uuid_str (session_id s),
     em_workspace_id = uuid_str (workspace_id s), em_expires_at = isoformat (expires_at s),
     em_filename = filename s\<rparr>"

text \<open>A creation that raised may have written the session, the metadata, both or none; a key that
  holds something else than a session may be in any state.\<close>

definition same_but_session :: "uuid \<Rightarrow> uuid \<Rightarrow> store \<Rightarrow> store \<Rightarrow> bool" where
  "same_but_session ws sid st st' = (\<exists>a m. st' = put_expired sid m
     (st\<lparr>st_sessions := (st_sessions st)(ws := (st_sessions st ws)(sid := a))\<rparr>))"

definition create_interrupted :: "UploadSession \<Rightarrow> store \<Rightarrow> store \<Rightarrow> bool" where
  "create_interrupted s st st' =
     ((\<exists>m. st' = put_expired (session_id s) m st)
      \<or> (\<exists>m. st' = put_expired (session_id s) m (put_session s (Some (st_now st + 86400000)) st))
      \<or> (\<exists>e. st_sessions st (workspace_id s) (session_id s) = Some (None, e))
          \<and> same_but_session (workspace_id s) (session_id s) st st')"

lemma put_expired_same: "put_expired sid (st_expired st sid) st = st"
  by (simp add: put_expired_def)

lemma create_interrupted_refl: "create_interrupted s st st"
  unfolding create_interrupted_def by (metis put_expired_same)

text \<open>An update keeps the time at which a live session expires.\<close>

definition updated_session :: "UploadSession \<Rightarrow> store \<Rightarrow> store \<Rightarrow> bool" where
  "updated_session s st st' =
     (st' = put_session s (expiry_of (st_sessions st (workspace_id s) (session_id s))) st)"

text \<open>Expiry metadata is shown to its own workspace only.\<close>

definition expired_in :: "store \<Rightarrow> uuid \<Rightarrow> uuid \<Rightarrow> ExpiryMetadata option" where
  "expired_in st ws sid = (case st_expired st sid of
     None \<Rightarrow> None | Some (m, _) \<Rightarrow> if em_workspace_id m = uuid_str ws then Some m else None)"

text \<open>A session lives 24 hours from its creation; its expiry metadata 7 days.\<close>

locale session_store =
  fixes S :: "'w ISessionStore"
    and view :: "'w \<Rightarrow> store"
    and rest :: "'w \<Rightarrow> 'o"
  assumes create: "storable s \<Longrightarrow> performs view rest
      (\<lambda>st _ st'. \<exists>st1. passes st st1 \<and> st' = put_expired (session_id s)
          (Some (expiry_metadata_of s, Some (st_now st1 + 604800000)))
          (put_session s (Some (st_now st1 + 86400000)) st1))
      (\<lambda>st e st'. \<exists>st1. passes st st1 \<and> is_InfrastructureError e
          \<and> create_interrupted s st1 st')
      (create_session S s)"
    and get: "ws \<noteq> 0 \<Longrightarrow> sid \<noteq> 0 \<Longrightarrow> performs view rest
      (\<lambda>st r st'. passes st st' \<and> r = session_in st' ws sid)
      (\<lambda>st e st'. passes st st' \<and> (is_InfrastructureError e \<or> (\<exists>x. st_sessions st' ws sid = Some (None, x))))
      (get_session S ws sid)"
    and get_with_expiry: "ws \<noteq> 0 \<Longrightarrow> sid \<noteq> 0 \<Longrightarrow> performs view rest
      (\<lambda>st r st'. \<exists>st1. passes st st1 \<and> passes st1 st' \<and>
          (case session_in st1 ws sid of
             Some s \<Rightarrow> r = (Some s, None)
           | None \<Rightarrow> r = (None, expired_in st' ws sid)))
      (\<lambda>st e st'. passes st st' \<and> (is_InfrastructureError e \<or> (\<exists>x. st_sessions st' ws sid = Some (None, x))))
      (get_session_with_expiry_info S ws sid)"
    and update: "storable s \<Longrightarrow> performs view rest
      (\<lambda>st _ st'. \<exists>st1. passes st st1 \<and> updated_session s st1 st')
      (\<lambda>st e st'. \<exists>st1. passes st st1 \<and> (is_SessionNotFoundError e \<or> is_InfrastructureError e)
          \<and> (st' = st1 \<or> is_InfrastructureError e \<and> updated_session s st1 st')
          \<and> (is_SessionNotFoundError e \<longrightarrow> session_in st1 (workspace_id s) (session_id s) = None))
      (update_session S s)"
    and delete: "ws \<noteq> 0 \<Longrightarrow> sid \<noteq> 0 \<Longrightarrow> performs view rest
      (\<lambda>st _ st'. \<exists>st1. passes st st1 \<and> st' = drop_session ws sid st1)
      (\<lambda>st e st'. \<exists>st1. passes st st1 \<and> is_InfrastructureError e
          \<and> (st' = st1 \<or> st' = drop_session ws sid st1))
      (delete_session S ws sid)"

locale rate_limiter =
  fixes L :: "'w IRateLimiter"
    and limit :: int
    and view :: "'w \<Rightarrow> store"
    and rest :: "'w \<Rightarrow> 'o"
  assumes limit_pos: "0 < limit"
    and check: "ws \<noteq> 0 \<Longrightarrow> performs view rest
      (\<lambda>st _ st'. \<exists>st1 n. passes st st1 \<and> count_in st1 ws = Some n \<and> n < limit
          \<and> st' = put_count ws (n + 1) st1)
      (\<lambda>st e st'. \<exists>st1. passes st st1
          \<and> ((is_RateLimitExceededError e \<and> st' = st1
                \<and> (\<forall>n. count_in st1 ws = Some n \<longrightarrow> limit \<le> n))
             \<or> (is_InfrastructureError e \<and> (st' = st1
                 \<or> (\<exists>n. count_in st1 ws = Some n \<and> st' = put_count ws (n + 1) st1)))))
      (check_and_increment L ws)"
    and decr: "ws \<noteq> 0 \<Longrightarrow> performs view rest
      (\<lambda>st _ st'. \<exists>st1 n. passes st st1 \<and> count_in st1 ws = Some n
          \<and> st' = put_count ws (max 0 (n - 1)) st1)
      (\<lambda>st e st'. \<exists>st1. passes st st1 \<and> is_InfrastructureError e
          \<and> (st' = st1 \<or> (\<exists>n m. count_in st1 ws = Some n \<and> m \<in> {n - 1, max 0 (n - 1)}
               \<and> st' = put_count ws m st1)))
      (decrement L ws)"
    and count: "ws \<noteq> 0 \<Longrightarrow> performs view rest
      (\<lambda>st n st'. \<exists>st1. passes st st1 \<and> 0 \<le> n \<and> (\<forall>k. count_in st1 ws = Some k \<longrightarrow> n = max 0 k)
          \<and> (st' = st1 \<or> n = 0 \<and> st' = put_count ws 0 st1))
      (\<lambda>st e st'. \<exists>st1. passes st st1 \<and> is_InfrastructureError e \<and> (st' = st1 \<or> st' = put_count ws 0 st1))
      (get_current_count L ws)"
    and reset_zero: "ws \<noteq> 0 \<Longrightarrow> performs view rest
      (\<lambda>st _ st'. \<exists>st1. passes st st1 \<and> st' = put_count ws 0 st1)
      (\<lambda>st e st'. \<exists>st1. passes st st1 \<and> is_InfrastructureError e \<and> (st' = st1 \<or> st' = put_count ws 0 st1))
      (reset L ws)"

text \<open>Fingerprints of completed files, by workspace and SHA-256.\<close>

definition file_in :: "store \<Rightarrow> uuid \<Rightarrow> string \<Rightarrow> FileMetadata option" where
  "file_in st ws h = (case st_files st ws h of None \<Rightarrow> None | Some (m, _) \<Rightarrow> m)"

definition metadata_storable :: "FileMetadata \<Rightarrow> bool" where
  "metadata_storable m = (metadata_ok m \<and> valid_datetime (fm_uploaded_at m))"

definition registered_file :: "uuid \<Rightarrow> string \<Rightarrow> FileMetadata \<Rightarrow> store \<Rightarrow> store \<Rightarrow> bool" where
  "registered_file ws h m st st' = (\<exists>x. st' = put_file ws h (Some (Some m, x)) st
     \<and> (st_files st ws h \<noteq> None \<longrightarrow> x = expiry_of (st_files st ws h)))"

text \<open>A timeout of \<open>asyncio.wait_for\<close> is an exception of its own.\<close>

locale dedup_store =
  fixes D :: "'w IDeduplicationStore"
    and view :: "'w \<Rightarrow> store"
    and rest :: "'w \<Rightarrow> 'o"
  assumes check_dup: "ws \<noteq> 0 \<Longrightarrow> performs view rest
      (\<lambda>st r st'. passes st st' \<and> r = file_in st' ws (hash_value h))
      (\<lambda>st e st'. passes st st' \<and> (is_InfrastructureError e \<or> e = AsyncTimeoutError
          \<or> st_files st' ws (hash_value h) \<noteq> None \<and> file_in st' ws (hash_value h) = None))
      (check_duplicate D ws h)"
    and register: "ws \<noteq> 0 \<Longrightarrow> metadata_storable m \<Longrightarrow> performs view rest
      (\<lambda>st _ st'. \<exists>st1. passes st st1 \<and> registered_file ws (hash_value h) m st1 st')
      (\<lambda>st e st'. \<exists>st1. passes st st1 \<and> (is_InfrastructureError e \<or> e = AsyncTimeoutError)
          \<and> (st' = st1 \<or> registered_file ws (hash_value h) m st1 st'))
      (register_file D ws h m)"

section \<open>Chunk data\<close>

text \<open>The operations of the Redis client that \<open>ProcessChunkUseCase\<close> and \<open>CompleteUploadUseCase\<close>
  use directly, on the keys of chunks.\<close>

locale chunk_cache =
  fixes set_chunk :: "uuid \<Rightarrow> uuid \<Rightarrow> string \<Rightarrow> bytes \<Rightarrow> nat \<Rightarrow> ('w, unit) io"
    and get_chunk :: "uuid \<Rightarrow> uuid \<Rightarrow> string \<Rightarrow> ('w, reply option) io"
    and delete_chunk :: "uuid \<Rightarrow> uuid \<Rightarrow> string \<Rightarrow> ('w, int) io"
    and view :: "'w \<Rightarrow> store"
    and rest :: "'w \<Rightarrow> 'o"
  assumes set_chunk: "0 < secs \<Longrightarrow> performs view rest
      (\<lambda>st _ st'. \<exists>st1. passes st st1 \<and> st' = put_chunk ws sid i (Some (b, Some (st_now st1 + secs * 1000))) st1)
      (\<lambda>st e st'. \<exists>st1. passes st st1 \<and> is_RedisError e
          \<and> (st' = st1 \<or> st' = put_chunk ws sid i (Some (b, Some (st_now st1 + secs * 1000))) st1))
      (set_chunk ws sid i b secs)"
    and get_chunk: "performs view rest
      (\<lambda>st r st'. passes st st' \<and> r = map_option (\<lambda>c. RBytes (fst c)) (st_chunks st' ws sid i))
      (\<lambda>st e st'. passes st st' \<and> is_RedisError e)
      (get_chunk ws sid i)"
    and delete_chunk: "performs view rest
      (\<lambda>st _ st'. \<exists>st1. passes st st1 \<and> st' = put_chunk ws sid i None st1)
      (\<lambda>st e st'. \<exists>st1. passes st st1 \<and> is_RedisError e \<and> (st' = st1 \<or> st' = put_chunk ws sid i None st1))
      (delete_chunk ws sid i)"

section \<open>The clock and the identifiers\<close>

text \<open>\<open>uuid4()\<close> and \<open>datetime.now(UTC)\<close>. A version 4 UUID is never NIL.\<close>

record 'w environment =
  uuid4 :: "('w, uuid) io"
  now_utc :: "('w, datetime) io"

locale environment =
  fixes Env :: "'w environment"
    and view :: "'w \<Rightarrow> store"
    and rest :: "'w \<Rightarrow> 'o"
  assumes uuid4: "performs view rest (\<lambda>st u st'. passes st st' \<and> u \<noteq> 0) (\<lambda>_ _ _. False) (uuid4 Env)"
    and now_utc: "performs view rest
      (\<lambda>st d st'. passes st st' \<and> valid_datetime d \<and> utcoff d = Some 0) (\<lambda>_ _ _. False) (now_utc Env)"

end
