(* ===== verification/Redis_Client.thy ===== *)
theory Redis_Client
  imports Exceptions
begin

text \<open>
  The Redis client is a library the program only calls: it is a parameter, the record
  \<open>redis_client\<close> of the commands the program uses. What the program relies on is the documented
  behaviour of those commands: each \<open>cmd_\<dots>\<close> is one, on a database of hashes and byte strings with
  expiry times in milliseconds, and \<open>redis_server R now db rest\<close> says that the client \<open>R\<close> obeys
  them. There \<open>now\<close> and \<open>db\<close> read the server's clock and its live keys off the world, and \<open>rest\<close>
  stands for all that Redis does not touch. A command that returns did its effect at the time of
  the server; a command that raises raised a \<open>RedisError\<close>, with or without the effect, since a
  connection can fail before or after the server executed it.

  \<open>mem_redis\<close> is a server in memory that can be told to fail; it interprets the locale.
\<close>

section \<open>The database\<close>

datatype rvalue = RHash "(string \<times> string) list" | RBlob bytes

type_synonym redis_db = "string \<Rightarrow> (rvalue \<times> nat option) option"

definition purge :: "nat \<Rightarrow> redis_db \<Rightarrow> redis_db" where
  "purge t d = (\<lambda>k. case d k of
     Some (v, Some e) \<Rightarrow> if t < e then Some (v, Some e) else None
   | x \<Rightarrow> x)"

lemma purge_None [simp]: "d k = None \<Longrightarrow> purge t d k = None"
  by (simp add: purge_def)

lemma purge_Some_iff:
  "purge t d k = Some (v, e) \<longleftrightarrow> d k = Some (v, e) \<and> (case e of None \<Rightarrow> True | Some x \<Rightarrow> t < x)"
  by (auto simp: purge_def split: option.splits if_splits)

lemma purge_persistent [simp]: "d k = Some (v, None) \<Longrightarrow> purge t d k = Some (v, None)"
  by (simp add: purge_def)

lemma purge_purge [simp]: "t \<le> t' \<Longrightarrow> purge t' (purge t d) = purge t' d"
  by (rule ext) (auto simp: purge_def split: option.splits)

section \<open>The commands\<close>

text \<open>A command at time \<open>t\<close> returns a reply, or \<open>None\<close> for an error reply, and the new database.\<close>

type_synonym 'r cmd = "nat \<Rightarrow> redis_db \<Rightarrow> 'r option \<times> redis_db"

definition hash_at :: "redis_db \<Rightarrow> string \<Rightarrow> (string \<times> string) list option" where
  "hash_at d k = (case d k of None \<Rightarrow> Some [] | Some (RHash h, _) \<Rightarrow> Some h | Some (RBlob _, _) \<Rightarrow> None)"

definition put_hash :: "redis_db \<Rightarrow> string \<Rightarrow> (string \<times> string) list \<Rightarrow> redis_db" where
  "put_hash d k h = d(k \<mapsto> (RHash h, case d k of None \<Rightarrow> None | Some (_, e) \<Rightarrow> e))"

definition hset_fields :: "(string \<times> string) list \<Rightarrow> (string \<times> string) list \<Rightarrow> (string \<times> string) list" where
  "hset_fields fs h = fold (\<lambda>(f, v). AList.update f v) fs h"

definition cmd_hgetall :: "string \<Rightarrow> (string \<times> string) list cmd" where
  "cmd_hgetall k t d = (hash_at d k, d)"

definition cmd_hget :: "string \<Rightarrow> string \<Rightarrow> string option cmd" where
  "cmd_hget k f t d = (map_option (\<lambda>h. map_of h f) (hash_at d k), d)"

definition cmd_hexists :: "string \<Rightarrow> string \<Rightarrow> bool cmd" where
  "cmd_hexists k f t d = (map_option (\<lambda>h. map_of h f \<noteq> None) (hash_at d k), d)"

definition cmd_hset :: "string \<Rightarrow> (string \<times> string) list \<Rightarrow> unit cmd" where
  "cmd_hset k fs t d =
     (case hash_at d k of None \<Rightarrow> (None, d) | Some h \<Rightarrow> (Some (), put_hash d k (hset_fields fs h)))"

definition cmd_expire :: "string \<Rightarrow> nat \<Rightarrow> unit cmd" where
  "cmd_expire k secs t d =
     (Some (), case d k of
        None \<Rightarrow> d
      | Some (v, _) \<Rightarrow> if secs = 0 then d(k := None) else d(k \<mapsto> (v, Some (t + secs * 1000))))"

definition cmd_ttl :: "string \<Rightarrow> int cmd" where
  "cmd_ttl k t d =
     (Some (case d k of
        None \<Rightarrow> - 2
      | Some (_, None) \<Rightarrow> - 1
      | Some (_, Some e) \<Rightarrow> int ((e - t + 500) div 1000)), d)"

definition cmd_delete :: "string list \<Rightarrow> int cmd" where
  "cmd_delete ks t d = (Some (int (length (filter (\<lambda>k. d k \<noteq> None) (remdups ks)))), d |` (- set ks))"

text \<open>A counter is a canonical decimal numeral of 64 bits; \<open>HINCRBY\<close> refuses anything else.\<close>

definition redis_int :: "string \<Rightarrow> int option" where
  "redis_int s = (case py_int 10 s of
     Some i \<Rightarrow> if str_int i = s \<and> - (2 ^ 63) \<le> i \<and> i < 2 ^ 63 then Some i else None
   | None \<Rightarrow> None)"

definition counter_of :: "string option \<Rightarrow> int option" where
  "counter_of v = (case v of None \<Rightarrow> Some 0 | Some s \<Rightarrow> redis_int s)"

definition cmd_hincrby :: "string \<Rightarrow> string \<Rightarrow> int \<Rightarrow> int cmd" where
  "cmd_hincrby k f by t d =
     (case hash_at d k of
        None \<Rightarrow> (None, d)
      | Some h \<Rightarrow>
          (case counter_of (map_of h f) of
             None \<Rightarrow> (None, d)
           | Some i \<Rightarrow>
               if - (2 ^ 63) \<le> i + by \<and> i + by < 2 ^ 63
               then (Some (i + by), put_hash d k (AList.update f (str_int (i + by)) h))
               else (None, d)))"

definition cmd_get :: "string \<Rightarrow> bytes option cmd" where
  "cmd_get k t d =
     (case d k of
        None \<Rightarrow> (Some None, d)
      | Some (RBlob b, _) \<Rightarrow> (Some (Some b), d)
      | Some (RHash _, _) \<Rightarrow> (None, d))"

text \<open>\<open>SET k v EX secs\<close> (also \<open>SETEX\<close>).\<close>

definition cmd_set :: "string \<Rightarrow> bytes \<Rightarrow> nat \<Rightarrow> unit cmd" where
  "cmd_set k b secs t d =
     (if secs = 0 then (None, d) else (Some (), d(k \<mapsto> (RBlob b, Some (t + secs * 1000)))))"

text \<open>A transaction: every command is executed, and an error reply of one makes the whole raise.\<close>

datatype pipe_cmd = PHset string "(string \<times> string) list" | PExpire string nat

fun pipe_step :: "pipe_cmd \<Rightarrow> unit cmd" where
  "pipe_step (PHset k fs) = cmd_hset k fs"
| "pipe_step (PExpire k secs) = cmd_expire k secs"

fun cmd_pipeline :: "pipe_cmd list \<Rightarrow> unit cmd" where
  "cmd_pipeline [] t d = (Some (), d)"
| "cmd_pipeline (c # cs) t d =
     (let (r, d1) = pipe_step c t d; (r', d2) = cmd_pipeline cs t d1
      in (if r = None then None else r', d2))"

section \<open>The client\<close>

text \<open>With \<open>decode_responses\<close> the client returns text (\<open>RStr\<close>), without it bytes (\<open>RBytes\<close>).\<close>

record 'w redis_client =
  r_hgetall :: "string \<Rightarrow> ('w, (reply \<times> reply) list) io"
  r_hget :: "string \<Rightarrow> string \<Rightarrow> ('w, reply option) io"
  r_hexists :: "string \<Rightarrow> string \<Rightarrow> ('w, bool) io"
  r_hset :: "string \<Rightarrow> (string \<times> string) list \<Rightarrow> ('w, unit) io"
  r_ttl :: "string \<Rightarrow> ('w, int) io"
  r_delete :: "string list \<Rightarrow> ('w, int) io"
  r_hincrby :: "string \<Rightarrow> string \<Rightarrow> int \<Rightarrow> ('w, int) io"
  r_get :: "string \<Rightarrow> ('w, reply option) io"
  r_set :: "string \<Rightarrow> bytes \<Rightarrow> nat \<Rightarrow> ('w, unit) io"
  r_pipeline :: "pipe_cmd list \<Rightarrow> ('w, unit) io"

fun rep_str :: "string \<Rightarrow> reply \<Rightarrow> bool" where
  "rep_str s (RStr t) = (t = s)"
| "rep_str s (RBytes b) = (b = utf8_encode s)"

definition rep_hash :: "(string \<times> string) list \<Rightarrow> (reply \<times> reply) list \<Rightarrow> bool" where
  "rep_hash h rs = (\<exists>kvs. map_of kvs = map_of h \<and> distinct (map fst kvs)
     \<and> list_all2 (\<lambda>kv r. rep_str (fst kv) (fst r) \<and> rep_str (snd kv) (snd r)) kvs rs)"

definition rep_blob :: "bytes option \<Rightarrow> reply option \<Rightarrow> bool" where
  "rep_blob b r = (r = map_option RBytes b)"

definition obeys :: "('w \<Rightarrow> nat) \<Rightarrow> ('w \<Rightarrow> redis_db) \<Rightarrow> ('w \<Rightarrow> 'o) \<Rightarrow> ('r \<Rightarrow> 'a \<Rightarrow> bool) \<Rightarrow> 'r cmd
    \<Rightarrow> ('w, 'a) io \<Rightarrow> bool" where
  "obeys now db rest rep c m = (\<forall>w. wp m
     (\<lambda>x w'. now w \<le> now w' \<and> rest w' = rest w
        \<and> (\<exists>r. c (now w') (purge (now w') (db w)) = (Some r, db w') \<and> rep r x))
     (\<lambda>e w'. now w \<le> now w' \<and> rest w' = rest w \<and> is_RedisError e
        \<and> (db w' = purge (now w') (db w) \<or> db w' = snd (c (now w') (purge (now w') (db w))))) w)"

lemma obeysD: "obeys now db rest rep c m \<Longrightarrow> wp m
     (\<lambda>x w'. now w \<le> now w' \<and> rest w' = rest w
        \<and> (\<exists>r. c (now w') (purge (now w') (db w)) = (Some r, db w') \<and> rep r x))
     (\<lambda>e w'. now w \<le> now w' \<and> rest w' = rest w \<and> is_RedisError e
        \<and> (db w' = purge (now w') (db w) \<or> db w' = snd (c (now w') (purge (now w') (db w))))) w"
  by (simp add: obeys_def)

locale redis_server =
  fixes R :: "'w redis_client"
    and now :: "'w \<Rightarrow> nat"
    and db :: "'w \<Rightarrow> redis_db"
    and rest :: "'w \<Rightarrow> 'o"
  assumes hgetall: "obeys now db rest rep_hash (cmd_hgetall k) (r_hgetall R k)"
    and hget: "obeys now db rest (rel_option rep_str) (cmd_hget k f) (r_hget R k f)"
    and hexists: "obeys now db rest (=) (cmd_hexists k f) (r_hexists R k f)"
    and hset: "obeys now db rest (=) (cmd_hset k fs) (r_hset R k fs)"
    and ttl: "obeys now db rest (=) (cmd_ttl k) (r_ttl R k)"
    and delete: "obeys now db rest (=) (cmd_delete ks) (r_delete R ks)"
    and hincrby: "obeys now db rest (=) (cmd_hincrby k f i) (r_hincrby R k f i)"
    and get: "obeys now db rest rep_blob (cmd_get k) (r_get R k)"
    and setex: "obeys now db rest (=) (cmd_set k b n) (r_set R k b n)"
    and pipeline: "obeys now db rest (=) (cmd_pipeline cs) (r_pipeline R cs)"
    and live: "purge (now w) (db w) = db w"

subsection \<open>Reading replies\<close>

fun decode_reply :: "reply \<Rightarrow> exn + string" where
  "decode_reply (RBytes b) = opt_raise UnicodeDecodeError (utf8_decode b)"
| "decode_reply (RStr s) = Inr s"

text \<open>\<open>{decode k: decode v}\<close> of the program; of equal keys the last one counts.\<close>

definition decode_dict :: "(reply \<times> reply) list \<Rightarrow> exn + (string \<times> string) list" where
  "decode_dict rs = mapR (\<lambda>(a, b). andThen (decode_reply a) (\<lambda>k.
     andThen (decode_reply b) (\<lambda>v. Inr (k, v)))) rs"

definition dict_get :: "(string \<times> string) list \<Rightarrow> string \<Rightarrow> string option" where
  "dict_get d k = map_of (rev d) k"

text \<open>\<open>int(reply)\<close>: bytes are read as ASCII.\<close>

fun int_of_reply :: "reply \<Rightarrow> exn + int" where
  "int_of_reply (RStr s) = to_int s"
| "int_of_reply (RBytes b) =
     (if list_all (\<lambda>x. x < 128) b then to_int (map char_of b) else Inl (ValueError ''int''))"

lemma decode_rep_str [simp]: "rep_str s r \<Longrightarrow> decode_reply r = Inr s"
  by (cases r) auto

lemma map_of_rev_distinct: "distinct (map fst kvs) \<Longrightarrow> map_of (rev kvs) = map_of kvs"
  by (metis distinct_rev map_of_eqI map_of_inject_set rev_map set_rev dom_map_of_conv_image_fst set_map)

lemma decode_dict_rep:
  assumes "rep_hash h rs"
  shows "\<exists>d. decode_dict rs = Inr d \<and> dict_get d = map_of h \<and> (rs = [] \<longleftrightarrow> h = [])"
proof -
  from assms obtain kvs where kvs: "map_of kvs = map_of h" "distinct (map fst kvs)"
    and rs: "list_all2 (\<lambda>kv r. rep_str (fst kv) (fst r) \<and> rep_str (snd kv) (snd r)) kvs rs"
    by (auto simp: rep_hash_def)
  from rs have "decode_dict rs = Inr kvs"
    by (induction kvs rs rule: list_all2_induct) (auto simp: decode_dict_def)
  moreover have "rs = [] \<longleftrightarrow> h = []"
    using kvs(1) rs by (cases h; cases kvs) (auto dest: fun_cong split: if_splits)
  ultimately show ?thesis
    using kvs map_of_rev_distinct [of kvs] by (auto simp: dict_get_def)
qed

lemma utf8_ascii: "list_all (\<lambda>c. code c < 128) s \<Longrightarrow> utf8_encode s = map code s"
  by (induction s) (simp_all add: utf8_encode_def)

lemma int_of_rep_str: "rep_str (str_int i) r \<Longrightarrow> int_of_reply r = Inr i"
proof (cases r)
  case (RBytes b)
  assume r: "rep_str (str_int i) r"
  have ascii: "code c < 128" if "c \<in> set (str_int i)" for c
  proof -
    have "c = CHR ''-'' \<or> is_digit c"
      using that str_nat_is_digit by (auto simp: str_int_def list_all_iff split: if_splits)
    then show ?thesis by (auto simp: is_digit_def code_def)
  qed
  then have "utf8_encode (str_int i) = map code (str_int i)"
    by (simp add: utf8_ascii list_all_iff)
  with r RBytes ascii show ?thesis by (auto simp: list_all_iff o_def)
qed simp

section \<open>A server in memory\<close>

text \<open>
  The world holds a clock, the database and a list that says which of the next commands fail.
  Every command takes a millisecond. The fields other components add to the record are
  untouched. \<open>mem_redis\<close> returns text for hashes and bytes for byte strings.
\<close>

record mem_world =
  mw_now :: nat
  mw_db :: redis_db
  mw_faults :: "bool list"

definition mem_live :: "'z mem_world_scheme \<Rightarrow> redis_db" where
  "mem_live w = purge (mw_now w) (mw_db w)"

definition run_cmd :: "('r \<Rightarrow> 'a) \<Rightarrow> 'r cmd \<Rightarrow> ('z mem_world_scheme, 'a) io" where
  "run_cmd enc c w =
     (let t = Suc (mw_now w); d = purge t (mw_db w); fs = mw_faults w;
          w' = w\<lparr>mw_now := t, mw_faults := tl fs\<rparr>
      in if fs \<noteq> [] \<and> hd fs then (Inl (RedisError ''Connection refused''), w'\<lparr>mw_db := d\<rparr>)
         else (case c t d of
                 (Some r, d') \<Rightarrow> (Inr (enc r), w'\<lparr>mw_db := purge t d'\<rparr>)
               | (None, d') \<Rightarrow> (Inl (RedisError ''WRONGTYPE''), w'\<lparr>mw_db := purge t d'\<rparr>)))"

definition mem_redis :: "'z mem_world_scheme redis_client" where
  "mem_redis = \<lparr>
     r_hgetall = (\<lambda>k. run_cmd (\<lambda>h. map (\<lambda>(a, b). (RStr a, RStr b)) (AList.clearjunk h)) (cmd_hgetall k)),
     r_hget = (\<lambda>k f. run_cmd (map_option RStr) (cmd_hget k f)),
     r_hexists = (\<lambda>k f. run_cmd id (cmd_hexists k f)),
     r_hset = (\<lambda>k fs. run_cmd id (cmd_hset k fs)),
     r_ttl = (\<lambda>k. run_cmd id (cmd_ttl k)),
     r_delete = (\<lambda>ks. run_cmd id (cmd_delete ks)),
     r_hincrby = (\<lambda>k f i. run_cmd id (cmd_hincrby k f i)),
     r_get = (\<lambda>k. run_cmd (map_option RBytes) (cmd_get k)),
     r_set = (\<lambda>k b n. run_cmd id (cmd_set k b n)),
     r_pipeline = (\<lambda>cs. run_cmd id (cmd_pipeline cs))\<rparr>"

text \<open>No command leaves an expired key behind.\<close>

lemma obeys_run_cmd:
  fixes c :: "'r cmd" and enc :: "'r \<Rightarrow> 'a"
  assumes rep: "\<And>r. rep r (enc r)"
    and live: "\<And>t d. purge t d = d \<Longrightarrow> purge t (snd (c t d)) = snd (c t d)"
  shows "obeys (mw_now :: 'z mem_world_scheme \<Rightarrow> nat) mem_live mem_world.more rep c (run_cmd enc c)"
  unfolding obeys_def
proof
  fix w :: "'z mem_world_scheme"
  let ?t = "Suc (mw_now w)"
  let ?d = "purge ?t (mw_db w)"
  have d: "purge ?t (mem_live w) = ?d" by (simp add: mem_live_def)
  have l: "purge ?t (snd (c ?t ?d)) = snd (c ?t ?d)" by (rule live) simp
  show "wp (run_cmd enc c)
       (\<lambda>x w'. mw_now w \<le> mw_now w' \<and> mem_world.more w' = mem_world.more w \<and>
          (\<exists>r. c (mw_now w') (purge (mw_now w') (mem_live w)) = (Some r, mem_live w') \<and> rep r x))
       (\<lambda>e w'. mw_now w \<le> mw_now w' \<and> mem_world.more w' = mem_world.more w \<and> is_RedisError e \<and>
          (mem_live w' = purge (mw_now w') (mem_live w) \<or>
           mem_live w' = snd (c (mw_now w') (purge (mw_now w') (mem_live w))))) w"
    using rep l
    by (auto simp: wp_def run_cmd_def Let_def d split: option.splits prod.splits)
      (simp_all add: mem_live_def d [unfolded mem_live_def])
qed

lemma purge_upd_None: "purge t d = d \<Longrightarrow> purge t (d(k := None)) = d(k := None)"
  by (auto simp: purge_def fun_eq_iff)

lemma purge_upd: "purge t d = d \<Longrightarrow> (case e of None \<Rightarrow> True | Some x \<Rightarrow> t < x)
    \<Longrightarrow> purge t (d(k \<mapsto> (v, e))) = d(k \<mapsto> (v, e))"
  by (auto simp: purge_def fun_eq_iff split: option.splits)

lemma purge_put_hash: "purge t d = d \<Longrightarrow> purge t (put_hash d k h) = put_hash d k h"
proof -
  assume d: "purge t d = d"
  have "case e of None \<Rightarrow> True | Some x \<Rightarrow> t < x" if "d k = Some (v, e)" for v e
    using that d purge_Some_iff [of t d k v e] by simp
  then show ?thesis
    unfolding put_hash_def by (intro purge_upd d) (auto split: option.splits)
qed

lemma purge_restrict: "purge t d = d \<Longrightarrow> purge t (d |` A) = d |` A"
  by (auto simp: purge_def fun_eq_iff restrict_map_def)

lemma live_commands:
  assumes "purge t d = d"
  shows "purge t (snd (cmd_hset k fs t d)) = snd (cmd_hset k fs t d)"
    and "purge t (snd (cmd_expire k n t d)) = snd (cmd_expire k n t d)"
    and "purge t (snd (cmd_hincrby k f i t d)) = snd (cmd_hincrby k f i t d)"
    and "purge t (snd (cmd_set k b n t d)) = snd (cmd_set k b n t d)"
    and "purge t (snd (cmd_delete ks t d)) = snd (cmd_delete ks t d)"
  using assms
  by (auto simp: cmd_hset_def cmd_expire_def cmd_hincrby_def cmd_set_def cmd_delete_def purge_put_hash
      purge_restrict intro!: purge_upd purge_upd_None split: option.splits)

lemma live_pipeline:
  "purge t d = d \<Longrightarrow> purge t (snd (cmd_pipeline cs t d)) = snd (cmd_pipeline cs t d)"
proof (induction cs arbitrary: d)
  case (Cons c cs)
  then have "purge t (snd (pipe_step c t d)) = snd (pipe_step c t d)"
    by (cases c) (simp_all add: live_commands)
  then have "purge t (snd (cmd_pipeline cs t (snd (pipe_step c t d))))
      = snd (cmd_pipeline cs t (snd (pipe_step c t d)))"
    by (rule Cons.IH)
  then show ?case by (simp add: Let_def split_beta)
qed simp

lemma rep_hash_clearjunk:
  "rep_hash h (map (\<lambda>(a, b). (RStr a, RStr b)) (AList.clearjunk h))"
  unfolding rep_hash_def
  by (intro exI [of _ "AList.clearjunk h"])
    (auto simp: map_of_clearjunk list_all2_conv_all_nth split: prod.splits)

interpretation mem: redis_server mem_redis mw_now mem_live mem_world.more
proof unfold_locales
  show "purge (mw_now w) (mem_live w) = mem_live w" for w :: "'z mem_world_scheme"
    by (simp add: mem_live_def)
qed (auto simp: mem_redis_def rep_hash_clearjunk rep_blob_def live_commands live_pipeline option.rel_map
    cmd_hgetall_def cmd_hget_def cmd_hexists_def cmd_ttl_def cmd_get_def
    intro!: obeys_run_cmd option.rel_refl split: option.splits rvalue.splits)

end
