(* ===== verification/Key_Builder.thy ===== *)
theory Key_Builder
  imports Exceptions
begin

text \<open>
  \<open>src/infrastructure/redis/key_builder.py\<close>, and the keys that the session store and the use cases
  build themselves (session expiry metadata, chunk data). \<open>None\<close> and values of the wrong type are
  excluded by typing; the NIL UUID is rejected. The lemmas of \<open>keys_inj\<close> and \<open>keys_disjoint\<close> say
  that two resources share a key only if they are the same: the isolation of workspaces and of
  the kinds of data rests on them.
\<close>

definition validate_workspace_id :: "uuid \<Rightarrow> exn + unit" where
  "validate_workspace_id ws = check (ws \<noteq> 0) (ValueError ''NIL UUID not allowed for workspace_id'')"

definition validate_document_id :: "uuid \<Rightarrow> exn + unit" where
  "validate_document_id d = check (d \<noteq> 0) (ValueError ''NIL UUID not allowed for document_id'')"

text \<open>The key texts.\<close>

definition session_key_text :: "uuid \<Rightarrow> uuid \<Rightarrow> string" where
  "session_key_text ws sid = ''session:workspace_'' @ uuid_str ws @ '':document_'' @ uuid_str sid"

definition dedup_key_text :: "uuid \<Rightarrow> string" where
  "dedup_key_text ws = ''dedup:workspace_'' @ uuid_str ws"

definition rate_limit_key_text :: "uuid \<Rightarrow> string" where
  "rate_limit_key_text ws = ''ratelimit:workspace_'' @ uuid_str ws"

definition expiry_key :: "uuid \<Rightarrow> string" where
  "expiry_key sid = ''session:expiry:'' @ uuid_str sid"

definition chunk_key :: "uuid \<Rightarrow> uuid \<Rightarrow> string \<Rightarrow> string" where
  "chunk_key ws sid i = ''chunk:workspace_'' @ uuid_str ws @ '':session_'' @ uuid_str sid @ '':index_'' @ i"

text \<open>The functions of the module.\<close>

definition session_key :: "uuid \<Rightarrow> uuid \<Rightarrow> exn + string" where
  "session_key ws sid = andThen (validate_workspace_id ws) (\<lambda>_.
     andThen (validate_document_id sid) (\<lambda>_. Inr (session_key_text ws sid)))"

definition dedup_key :: "uuid \<Rightarrow> exn + string" where
  "dedup_key ws = andThen (validate_workspace_id ws) (\<lambda>_. Inr (dedup_key_text ws))"

definition rate_limit_key :: "uuid \<Rightarrow> exn + string" where
  "rate_limit_key ws = andThen (validate_workspace_id ws) (\<lambda>_. Inr (rate_limit_key_text ws))"

definition rate_limit_field :: string where
  "rate_limit_field = ''active_uploads''"

section \<open>When a key exists\<close>

lemma session_key_Inr [simp]: "ws \<noteq> 0 \<Longrightarrow> sid \<noteq> 0 \<Longrightarrow> session_key ws sid = Inr (session_key_text ws sid)"
  by (simp add: session_key_def validate_workspace_id_def validate_document_id_def)

lemma dedup_key_Inr [simp]: "ws \<noteq> 0 \<Longrightarrow> dedup_key ws = Inr (dedup_key_text ws)"
  by (simp add: dedup_key_def validate_workspace_id_def)

lemma rate_limit_key_Inr [simp]: "ws \<noteq> 0 \<Longrightarrow> rate_limit_key ws = Inr (rate_limit_key_text ws)"
  by (simp add: rate_limit_key_def validate_workspace_id_def)

lemma key_Inr_iff:
  "session_key ws sid = Inr k \<longleftrightarrow> ws \<noteq> 0 \<and> sid \<noteq> 0 \<and> k = session_key_text ws sid"
  "dedup_key ws = Inr k \<longleftrightarrow> ws \<noteq> 0 \<and> k = dedup_key_text ws"
  "rate_limit_key ws = Inr k \<longleftrightarrow> ws \<noteq> 0 \<and> k = rate_limit_key_text ws"
  by (auto simp: session_key_def dedup_key_def rate_limit_key_def validate_workspace_id_def
      validate_document_id_def)

lemma key_NIL [simp]:
  "session_key 0 sid = Inl (ValueError ''NIL UUID not allowed for workspace_id'')"
  "dedup_key 0 = Inl (ValueError ''NIL UUID not allowed for workspace_id'')"
  "rate_limit_key 0 = Inl (ValueError ''NIL UUID not allowed for workspace_id'')"
  by (simp_all add: session_key_def dedup_key_def rate_limit_key_def validate_workspace_id_def)

section \<open>Keys identify their resource\<close>

lemma uuid_str_append [simp]: "uuid_str a @ x = uuid_str b @ y \<longleftrightarrow> a = b \<and> x = y"
  using append_eq_append_conv [of "uuid_str a" "uuid_str b" x y] by auto

lemma keys_inj [simp]:
  "session_key_text ws sid = session_key_text ws' sid' \<longleftrightarrow> ws = ws' \<and> sid = sid'"
  "dedup_key_text ws = dedup_key_text ws' \<longleftrightarrow> ws = ws'"
  "rate_limit_key_text ws = rate_limit_key_text ws' \<longleftrightarrow> ws = ws'"
  "expiry_key sid = expiry_key sid' \<longleftrightarrow> sid = sid'"
  "chunk_key ws sid i = chunk_key ws' sid' i' \<longleftrightarrow> ws = ws' \<and> sid = sid' \<and> i = i'"
  by (simp_all add: session_key_text_def dedup_key_text_def rate_limit_key_text_def expiry_key_def
      chunk_key_def)

lemma keys_disjoint_half:
  "session_key_text ws sid \<noteq> expiry_key sid'"
  "session_key_text ws sid \<noteq> dedup_key_text ws'"
  "session_key_text ws sid \<noteq> rate_limit_key_text ws'"
  "session_key_text ws sid \<noteq> chunk_key ws' sid' i"
  "expiry_key sid \<noteq> dedup_key_text ws'"
  "expiry_key sid \<noteq> rate_limit_key_text ws'"
  "expiry_key sid \<noteq> chunk_key ws' sid' i"
  "dedup_key_text ws \<noteq> rate_limit_key_text ws'"
  "dedup_key_text ws \<noteq> chunk_key ws' sid' i"
  "rate_limit_key_text ws \<noteq> chunk_key ws' sid' i"
  by (simp_all add: session_key_text_def dedup_key_text_def rate_limit_key_text_def expiry_key_def
      chunk_key_def)

lemmas keys_disjoint [simp] = keys_disjoint_half keys_disjoint_half [symmetric]

end
