(* ===== verification/Serialization.thy ===== *)
theory Serialization
  imports Protocols Redis_Client Key_Builder
begin

text \<open>
  How the Redis classes write sessions and file metadata: the private methods \<open>_serialize_\<dots>\<close> and
  \<open>_deserialize_\<dots>\<close> of \<open>src/infrastructure/redis/session_store.py\<close> and \<open>deduplication_store.py\<close>, with
  their round trips \<open>deserialize_serialize\<close> and \<open>deserialize_serialize_metadata\<close>; and the abstraction
  function \<open>store_of\<close>, which reads the abstract store of \<open>Protocols\<close> off a Redis database, with the
  lemmas that say how it follows time and the writes of the commands.
\<close>

section \<open>Sessions\<close>

definition serialize_session :: "UploadSession \<Rightarrow> (string \<times> string) list" where
  "serialize_session s =
     [(''session_id'', uuid_str (session_id s)),
      (''workspace_id'', uuid_str (workspace_id s)),
      (''filename'', filename s),
      (''size'', str_int (file_size s)),
      (''mime_type'', mime_type s),
      (''sha256_checksum'', hash_value (sha256_checksum s)),
      (''offset'', str_int (offset s)),
      (''status'', status_value (status s)),
      (''created_at'', isoformat (created_at s)),
      (''expires_at'', isoformat (expires_at s)),
      (''chunk_manifest'', json_dumps (JArr (chunk_manifest s)))]"

definition dict_item :: "(string \<Rightarrow> string option) \<Rightarrow> string \<Rightarrow> exn + string" where
  "dict_item d k = opt_raise (KeyError k) (d k)"

definition deserialize_session :: "(string \<Rightarrow> string option) \<Rightarrow> exn + UploadSession" where
  "deserialize_session d =
     andThen (dict_item d ''chunk_manifest'') (\<lambda>raw.
     andThen (to_json raw) (\<lambda>j.
     andThen (case j of JArr xs \<Rightarrow> Inr xs
              | _ \<Rightarrow> Inl (SerializationError
                         (''chunk_manifest must be a list, got '' @ json_type_name j))) (\<lambda>manifest.
     andThen (andThen (dict_item d ''session_id'') to_UUID) (\<lambda>sid.
     andThen (andThen (dict_item d ''workspace_id'') to_UUID) (\<lambda>ws.
     andThen (dict_item d ''filename'') (\<lambda>fn.
     andThen (andThen (dict_item d ''size'') to_int) (\<lambda>sz.
     andThen (dict_item d ''mime_type'') (\<lambda>mt.
     andThen (andThen (dict_item d ''sha256_checksum'') mk_SHA256Hash) (\<lambda>h.
     andThen (andThen (dict_item d ''offset'') to_int) (\<lambda>off.
     andThen (andThen (dict_item d ''status'') to_SessionStatus) (\<lambda>st.
     andThen (andThen (dict_item d ''created_at'') to_datetime) (\<lambda>c.
     andThen (andThen (dict_item d ''expires_at'') to_datetime) (\<lambda>e.
       UploadSession_post_init \<lparr>session_id = sid, workspace_id = ws, filename = fn, file_size = sz,
         mime_type = mt, sha256_checksum = h, offset = off, status = st, created_at = c,
         expires_at = e, chunk_manifest = manifest\<rparr>)))))))))))))"

lemma dict_item_Some [simp]: "d k = Some v \<Longrightarrow> dict_item d k = Inr v"
  by (simp add: dict_item_def)

lemma deserialize_agree:
  assumes s: "storable s" and d: "\<And>k v. (k, v) \<in> set (serialize_session s) \<Longrightarrow> d k = Some v"
  shows "deserialize_session d = Inr s"
proof -
  have "to_json (json_dumps (JArr (chunk_manifest s))) = Inr (JArr (chunk_manifest s))"
    using s by (intro to_json_dumps) (simp add: storable_def list_all_iff)
  moreover have "d ''chunk_manifest'' = Some (json_dumps (JArr (chunk_manifest s)))"
    "d ''session_id'' = Some (uuid_str (session_id s))"
    "d ''workspace_id'' = Some (uuid_str (workspace_id s))"
    "d ''filename'' = Some (filename s)" "d ''size'' = Some (str_int (file_size s))"
    "d ''mime_type'' = Some (mime_type s)"
    "d ''sha256_checksum'' = Some (hash_value (sha256_checksum s))"
    "d ''offset'' = Some (str_int (offset s))" "d ''status'' = Some (status_value (status s))"
    "d ''created_at'' = Some (isoformat (created_at s))"
    "d ''expires_at'' = Some (isoformat (expires_at s))"
    by (rule d, simp add: serialize_session_def del: json_dumps.simps)+
  moreover have "UploadSession_post_init \<lparr>session_id = session_id s, workspace_id = workspace_id s, filename = filename s,
      file_size = file_size s, mime_type = mime_type s, sha256_checksum = sha256_checksum s,
      offset = offset s, status = status s, created_at = created_at s, expires_at = expires_at s,
      chunk_manifest = chunk_manifest s\<rparr> = Inr s"
    using s by (cases s) (simp add: storable_def)
  ultimately show ?thesis
    using s by (simp add: deserialize_session_def storable_def del: json_dumps.simps)
qed

lemma distinct_serialize: "distinct (map fst (serialize_session s))"
  by (simp add: serialize_session_def)

lemma deserialize_serialize:
  "storable s \<Longrightarrow> deserialize_session (map_of (serialize_session s)) = Inr s"
  by (rule deserialize_agree) (simp_all add: distinct_serialize map_of_is_SomeI)

section \<open>File metadata\<close>

definition serialize_metadata :: "FileMetadata \<Rightarrow> exn + string" where
  "serialize_metadata m =
     andThen (check (is_aware (fm_uploaded_at m))
       (ValueError ''metadata.uploaded_at must be timezone-aware'')) (\<lambda>_.
     Inr (json_dumps (JObj
       [(''file_id'', JStr (uuid_str (fm_file_id m))),
        (''s3_path'', JStr (fm_s3_path m)),
        (''size'', JInt (fm_size m)),
        (''uploaded_at'', JStr (replace_str ''+00:00'' ''Z'' (isoformat (fm_uploaded_at m))))])))"

text \<open>What Python does with a JSON value that has not the expected type.\<close>

definition json_UUID :: "json \<Rightarrow> exn + uuid" where
  "json_UUID j = (case j of
     JStr s \<Rightarrow> to_UUID s
   | JNull \<Rightarrow> Inl (TypeError ''UUID'')
   | _ \<Rightarrow> Inl (AttributeError ''replace''))"

definition json_str_method :: "string \<Rightarrow> json \<Rightarrow> exn + string" where
  "json_str_method name j = (case j of JStr s \<Rightarrow> Inr s | _ \<Rightarrow> Inl (AttributeError name))"

definition json_number :: "json \<Rightarrow> exn + int" where
  "json_number j = (case j of
     JInt i \<Rightarrow> Inr i
   | JBool b \<Rightarrow> Inr (if b then 1 else 0)
   | _ \<Rightarrow> Inl (TypeError ''<''))"

definition json_falsy :: "json \<Rightarrow> bool" where
  "json_falsy j = (j \<in> {JNull, JBool False, JInt 0, JStr [], JArr [], JObj []})"

definition build_metadata :: "uuid \<Rightarrow> json \<Rightarrow> json \<Rightarrow> datetime \<Rightarrow> exn + FileMetadata" where
  "build_metadata fid path sz at =
     andThen (json_number sz) (\<lambda>n.
     andThen (check (n \<ge> 0) (ValueError (''size must be non-negative, got '' @ str_int n))) (\<lambda>_.
     andThen (check (is_aware at) (ValueError ''uploaded_at must be timezone-aware'')) (\<lambda>_.
     andThen (check (\<not> json_falsy path) (ValueError ''s3_path cannot be empty'')) (\<lambda>_.
     andThen (json_str_method ''strip'' path) (\<lambda>p.
       FileMetadata_post_init \<lparr>fm_file_id = fid, fm_s3_path = p, fm_size = n, fm_uploaded_at = at\<rparr>)))))"

definition parse_metadata :: "json \<Rightarrow> exn + FileMetadata" where
  "parse_metadata j =
     andThen (andThen (json_item j ''file_id'') json_UUID) (\<lambda>fid.
     andThen (json_item j ''s3_path'') (\<lambda>path.
     andThen (json_item j ''size'') (\<lambda>sz.
     andThen (andThen (andThen (json_item j ''uploaded_at'') (json_str_method ''replace''))
                (\<lambda>s. to_datetime (replace_str ''Z'' ''+00:00'' s))) (\<lambda>at.
       build_metadata fid path sz at))))"

definition deserialize_metadata :: "reply \<Rightarrow> exn + FileMetadata" where
  "deserialize_metadata r =
     (case andThen (andThen (decode_reply r) to_json) parse_metadata of
        Inr m \<Rightarrow> Inr m
      | Inl e \<Rightarrow>
          if is_KeyError e \<or> is_ValueError e \<or> is_TypeError e
          then Inl (SerializationError (''Failed to deserialize file metadata: '' @ exn_str e))
          else Inl e)"

text \<open>Bad data raises one of Python's data errors.\<close>

definition data_error :: "exn \<Rightarrow> bool" where
  "data_error e = (is_KeyError e \<or> is_ValueError e \<or> is_TypeError e \<or> (\<exists>m. e = AttributeError m))"

lemma data_error_intros [simp]:
  "data_error (KeyError m)" "data_error (ValueError m)" "data_error (TypeError m)"
  "data_error (AttributeError m)" "data_error UnicodeDecodeError" "data_error JSONDecodeError"
  by (simp_all add: data_error_def)

lemma data_error_not [simp]: "data_error e \<Longrightarrow> \<not> is_RedisError e"
  by (cases e) (simp_all add: data_error_def)

lemma data_errors:
  "json_item j k = Inl e \<Longrightarrow> data_error e"
  "json_UUID j = Inl e \<Longrightarrow> data_error e"
  "json_str_method m j = Inl e \<Longrightarrow> data_error e"
  "json_number j = Inl e \<Longrightarrow> data_error e"
  "to_UUID s = Inl e \<Longrightarrow> data_error e"
  "to_datetime s = Inl e \<Longrightarrow> data_error e"
  "to_json s = Inl e \<Longrightarrow> data_error e"
  "decode_reply r = Inl e \<Longrightarrow> data_error e"
  "FileMetadata_post_init md = Inl e \<Longrightarrow> data_error e"
  by (auto simp: json_item_def json_UUID_def json_str_method_def json_number_def to_UUID_def
      to_datetime_def to_json_def opt_raise_def FileMetadata_post_init_def andThen_eq_Inl
      split: json.splits option.splits elim!: decode_reply.elims)

lemma parse_metadata_error: "parse_metadata j = Inl e \<Longrightarrow> data_error e"
  unfolding parse_metadata_def build_metadata_def
  by (auto simp: andThen_eq_Inl dest: data_errors)

lemma deserialize_metadata_error: "deserialize_metadata r = Inl e \<Longrightarrow> \<not> is_RedisError e"
  unfolding deserialize_metadata_def
  by (auto simp: andThen_eq_Inl dest!: data_errors parse_metadata_error split: sum.splits if_splits)

lemma replace_str_prefix: "p \<noteq> [] \<Longrightarrow> replace_str p q (p @ r) = q @ replace_str p q r"
proof -
  assume "p \<noteq> []"
  then obtain x xs where p: "p = x # xs" by (cases p) auto
  show ?thesis
    unfolding p append_Cons replace_str.simps
    using starts_with_append [of "x # xs" r] by simp
qed

lemma replace_back:
  "p \<noteq> [] \<Longrightarrow> c \<notin> set s \<Longrightarrow> replace_str [c] p (replace_str p [c] s) = s"
proof (induction "length s" arbitrary: s rule: less_induct)
  case less
  show ?case
  proof (cases "starts_with p s")
    case True
    then obtain r where r: "s = p @ r" by (auto simp: starts_with_iff)
    then have "replace_str [c] p (replace_str p [c] r) = r"
      using less.prems by (intro less.hyps) auto
    moreover have "replace_str p [c] s = [c] @ replace_str p [c] r"
      unfolding r by (rule replace_str_prefix [OF less.prems(1)])
    moreover have "replace_str [c] p ([c] @ replace_str p [c] r) = p @ replace_str [c] p (replace_str p [c] r)"
      by (rule replace_str_prefix) simp
    ultimately show ?thesis by (simp only: r)
  next
    case False
    show ?thesis
    proof (cases s)
      case (Cons x xs)
      then have "replace_str [c] p (replace_str p [c] xs) = xs"
        using less.prems by (intro less.hyps) auto
      moreover have "x \<noteq> c" using Cons less.prems by auto
      ultimately show ?thesis using False Cons less.prems(1) by (simp add: starts_with_def)
    qed simp
  qed
qed

lemma digit_char_not_Z: "d < 10 \<Longrightarrow> digit_char d \<noteq> CHR ''Z''"
  using code_digit_char [of d] by (auto simp: code_def)

lemma decn_not_Z [simp]: "CHR ''Z'' \<notin> set (decn k n)"
  using digit_char_not_Z by (induction k arbitrary: n) (auto dest!: sym [of "CHR ''Z''"])

lemma isoformat_not_Z: "CHR ''Z'' \<notin> set (isoformat d)"
  by (auto simp: isoformat_def iso_offset_def Let_def split: option.splits)

lemma uploaded_at_back:
  "replace_str ''Z'' ''+00:00'' (replace_str ''+00:00'' ''Z'' (isoformat d)) = isoformat d"
  by (rule replace_back [of "''+00:00''" "CHR ''Z''"]) (simp_all add: isoformat_not_Z)

lemma deserialize_serialize_metadata:
  "metadata_storable m \<Longrightarrow> \<exists>j. serialize_metadata m = Inr j \<and> (\<forall>r. rep_str j r \<longrightarrow> deserialize_metadata r = Inr m)"
proof -
  assume m: "metadata_storable m"
  then have ok: "metadata_ok m" "is_aware (fm_uploaded_at m)" "valid_datetime (fm_uploaded_at m)"
    by (simp_all add: metadata_storable_def metadata_ok_def)
  let ?j = "JObj [(''file_id'', JStr (uuid_str (fm_file_id m))), (''s3_path'', JStr (fm_s3_path m)),
        (''size'', JInt (fm_size m)),
        (''uploaded_at'', JStr (replace_str ''+00:00'' ''Z'' (isoformat (fm_uploaded_at m))))]"
  have "to_json (json_dumps ?j) = Inr ?j" by (rule to_json_dumps) simp
  moreover have "parse_metadata ?j = Inr m"
  proof -
    have "fm_s3_path m \<noteq> []" using ok(1) by (auto simp: metadata_ok_def)
    then show ?thesis
      using ok by (simp add: parse_metadata_def json_item_def json_UUID_def json_str_method_def
          uploaded_at_back build_metadata_def json_number_def json_falsy_def FileMetadata_post_init_iff
          metadata_ok_def)
  qed
  moreover have "serialize_metadata m = Inr (json_dumps ?j)"
    using ok(2) by (simp add: serialize_metadata_def)
  ultimately show ?thesis
    by (auto simp: deserialize_metadata_def simp del: json_dumps.simps)
qed

section \<open>The abstraction\<close>

definition timed_val :: "(rvalue \<Rightarrow> 'a option) \<Rightarrow> (rvalue \<times> nat option) option \<Rightarrow> 'a timed" where
  "timed_val f x = (case x of None \<Rightarrow> None | Some (v, e) \<Rightarrow> map_option (\<lambda>y. (y, e)) (f v))"

definition timed_at :: "(rvalue \<Rightarrow> 'a option) \<Rightarrow> redis_db \<Rightarrow> string \<Rightarrow> 'a timed" where
  "timed_at f d k = timed_val f (d k)"

definition session_value :: "rvalue \<Rightarrow> UploadSession option option" where
  "session_value v = Some (case v of
     RHash h \<Rightarrow> (case deserialize_session (map_of h) of Inr s \<Rightarrow> Some s | Inl _ \<Rightarrow> None)
   | RBlob _ \<Rightarrow> None)"

definition metadata_of_dict :: "(string \<Rightarrow> string option) \<Rightarrow> ExpiryMetadata" where
  "metadata_of_dict d = (let g = (\<lambda>k. case d k of None \<Rightarrow> [] | Some v \<Rightarrow> v) in
     \<lparr>em_session_id = g ''session_id'', em_workspace_id = g ''workspace_id'',
      em_expires_at = g ''expires_at'', em_filename = g ''filename''\<rparr>)"

definition expired_value :: "rvalue \<Rightarrow> ExpiryMetadata option" where
  "expired_value v = (case v of
     RHash h \<Rightarrow> if h = [] then None else Some (metadata_of_dict (map_of h)) | RBlob _ \<Rightarrow> None)"

definition counter_value :: "rvalue \<Rightarrow> int option option" where
  "counter_value v = (case v of
     RHash h \<Rightarrow> Some (counter_of (map_of h rate_limit_field)) | RBlob _ \<Rightarrow> Some None)"

definition chunk_value :: "rvalue \<Rightarrow> bytes option" where
  "chunk_value v = (case v of RBlob b \<Rightarrow> Some b | RHash _ \<Rightarrow> None)"

definition file_value :: "string \<Rightarrow> rvalue \<Rightarrow> FileMetadata option option" where
  "file_value sha v = (case v of
     RHash h \<Rightarrow> map_option (\<lambda>j. case deserialize_metadata (RStr j) of Inr m \<Rightarrow> Some m | Inl _ \<Rightarrow> None)
       (map_of h sha)
   | RBlob _ \<Rightarrow> None)"

definition store_of :: "nat \<Rightarrow> redis_db \<Rightarrow> store" where
  "store_of t d = \<lparr>st_now = t,
     st_sessions = (\<lambda>ws sid. timed_at session_value d (session_key_text ws sid)),
     st_expired = (\<lambda>sid. timed_at expired_value d (expiry_key sid)),
     st_counters = (\<lambda>ws. timed_at counter_value d (rate_limit_key_text ws)),
     st_chunks = (\<lambda>ws sid i. timed_at chunk_value d (chunk_key ws sid i)),
     st_files = (\<lambda>ws h. timed_at (file_value h) d (dedup_key_text ws))\<rparr>"

subsection \<open>Time\<close>

lemma timed_at_purge: "timed_at f (purge t d) k = tick_value t (timed_at f d k)"
  by (auto simp: timed_at_def timed_val_def purge_def tick_value_def split: option.splits)

lemma store_of_purge: "store_of t (purge t d) = tick t (store_of t0 d)"
  by (simp add: store_of_def tick_def timed_at_purge)

lemma store_of_passes: "t0 \<le> t \<Longrightarrow> passes (store_of t0 d) (store_of t (purge t d))"
  by (simp add: passes_def store_of_purge [of t d t0]) (simp add: store_of_def)

subsection \<open>Writes\<close>

lemma timed_val_simps [simp]:
  "timed_val f None = None"
  "timed_val f (Some (v, e)) = map_option (\<lambda>y. (y, e)) (f v)"
  by (simp_all add: timed_val_def)

lemma timed_at_upd [simp]:
  "timed_at f (d(k := x)) k' = (if k' = k then timed_val f x else timed_at f d k')"
  by (simp add: timed_at_def)

text \<open>A write to the key of a resource changes that resource and nothing else.\<close>

lemma store_of_upd:
  "store_of t (d(session_key_text ws sid := x)) = (store_of t d)\<lparr>st_sessions :=
     (st_sessions (store_of t d))(ws := (st_sessions (store_of t d) ws)(sid := timed_val session_value x))\<rparr>"
  "store_of t (d(expiry_key sid := x)) = (store_of t d)\<lparr>st_expired :=
     (st_expired (store_of t d))(sid := timed_val expired_value x)\<rparr>"
  "store_of t (d(rate_limit_key_text ws := x)) = (store_of t d)\<lparr>st_counters :=
     (st_counters (store_of t d))(ws := timed_val counter_value x)\<rparr>"
  "store_of t (d(chunk_key ws sid i := x)) = put_chunk ws sid i (timed_val chunk_value x) (store_of t d)"
  "store_of t (d(dedup_key_text ws := x)) = (store_of t d)\<lparr>st_files :=
     (st_files (store_of t d))(ws := (\<lambda>h. timed_val (file_value h) x))\<rparr>"
  by (simp_all add: store_of_def put_chunk_def fun_eq_iff)

definition key_expiry :: "redis_db \<Rightarrow> string \<Rightarrow> nat option" where
  "key_expiry d k = (case d k of None \<Rightarrow> None | Some (_, e) \<Rightarrow> e)"

lemma put_hash_upd: "put_hash d k h = d(k \<mapsto> (RHash h, key_expiry d k))"
  by (simp add: put_hash_def key_expiry_def)

lemma key_expiry_timed: "timed_at f d k \<noteq> None \<Longrightarrow> expiry_of (timed_at f d k) = key_expiry d k"
  by (auto simp: timed_at_def timed_val_def key_expiry_def expiry_of_def split: option.splits)

lemma map_of_hset_fields:
  "distinct (map fst fs) \<Longrightarrow> map_of (hset_fields fs h) = map_of h ++ map_of fs"
proof (induction fs arbitrary: h)
  case (Cons p fs)
  obtain f v where p: "p = (f, v)" by fastforce
  have "map_of (hset_fields (p # fs) h) = map_of (hset_fields fs (AList.update f v h))"
    by (simp add: hset_fields_def p)
  also have "\<dots> = map_of (AList.update f v h) ++ map_of fs"
    using Cons by (simp add: p)
  also have "\<dots> = map_of h ++ map_of (p # fs)"
  proof -
    have "f \<notin> dom (map_of fs)" using Cons.prems by (simp add: p dom_map_of_conv_image_fst)
    then show ?thesis by (simp add: p update_conv' map_add_upd_left)
  qed
  finally show ?case .
qed (simp add: hset_fields_def)

lemma hset_fields_get: "distinct (map fst fs) \<Longrightarrow> (k, v) \<in> set fs \<Longrightarrow> map_of (hset_fields fs h) k = Some v"
  by (simp add: map_of_hset_fields map_add_def map_of_is_SomeI)

lemma hset_fields_not_Nil: "fs \<noteq> [] \<Longrightarrow> distinct (map fst fs) \<Longrightarrow> hset_fields fs h \<noteq> []"
proof -
  assume fs: "fs \<noteq> []" "distinct (map fst fs)"
  then obtain k v where "(k, v) \<in> set fs" by (cases fs) auto
  with fs(2) have "map_of (hset_fields fs h) k = Some v" by (simp add: hset_fields_get)
  then show ?thesis by auto
qed

text \<open>What a world whose Redis server is read by \<open>now\<close> and \<open>db\<close> stores.\<close>

definition redis_view :: "('w \<Rightarrow> nat) \<Rightarrow> ('w \<Rightarrow> redis_db) \<Rightarrow> 'w \<Rightarrow> store" where
  "redis_view now db w = store_of (now w) (db w)"

lemma redis_view_passes: "now w \<le> t \<Longrightarrow> passes (redis_view now db w) (store_of t (purge t (db w)))"
  unfolding redis_view_def by (rule store_of_passes)

lemma st_now_store_of [simp]: "st_now (store_of t d) = t"
  by (simp add: store_of_def)

lemma obeys_view:
  assumes "obeys now db rest rep c m"
  shows "wp m
     (\<lambda>x w'. rest w' = rest w \<and> (\<exists>d r. passes (redis_view now db w) (store_of (now w') d)
        \<and> c (now w') d = (Some r, db w') \<and> rep r x))
     (\<lambda>e w'. rest w' = rest w \<and> is_RedisError e \<and> (\<exists>d. passes (redis_view now db w) (store_of (now w') d)
        \<and> (db w' = d \<or> db w' = snd (c (now w') d)))) w"
  by (rule wp_use [OF obeysD [OF assms]]) (auto intro: redis_view_passes [of now w _ db])

lemma obeys_read:
  assumes "obeys now db rest rep c m" and read: "\<And>t d. snd (c t d) = d"
  shows "wp m
     (\<lambda>x w'. rest w' = rest w \<and> passes (redis_view now db w) (redis_view now db w')
        \<and> (\<exists>r. fst (c (now w') (db w')) = Some r \<and> rep r x))
     (\<lambda>e w'. rest w' = rest w \<and> passes (redis_view now db w) (redis_view now db w')
        \<and> is_RedisError e) w"
proof (rule wp_use [OF obeys_view [OF assms(1)]], goal_cases)
  case (1 x w')
  then obtain d r where d: "passes (redis_view now db w) (store_of (now w') d)"
    "c (now w') d = (Some r, db w')" "rep r x" by blast
  then have "d = db w'" using read [of "now w'" d] by simp
  with 1 d show ?case by (auto simp: redis_view_def)
next
  case (2 e w')
  then show ?case using read by (auto simp: redis_view_def)
qed

context redis_server
begin

lemma view_refl: "passes (redis_view now db w) (redis_view now db w)"
  using redis_view_passes [of now w "now w" db] live [of w] by (simp add: redis_view_def)

end

end
