(* ===== verification/Rate_Limiter.thy ===== *)
theory Rate_Limiter
  imports Serialization
begin

text \<open>
  \<open>src/application/services/rate_limiter.py\<close>: the number of active uploads of a workspace, a field
  of a Redis hash. The methods are the \<open>rrl_\<dots>\<close> functions; \<open>mk_RedisRateLimiter\<close> is the constructor.
  \<open>sublocale\<close> proves the contract \<open>rate_limiter\<close> on every server that behaves like Redis, for calls
  that do not overlap: \<open>HGET\<close> and \<open>HINCRBY\<close> are two commands, and calls that overlap may pass the limit.
\<close>

section \<open>The class\<close>

text \<open>\<open>0 if current_bytes is None else int(current_bytes)\<close>.\<close>

definition read_count :: "reply option \<Rightarrow> exn + int" where
  "read_count r = (case r of None \<Rightarrow> Inr 0 | Some x \<Rightarrow> int_of_reply x)"

definition rrl_check_and_increment :: "'w redis_client \<Rightarrow> int \<Rightarrow> uuid \<Rightarrow> ('w, unit) io" where
  "rrl_check_and_increment R max_concurrent ws =
     bnd (lift (rate_limit_key ws)) (\<lambda>key.
     catch
       (bnd (r_hget R key rate_limit_field) (\<lambda>current_bytes.
        bnd (lift (read_count current_bytes)) (\<lambda>current.
        if current \<ge> max_concurrent
        then raise (new_RateLimitExceededError (uuid_str ws) current max_concurrent 60)
        else bnd (r_hincrby R key rate_limit_field 1) (\<lambda>new_count. ret ()))))
       (\<lambda>e. if is_RateLimitExceededError e then raise e
            else if is_RedisError e
              then raise (InfrastructureError (''Rate limiter unavailable: '' @ exn_str e))
            else if is_ValueError e
              then raise (InfrastructureError (''Rate limiter counter corrupted: '' @ exn_str e))
            else raise e))"

definition rrl_decrement :: "'w redis_client \<Rightarrow> uuid \<Rightarrow> ('w, unit) io" where
  "rrl_decrement R ws =
     bnd (lift (rate_limit_key ws)) (\<lambda>key.
     catch
       (bnd (r_hincrby R key rate_limit_field (- 1)) (\<lambda>new_count.
        if new_count < 0 then r_hset R key [(rate_limit_field, ''0'')] else ret ()))
       (\<lambda>e. if is_RedisError e
            then raise (InfrastructureError (''Rate limiter unavailable: '' @ exn_str e))
            else raise e))"

definition rrl_get_current_count :: "'w redis_client \<Rightarrow> uuid \<Rightarrow> ('w, int) io" where
  "rrl_get_current_count R ws =
     bnd (lift (rate_limit_key ws)) (\<lambda>key.
     catch
       (bnd (r_hget R key rate_limit_field) (\<lambda>count_bytes.
        bnd (lift (read_count count_bytes)) (\<lambda>count.
        if count < 0
        then bnd (r_hset R key [(rate_limit_field, ''0'')]) (\<lambda>_. ret 0)
        else ret count)))
       (\<lambda>e. if is_RedisError e
              then raise (InfrastructureError (''Rate limiter unavailable: '' @ exn_str e))
            else if is_ValueError e
              then raise (InfrastructureError (''Rate limiter counter corrupted: '' @ exn_str e))
            else raise e))"

definition rrl_reset :: "'w redis_client \<Rightarrow> uuid \<Rightarrow> ('w, unit) io" where
  "rrl_reset R ws =
     bnd (lift (rate_limit_key ws)) (\<lambda>key.
     catch (r_hset R key [(rate_limit_field, ''0'')])
       (\<lambda>e. if is_RedisError e
            then raise (InfrastructureError (''Rate limiter unavailable: '' @ exn_str e))
            else raise e))"

definition RedisRateLimiter :: "'w redis_client \<Rightarrow> int \<Rightarrow> 'w IRateLimiter" where
  "RedisRateLimiter R max_concurrent = \<lparr>check_and_increment = rrl_check_and_increment R max_concurrent,
     decrement = rrl_decrement R, get_current_count = rrl_get_current_count R, reset = rrl_reset R\<rparr>"

definition mk_RedisRateLimiter :: "'w redis_client \<Rightarrow> int \<Rightarrow> exn + 'w IRateLimiter" where
  "mk_RedisRateLimiter R max_concurrent =
     andThen (check (max_concurrent > 0) (ValueError ''max_concurrent_uploads must be positive''))
       (\<lambda>_. Inr (RedisRateLimiter R max_concurrent))"

lemma RedisRateLimiter_sel [simp]:
  "check_and_increment (RedisRateLimiter R n) = rrl_check_and_increment R n"
  "decrement (RedisRateLimiter R n) = rrl_decrement R"
  "get_current_count (RedisRateLimiter R n) = rrl_get_current_count R"
  "reset (RedisRateLimiter R n) = rrl_reset R"
  by (simp_all add: RedisRateLimiter_def)

section \<open>The counter in the store\<close>

lemma redis_int_str_int [simp]:
  "redis_int (str_int i) = (if - (2 ^ 63) \<le> i \<and> i < 2 ^ 63 then Some i else None)"
  by (simp add: redis_int_def)

lemma redis_int_Some: "redis_int s = Some i \<Longrightarrow> s = str_int i"
  by (auto simp: redis_int_def split: option.splits if_splits)

lemma count_in_store_of:
  "count_in (store_of t d) ws = (case hash_at d (rate_limit_key_text ws) of
     None \<Rightarrow> None | Some h \<Rightarrow> counter_of (map_of h rate_limit_field))"
  by (auto simp: count_in_def store_of_def timed_at_def timed_val_def hash_at_def counter_value_def
      counter_of_def split: option.splits rvalue.splits)

lemma put_count_store_of:
  assumes "hash_at d (rate_limit_key_text ws) = Some h" and "counter_of (map_of h' rate_limit_field) = Some n"
  shows "store_of t (put_hash d (rate_limit_key_text ws) h') = put_count ws n (store_of t d)"
proof -
  have "expiry_of (timed_at counter_value d (rate_limit_key_text ws)) = key_expiry d (rate_limit_key_text ws)"
    using assms(1) by (auto simp: hash_at_def timed_at_def timed_val_def counter_value_def key_expiry_def
        expiry_of_def split: option.splits rvalue.splits)
  moreover have "st_counters (store_of t d) ws = timed_at counter_value d (rate_limit_key_text ws)"
    by (simp add: store_of_def)
  ultimately show ?thesis
    using assms(2) by (simp add: put_hash_upd store_of_upd put_count_def counter_value_def)
qed

lemma read_count_canonical:
  assumes "counter_of v = Some n" and "rel_option rep_str v x"
  shows "read_count x = Inr n"
proof (cases v)
  case None
  with assms show ?thesis by (simp add: counter_of_def read_count_def)
next
  case (Some s)
  with assms obtain r where "x = Some r" "rep_str s r" by (auto simp: rel_option_iff split: option.splits)
  moreover have "s = str_int n" using assms(1) Some redis_int_Some by (simp add: counter_of_def)
  ultimately show ?thesis by (simp add: read_count_def int_of_rep_str)
qed

lemma hget_count:
  assumes "fst (cmd_hget (rate_limit_key_text ws) rate_limit_field t d) = Some v"
    and "rel_option rep_str v x" and "count_in (store_of t d) ws = Some n"
  shows "read_count x = Inr n"
  using assms by (auto simp: cmd_hget_def count_in_store_of intro: read_count_canonical)

lemma map_of_update_same [simp]: "map_of (AList.update k v h) k = Some v"
  by (simp add: update_conv')

lemma hincrby_count:
  assumes "cmd_hincrby (rate_limit_key_text ws) rate_limit_field i t d = (Some r, d')"
  shows "\<exists>n. count_in (store_of t d) ws = Some n \<and> r = n + i \<and> store_of t d' = put_count ws (n + i) (store_of t d)"
  using assms
  by (auto simp: cmd_hincrby_def count_in_store_of counter_of_def [of "Some _"]
      intro!: put_count_store_of split: option.splits if_splits)

lemma hincrby_snd:
  "snd (cmd_hincrby k f i t d) = d \<or> (\<exists>r. cmd_hincrby k f i t d = (Some r, snd (cmd_hincrby k f i t d)))"
  by (auto simp: cmd_hincrby_def split: option.splits)

lemma hincrby_any:
  "store_of t (snd (cmd_hincrby (rate_limit_key_text ws) rate_limit_field i t d)) = store_of t d
   \<or> (\<exists>n. count_in (store_of t d) ws = Some n
        \<and> store_of t (snd (cmd_hincrby (rate_limit_key_text ws) rate_limit_field i t d))
          = put_count ws (n + i) (store_of t d))"
  using hincrby_snd [of "rate_limit_key_text ws" rate_limit_field i t d] by (metis hincrby_count)

lemma hset_zero:
  assumes "cmd_hset (rate_limit_key_text ws) [(rate_limit_field, ''0'')] t d = (Some r, d')"
  shows "store_of t d' = put_count ws 0 (store_of t d)"
proof -
  have "str_int 0 = ''0''" by code_simp
  then have "redis_int ''0'' = Some 0" by (metis redis_int_str_int zero_less_numeral
        zero_less_power neg_le_0_iff_le less_imp_le)
  with assms show ?thesis
    by (auto simp: cmd_hset_def hset_fields_def counter_of_def [of "Some _"]
        intro!: put_count_store_of split: option.splits)
qed

lemma hset_zero_snd:
  "store_of t (snd (cmd_hset (rate_limit_key_text ws) [(rate_limit_field, ''0'')] t d))
     \<in> {store_of t d, put_count ws 0 (store_of t d)}"
  using hset_zero [of ws t d]
  by (cases "hash_at d (rate_limit_key_text ws)") (simp_all add: cmd_hset_def)

section \<open>The contract\<close>

lemma read_hget [simp]: "snd (cmd_hget k f t d) = d"
  by (simp add: cmd_hget_def)

lemma redis_not_limit [simp]: "is_RedisError e \<Longrightarrow> \<not> is_RateLimitExceededError e"
  by (cases e) simp_all

lemma read_count_error: "read_count x = Inl e \<Longrightarrow> is_ValueError e \<and> \<not> is_RateLimitExceededError e \<and> \<not> is_RedisError e"
  by (cases x rule: option.exhaust) (auto simp: read_count_def to_int_def opt_raise_def
      split: option.splits if_splits elim!: int_of_reply.elims)

lemma new_limit_error:
  "0 < n \<Longrightarrow> n \<le> c \<Longrightarrow> new_RateLimitExceededError ws c n 60 = RateLimitExceededError ws c n 60"
  by (simp add: new_RateLimitExceededError_def)

text \<open>Time that passes after a counter was written: it is still there, or its hash has expired.\<close>

lemma put_count_passes:
  assumes p: "passes (put_count ws k st) st'" and n: "count_in st ws = Some n"
  shows "\<exists>st1. passes st st1 \<and> ((st' = put_count ws k st1 \<and> count_in st1 ws = Some n)
    \<or> (st' = st1 \<and> count_in st1 ws = Some 0))"
proof -
  let ?t = "st_now st'"
  have t: "st_now st \<le> ?t" "st' = tick ?t (put_count ws k st)"
    using p by (simp_all add: passes_def put_count_def)
  let ?e = "expiry_of (st_counters st ws)"
  show ?thesis
  proof (cases "case ?e of None \<Rightarrow> True | Some x \<Rightarrow> ?t < x")
    case True
    then have "tick ?t (put_count ws k st) = put_count ws k (tick ?t st)"
      by (auto simp: put_count_def tick_def tick_value_def expiry_of_def fun_eq_iff split: option.splits)
    moreover have "count_in (tick ?t st) ws = Some n"
      using n True by (auto simp: count_in_def tick_value_def expiry_of_def split: option.splits)
    ultimately show ?thesis using t passes_tick [OF t(1)] by auto
  next
    case False
    then have "tick ?t (put_count ws k st) = tick ?t st"
      by (auto simp: put_count_def tick_def tick_value_def expiry_of_def fun_eq_iff split: option.splits)
    moreover have "count_in (tick ?t st) ws = Some 0"
      using False by (auto simp: count_in_def tick_value_def expiry_of_def split: option.splits)
    ultimately show ?thesis using t passes_tick [OF t(1)] by auto
  qed
qed

lemma put_count_twice [simp]: "put_count ws a (put_count ws b st) = put_count ws a st"
  by (simp add: put_count_def expiry_of_def)

text \<open>A counter below zero that is then set to zero.\<close>

lemma put_zero_passes:
  assumes p: "passes (put_count ws (n - 1) st1) st2" and n: "count_in st1 ws = Some n" "n \<le> 0"
  shows "\<exists>st3 m. passes st1 st3 \<and> count_in st3 ws = Some m \<and> put_count ws 0 st2 = put_count ws (max 0 (m - 1)) st3
    \<and> (st2 = st3 \<or> st2 = put_count ws (m - 1) st3)"
proof -
  from put_count_passes [OF p n(1)] obtain st3 where st3: "passes st1 st3"
    "(st2 = put_count ws (n - 1) st3 \<and> count_in st3 ws = Some n) \<or> (st2 = st3 \<and> count_in st3 ws = Some 0)"
    by auto
  then have "count_in st3 ws = Some (if st2 = st3 \<and> count_in st3 ws = Some 0 then 0 else n)" by auto
  with st3 n(2) show ?thesis by fastforce
qed

context redis_server
begin

text \<open>The increment itself, and storing zero.\<close>

lemma hincrby_wp:
  "wp (r_hincrby R (rate_limit_key_text ws) rate_limit_field i)
     (\<lambda>r w'. rest w' = rest w \<and> (\<exists>st1 n. passes (redis_view now db w) st1 \<and> count_in st1 ws = Some n
        \<and> r = n + i \<and> redis_view now db w' = put_count ws (n + i) st1))
     (\<lambda>e w'. rest w' = rest w \<and> is_RedisError e \<and> (\<exists>st1. passes (redis_view now db w) st1
        \<and> (redis_view now db w' = st1
           \<or> (\<exists>n. count_in st1 ws = Some n \<and> redis_view now db w' = put_count ws (n + i) st1)))) w"
proof (rule wp_use [OF obeys_view [OF hincrby]], goal_cases)
  case (1 r w')
  then obtain d where d: "passes (redis_view now db w) (store_of (now w') d)"
    "cmd_hincrby (rate_limit_key_text ws) rate_limit_field i (now w') d = (Some r, db w')" by auto
  from hincrby_count [OF d(2)] obtain n where "count_in (store_of (now w') d) ws = Some n" "r = n + i"
    "redis_view now db w' = put_count ws (n + i) (store_of (now w') d)"
    by (auto simp: redis_view_def)
  with 1 d(1) show ?case by blast
next
  case (2 e w')
  then obtain d where d: "passes (redis_view now db w) (store_of (now w') d)"
    "db w' = d \<or> db w' = snd (cmd_hincrby (rate_limit_key_text ws) rate_limit_field i (now w') d)" by auto
  have "redis_view now db w' = store_of (now w') d \<or> (\<exists>n. count_in (store_of (now w') d) ws = Some n
      \<and> redis_view now db w' = put_count ws (n + i) (store_of (now w') d))"
    using d(2) hincrby_any [of "now w'" ws i d] by (auto simp: redis_view_def)
  with 2 d(1) show ?case by blast
qed

lemma hset_zero_wp:
  "wp (r_hset R (rate_limit_key_text ws) [(rate_limit_field, ''0'')])
     (\<lambda>_ w'. rest w' = rest w \<and> (\<exists>st1. passes (redis_view now db w) st1
        \<and> redis_view now db w' = put_count ws 0 st1))
     (\<lambda>e w'. rest w' = rest w \<and> is_RedisError e \<and> (\<exists>st1. passes (redis_view now db w) st1
        \<and> (redis_view now db w' = st1 \<or> redis_view now db w' = put_count ws 0 st1))) w"
proof (rule wp_use [OF obeys_view [OF hset]], goal_cases)
  case (1 r w')
  then obtain d where d: "passes (redis_view now db w) (store_of (now w') d)"
    "cmd_hset (rate_limit_key_text ws) [(rate_limit_field, ''0'')] (now w') d = (Some (), db w')" by auto
  from hset_zero [OF d(2)] have "redis_view now db w' = put_count ws 0 (store_of (now w') d)"
    by (simp add: redis_view_def)
  with 1 d(1) show ?case by blast
next
  case (2 e w')
  then obtain d where d: "passes (redis_view now db w) (store_of (now w') d)"
    "db w' = d \<or> db w' = snd (cmd_hset (rate_limit_key_text ws) [(rate_limit_field, ''0'')] (now w') d)" by auto
  with hset_zero_snd [of "now w'" ws d]
  have "redis_view now db w' = store_of (now w') d \<or> redis_view now db w' = put_count ws 0 (store_of (now w') d)"
    by (auto simp: redis_view_def)
  with 2 d(1) show ?case by blast
qed

lemma hget_count_wp:
  "wp (r_hget R (rate_limit_key_text ws) rate_limit_field)
     (\<lambda>x w'. rest w' = rest w \<and> passes (redis_view now db w) (redis_view now db w')
        \<and> (\<forall>n. count_in (redis_view now db w') ws = Some n \<longrightarrow> read_count x = Inr n))
     (\<lambda>e w'. rest w' = rest w \<and> passes (redis_view now db w) (redis_view now db w') \<and> is_RedisError e) w"
  by (rule wp_use [OF obeys_read [OF hget read_hget]])
    (auto simp: redis_view_def intro: hget_count)

text \<open>After the comparison: the counter that was read is below the limit.\<close>

lemma admit_wp:
  assumes p: "passes (redis_view now db w) (redis_view now db w1)" and rest: "rest w1 = rest w"
    and c: "\<And>n. count_in (redis_view now db w1) ws = Some n \<Longrightarrow> n = c" "c < limit" "0 < limit"
  shows "wp (bnd (r_hincrby R (rate_limit_key_text ws) rate_limit_field 1) (\<lambda>_. ret ()))
     (\<lambda>_ w'. rest w' = rest w \<and> (\<exists>st1 n. passes (redis_view now db w) st1 \<and> count_in st1 ws = Some n \<and> n < limit
          \<and> redis_view now db w' = put_count ws (n + 1) st1))
     (\<lambda>e w'. rest w' = rest w \<and> is_RedisError e \<and> (\<exists>st1. passes (redis_view now db w) st1 \<and> (redis_view now db w' = st1
          \<or> (\<exists>n. count_in st1 ws = Some n \<and> redis_view now db w' = put_count ws (n + 1) st1)))) w1"
  unfolding wp_bnd wp_ret
proof (rule wp_use [OF hincrby_wp], goal_cases)
  case (1 r w')
  then obtain st1 n where st1: "passes (redis_view now db w1) st1" "count_in st1 ws = Some n"
    "redis_view now db w' = put_count ws (n + 1) st1" by auto
  have "n < limit" using passes_count [OF st1(1), of ws] st1(2) c by fastforce
  moreover have "passes (redis_view now db w) st1" by (rule passes_trans [OF p st1(1)])
  ultimately show ?case using 1 rest st1 by auto
next
  case (2 e w')
  with rest show ?case using passes_trans [OF p] by metis
qed

lemma check_contract:
  assumes ws: "ws \<noteq> 0" and limit: "0 < limit"
  shows "performs (redis_view now db) rest
      (\<lambda>st _ st'. \<exists>st1 n. passes st st1 \<and> count_in st1 ws = Some n \<and> n < limit
          \<and> st' = put_count ws (n + 1) st1)
      (\<lambda>st e st'. \<exists>st1. passes st st1
          \<and> ((is_RateLimitExceededError e \<and> st' = st1
                \<and> (\<forall>n. count_in st1 ws = Some n \<longrightarrow> limit \<le> n))
             \<or> (is_InfrastructureError e \<and> (st' = st1
                 \<or> (\<exists>n. count_in st1 ws = Some n \<and> st' = put_count ws (n + 1) st1)))))
      (rrl_check_and_increment R limit ws)"
    (is "performs _ _ ?Q ?E _")
  unfolding performs_def
proof
  fix w
  let ?v = "redis_view now db"
  show "wp (rrl_check_and_increment R limit ws) (\<lambda>x w'. rest w' = rest w \<and> ?Q (?v w) x (?v w'))
      (\<lambda>e w'. rest w' = rest w \<and> ?E (?v w) e (?v w')) w"
    unfolding rrl_check_and_increment_def rate_limit_key_Inr [OF ws] bnd_lift_Inr wp_catch wp_bnd wp_lift
  proof (rule wp_use [OF hget_count_wp], goal_cases)
    case w1: (1 x w1)
    show ?case
    proof (cases "read_count x")
      case (Inl e)
      with read_count_error [OF Inl] w1 show ?thesis by (auto simp: wp_rules)
    next
      case (Inr c)
      show ?thesis
      proof (cases "limit \<le> c")
        case True
        with Inr w1 limit show ?thesis by (auto simp: wp_rules new_limit_error)
      next
        case False
        have "n = c" if "count_in (?v w1) ws = Some n" for n using that w1 Inr by auto
        note admit = admit_wp [OF _ _ this, where w = w and limit = limit]
        show ?thesis
          unfolding Inr sum.case if_not_P [OF False] wp_bnd [symmetric]
          by (rule wp_use [OF admit]) (use w1 False limit in \<open>auto simp: wp_rules\<close>)
      qed
    qed
  next
    case (2 e w')
    then show ?case by (auto simp: wp_rules)
  qed
qed

lemma decr_contract:
  assumes ws: "ws \<noteq> 0"
  shows "performs (redis_view now db) rest
      (\<lambda>st _ st'. \<exists>st1 n. passes st st1 \<and> count_in st1 ws = Some n
          \<and> st' = put_count ws (max 0 (n - 1)) st1)
      (\<lambda>st e st'. \<exists>st1. passes st st1 \<and> is_InfrastructureError e
          \<and> (st' = st1 \<or> (\<exists>n m. count_in st1 ws = Some n \<and> m \<in> {n - 1, max 0 (n - 1)}
               \<and> st' = put_count ws m st1)))
      (rrl_decrement R ws)"
    (is "performs _ _ ?Q ?E _")
  unfolding performs_def
proof
  fix w
  let ?v = "redis_view now db"
  show "wp (rrl_decrement R ws) (\<lambda>x w'. rest w' = rest w \<and> ?Q (?v w) x (?v w'))
      (\<lambda>e w'. rest w' = rest w \<and> ?E (?v w) e (?v w')) w"
    unfolding rrl_decrement_def rate_limit_key_Inr [OF ws] bnd_lift_Inr wp_catch wp_bnd
  proof (rule wp_use [OF hincrby_wp], goal_cases)
    case (1 r w1)
    then obtain st1 n where st1: "passes (?v w) st1" "count_in st1 ws = Some n" "r = n - 1"
        "?v w1 = put_count ws (n - 1) st1" "rest w1 = rest w" by auto
    show ?case
    proof (cases "r < 0")
      case False
      then have "n - 1 = max 0 (n - 1)" using st1(3) by simp
      then show ?thesis
        unfolding if_not_P [OF False] wp_ret using st1 by metis
    next
      case True
      then have n: "n \<le> 0" using st1(3) by simp
      show ?thesis
        unfolding if_P [OF True]
      proof (rule wp_use [OF hset_zero_wp], goal_cases)
        case (1 x w')
        then obtain st2 where "passes (put_count ws (n - 1) st1) st2" "?v w' = put_count ws 0 st2" "rest w' = rest w"
          using st1 by auto
        with put_zero_passes [OF _ st1(2) n] passes_trans [OF st1(1)] show ?case by metis
      next
        case (2 e w')
        then obtain st2 where st2: "passes (put_count ws (n - 1) st1) st2"
          "?v w' = st2 \<or> ?v w' = put_count ws 0 st2" "rest w' = rest w" "is_RedisError e"
          using st1 by auto
        from put_zero_passes [OF st2(1) st1(2) n] obtain st3 m where st3: "passes st1 st3" "count_in st3 ws = Some m"
          "put_count ws 0 st2 = put_count ws (max 0 (m - 1)) st3" "st2 = st3 \<or> st2 = put_count ws (m - 1) st3" by blast
        then have "?v w' = st3 \<or> (\<exists>k j. count_in st3 ws = Some k \<and> j \<in> {k - 1, max 0 (k - 1)} \<and> ?v w' = put_count ws j st3)"
          using st2(2) by auto
        with st2(3,4) passes_trans [OF st1(1) st3(1)] show ?case
          unfolding if_P [OF st2(4)] wp_raise by auto
      qed
    qed
  next
    case (2 e w')
    then show ?case by (auto simp: wp_rules)
  qed
qed

text \<open>A counter that was read below zero is set to zero.\<close>

lemma clear_wp:
  assumes p: "passes (redis_view now db w) (redis_view now db w1)" and rest: "rest w1 = rest w"
    and c: "\<And>k. count_in (redis_view now db w1) ws = Some k \<Longrightarrow> k < 0"
  shows "wp (r_hset R (rate_limit_key_text ws) [(rate_limit_field, ''0'')])
     (\<lambda>_ w'. rest w' = rest w \<and> (\<exists>st1. passes (redis_view now db w) st1 \<and> (\<forall>k. count_in st1 ws = Some k \<longrightarrow> max 0 k = 0)
        \<and> redis_view now db w' = put_count ws 0 st1))
     (\<lambda>e w'. rest w' = rest w \<and> is_RedisError e \<and> (\<exists>st1. passes (redis_view now db w) st1
        \<and> (redis_view now db w' = st1 \<or> redis_view now db w' = put_count ws 0 st1))) w1"
proof (rule wp_use [OF hset_zero_wp], goal_cases)
  case (1 _ w')
  then obtain st1 where st1: "passes (redis_view now db w1) st1" "redis_view now db w' = put_count ws 0 st1" by blast
  have "max 0 k = 0" if "count_in st1 ws = Some k" for k
    using passes_count [OF st1(1), of ws] that c [of k] by auto
  then show ?case using 1 rest st1(2) passes_trans [OF p st1(1)] by auto
next
  case (2 e w')
  with rest show ?case using passes_trans [OF p] by metis
qed

lemma count_contract:
  assumes ws: "ws \<noteq> 0"
  shows "performs (redis_view now db) rest
      (\<lambda>st n st'. \<exists>st1. passes st st1 \<and> 0 \<le> n \<and> (\<forall>k. count_in st1 ws = Some k \<longrightarrow> n = max 0 k)
          \<and> (st' = st1 \<or> n = 0 \<and> st' = put_count ws 0 st1))
      (\<lambda>st e st'. \<exists>st1. passes st st1 \<and> is_InfrastructureError e \<and> (st' = st1 \<or> st' = put_count ws 0 st1))
      (rrl_get_current_count R ws)"
    (is "performs _ _ ?Q ?E _")
  unfolding performs_def
proof
  fix w
  let ?v = "redis_view now db"
  show "wp (rrl_get_current_count R ws) (\<lambda>x w'. rest w' = rest w \<and> ?Q (?v w) x (?v w'))
      (\<lambda>e w'. rest w' = rest w \<and> ?E (?v w) e (?v w')) w"
    unfolding rrl_get_current_count_def rate_limit_key_Inr [OF ws] bnd_lift_Inr wp_catch wp_bnd wp_lift
  proof (rule wp_use [OF hget_count_wp], goal_cases)
    case w1: (1 x w1)
    show ?case
    proof (cases "read_count x")
      case (Inl e)
      with read_count_error [OF Inl] w1 show ?thesis by (auto simp: wp_rules)
    next
      case (Inr c)
      show ?thesis
      proof (cases "c < 0")
        case False
        with Inr w1 show ?thesis by (auto simp: wp_rules)
      next
        case True
        then have "k < 0" if "count_in (?v w1) ws = Some k" for k using that w1 Inr by auto
        note clear = clear_wp [OF _ _ this, where w = w]
        show ?thesis
          unfolding Inr sum.case if_P [OF True] wp_bnd wp_ret
          by (rule wp_use [OF clear]) (use w1 in \<open>auto simp: wp_rules\<close>)
      qed
    qed
  next
    case (2 e w')
    then show ?case by (auto simp: wp_rules)
  qed
qed

lemma reset_contract:
  assumes ws: "ws \<noteq> 0"
  shows "performs (redis_view now db) rest
      (\<lambda>st _ st'. \<exists>st1. passes st st1 \<and> st' = put_count ws 0 st1)
      (\<lambda>st e st'. \<exists>st1. passes st st1 \<and> is_InfrastructureError e \<and> (st' = st1 \<or> st' = put_count ws 0 st1))
      (rrl_reset R ws)"
  unfolding performs_def rrl_reset_def rate_limit_key_Inr [OF ws] bnd_lift_Inr wp_catch
  by (intro allI wp_use [OF hset_zero_wp]) (auto simp: wp_rules)

end

sublocale redis_server \<subseteq> limiter: rate_limiter "RedisRateLimiter R (int (Suc n))" "int (Suc n)"
    "redis_view now db" rest
  by (unfold_locales; (unfold RedisRateLimiter_sel)?;
      (rule check_contract decr_contract count_contract reset_contract)?; simp)

context redis_server
begin

lemma rate_limiter: "0 < limit \<Longrightarrow> rate_limiter (RedisRateLimiter R limit) limit (redis_view now db) rest"
  by (unfold_locales; (unfold RedisRateLimiter_sel)?;
      (rule check_contract decr_contract count_contract reset_contract)?; simp)

end

interpretation mem_limiter: rate_limiter "RedisRateLimiter mem_redis 10" 10 "redis_view mw_now mem_live"
    mem_world.more
  by (rule mem.rate_limiter) simp

end
