(* ===== verification/Settings.thy ===== *)
theory Settings
  imports Exceptions Rate_Limiter
begin

text \<open>
  \<open>src/infrastructure/config/settings.py\<close>: the settings the environment supplies, the constraints of
  the fields, the field validators and the model validator, in the order pydantic runs them.
  \<open>mk_AppSettings\<close> is the construction; where pydantic collects the errors of all fields in one
  \<open>ValidationError\<close> (a \<open>ValueError\<close>), it stops at the first. Whether a text is a PEM key is decided by
  the \<open>cryptography\<close> package, the parameter \<open>is_pem\<close>. \<open>mk_AppSettings_iff\<close> characterises the accepted settings.
\<close>

datatype EventMode = ModeNats | ModeWebhook

record AppSettings =
  max_file_size :: int
  max_chunk_size :: int
  max_concurrent_uploads :: int
  chunk_size :: int
  session_ttl_hours :: int
  allowed_mime_types :: "string list"
  redis_url :: string
  minio_endpoint :: string
  minio_root_user :: string
  minio_root_password :: string
  s3_bucket_name :: string
  s3_use_ssl :: bool
  s3_region :: string
  s3_server_side_encryption :: bool
  nats_url :: "string option"
  nats_subject :: string
  event_publish_mode :: EventMode
  nats_stream_name :: string
  nats_durable_name :: string
  nats_connection_timeout :: int
  nats_max_reconnect_attempts :: int
  event_max_retry_attempts :: int
  event_dlq_ttl_seconds :: int
  clamav_host :: string
  clamav_port :: int
  clamav_timeout :: int
  jwt_public_key :: string
  jwt_algorithm :: string
  webhook_url :: "string option"
  webhook_secret :: "string option"
  webhook_timeout :: int
  log_level :: string
  server_port :: int
  workers :: int

section \<open>Field constraints\<close>

definition fields_ok :: "AppSettings \<Rightarrow> bool" where
  "fields_ok s = (0 < max_file_size s \<and> max_file_size s \<le> 1073741824 \<and> 0 < max_chunk_size s
     \<and> 0 < max_concurrent_uploads s \<and> max_concurrent_uploads s \<le> 10
     \<and> 0 < chunk_size s \<and> 0 < session_ttl_hours s \<and> allowed_mime_types s \<noteq> []
     \<and> minio_endpoint s \<noteq> [] \<and> minio_root_user s \<noteq> [] \<and> 3 \<le> length (s3_bucket_name s)
     \<and> 0 < nats_connection_timeout s \<and> 0 \<le> nats_max_reconnect_attempts s
     \<and> 1 \<le> event_max_retry_attempts s \<and> event_max_retry_attempts s \<le> 100 \<and> 1 \<le> event_dlq_ttl_seconds s
     \<and> clamav_host s \<noteq> [] \<and> 1 \<le> clamav_port s \<and> clamav_port s \<le> 65535 \<and> 0 < clamav_timeout s
     \<and> 0 < webhook_timeout s \<and> 1 \<le> server_port s \<and> server_port s \<le> 65535 \<and> 0 < workers s)"

section \<open>Field validators\<close>

definition starts_with_any :: "string list \<Rightarrow> string \<Rightarrow> bool" where
  "starts_with_any ps s = list_ex (\<lambda>p. starts_with p s) ps"

definition validate_redis_url :: "string \<Rightarrow> exn + string" where
  "validate_redis_url v =
     (if starts_with_any [''redis://'', ''rediss://''] v then Inr v
      else Inl (ValueError ''Redis URL must start with redis:// or rediss://''))"

definition validate_minio_password :: "string \<Rightarrow> exn + string" where
  "validate_minio_password v =
     (if v = [] then Inl (ValueError ''MinIO root password cannot be empty'') else Inr v)"

text \<open>\<open>re.match\<close> with a pattern that ends in \<open>$\<close>: one newline may follow.\<close>

definition without_newline :: "string \<Rightarrow> string" where
  "without_newline s = (if s \<noteq> [] \<and> last s = CHR 0x0A then butlast s else s)"

definition lower_alnum :: "char \<Rightarrow> bool" where
  "lower_alnum c = (48 \<le> code c \<and> code c \<le> 57 \<or> 97 \<le> code c \<and> code c \<le> 122)"

definition bucket_pattern :: "string \<Rightarrow> bool" where
  "bucket_pattern v = (2 \<le> length v \<and> lower_alnum (hd v) \<and> lower_alnum (last v)
     \<and> list_all (\<lambda>c. lower_alnum c \<or> c = CHR ''-'') v)"

definition validate_s3_bucket_name :: "string \<Rightarrow> exn + string" where
  "validate_s3_bucket_name v =
     (if \<not> (3 \<le> length v \<and> length v \<le> 63)
        then Inl (ValueError ''S3 bucket name must be between 3 and 63 characters'')
      else if \<not> (bucket_pattern v \<or> bucket_pattern (without_newline v))
        then Inl (ValueError ''S3 bucket name must be lowercase alphanumeric with hyphens, starting and ending with alphanumeric'')
      else if str_contains ''--'' v \<or> str_contains ''.-'' v \<or> str_contains ''-.'' v
        then Inl (ValueError ''S3 bucket name cannot contain consecutive special characters'')
      else Inr v)"

definition validate_nats_url :: "string option \<Rightarrow> exn + string option" where
  "validate_nats_url v =
     (case v of
        Some u \<Rightarrow> if starts_with_any [''nats://'', ''tls://''] u then Inr v
                  else Inl (ValueError ''NATS URL must start with nats:// or tls://'')
      | None \<Rightarrow> Inr v)"

definition subject_char :: "char \<Rightarrow> bool" where
  "subject_char c = (lower_alnum c \<or> 65 \<le> code c \<and> code c \<le> 90 \<or> c \<in> {CHR ''.'', CHR ''_'', CHR ''-''})"

definition validate_nats_subject :: "string \<Rightarrow> exn + string" where
  "validate_nats_subject v =
     (let m = without_newline v in
      if \<not> (m \<noteq> [] \<and> list_all subject_char m)
        then Inl (ValueError ''NATS subject can only contain alphanumeric, dots, underscores, and hyphens'')
      else if CHR '' '' \<in> set v then Inl (ValueError ''NATS subject cannot contain spaces'')
      else Inr v)"

definition validate_jwt_public_key :: "(string \<Rightarrow> bool) \<Rightarrow> string \<Rightarrow> exn + string" where
  "validate_jwt_public_key is_pem v =
     (let key_content = replace_str [CHR 0x5C, CHR ''n''] [CHR 0x0A] v in
      if is_pem key_content then Inr key_content
      else Inl (ValueError ''Invalid PEM format for JWT public key''))"

definition log_levels :: "string list" where
  "log_levels = [''DEBUG'', ''INFO'', ''WARNING'', ''ERROR'', ''CRITICAL'']"

definition validate_log_level :: "string \<Rightarrow> exn + string" where
  "validate_log_level v =
     (let u = upper_str v in
      if u \<notin> set log_levels then Inl (ValueError (''Log level must be one of: '' @ join_str '', '' log_levels))
      else Inr u)"

definition validate_webhook_url :: "string option \<Rightarrow> exn + string option" where
  "validate_webhook_url v =
     (case v of
        Some u \<Rightarrow> if starts_with_any [''http://localhost'', ''http://127.0.0.1'', ''https://''] u then Inr v
                  else Inl (ValueError ''Webhook URL must use HTTPS (except localhost)'')
      | None \<Rightarrow> Inr v)"

section \<open>The model validator\<close>

definition validate_event_mode_requirements :: "AppSettings \<Rightarrow> exn + AppSettings" where
  "validate_event_mode_requirements s =
     andThen (check (chunk_size s \<le> max_chunk_size s)
       (ValueError (''chunk_size ('' @ str_int (chunk_size s) @ '') cannot exceed max_chunk_size (''
          @ str_int (max_chunk_size s) @ '')''))) (\<lambda>_.
     andThen (check (event_publish_mode s = ModeNats \<longrightarrow> nats_url s \<notin> {None, Some []})
       (ValueError (''NATS_URL is required when EVENT_PUBLISH_MODE is 'nats'' @ [CHR 0x27]))) (\<lambda>_.
     if event_publish_mode s = ModeWebhook then
       andThen (check (webhook_url s \<notin> {None, Some []})
         (ValueError (''WEBHOOK_URL is required when EVENT_PUBLISH_MODE is 'webhook'' @ [CHR 0x27]))) (\<lambda>_.
       andThen (check (webhook_secret s \<notin> {None, Some []})
         (ValueError (''WEBHOOK_SECRET is required when EVENT_PUBLISH_MODE is 'webhook'' @ [CHR 0x27]))) (\<lambda>_.
       Inr s))
     else Inr s))"

definition mk_AppSettings :: "(string \<Rightarrow> bool) \<Rightarrow> AppSettings \<Rightarrow> exn + AppSettings" where
  "mk_AppSettings is_pem s =
     andThen (check (fields_ok s) (ValueError ''Field'')) (\<lambda>_.
     andThen (validate_redis_url (redis_url s)) (\<lambda>_.
     andThen (validate_minio_password (minio_root_password s)) (\<lambda>_.
     andThen (validate_s3_bucket_name (s3_bucket_name s)) (\<lambda>_.
     andThen (validate_nats_url (nats_url s)) (\<lambda>_.
     andThen (validate_nats_subject (nats_subject s)) (\<lambda>_.
     andThen (validate_jwt_public_key is_pem (jwt_public_key s)) (\<lambda>key.
     andThen (validate_webhook_url (webhook_url s)) (\<lambda>_.
     andThen (validate_log_level (log_level s)) (\<lambda>level.
     validate_event_mode_requirements (s\<lparr>jwt_public_key := key, log_level := level\<rparr>))))))))))"

section \<open>What accepted settings satisfy\<close>

definition mode_ok :: "AppSettings \<Rightarrow> bool" where
  "mode_ok s = (case event_publish_mode s of
     ModeNats \<Rightarrow> (\<exists>u. nats_url s = Some u \<and> starts_with_any [''nats://'', ''tls://''] u)
   | ModeWebhook \<Rightarrow> (\<exists>u k. webhook_url s = Some u \<and> webhook_secret s = Some k \<and> k \<noteq> []
         \<and> starts_with_any [''http://localhost'', ''http://127.0.0.1'', ''https://''] u))"

definition bucket_ok :: "string \<Rightarrow> bool" where
  "bucket_ok v = (3 \<le> length v \<and> length v \<le> 63 \<and> (bucket_pattern v \<or> bucket_pattern (without_newline v))
     \<and> \<not> str_contains ''--'' v \<and> \<not> str_contains ''.-'' v \<and> \<not> str_contains ''-.'' v)"

definition subject_ok :: "string \<Rightarrow> bool" where
  "subject_ok v = (without_newline v \<noteq> [] \<and> list_all subject_char (without_newline v) \<and> CHR '' '' \<notin> set v)"

definition settings_ok :: "(string \<Rightarrow> bool) \<Rightarrow> AppSettings \<Rightarrow> bool" where
  "settings_ok is_pem s = (fields_ok s \<and> starts_with_any [''redis://'', ''rediss://''] (redis_url s)
     \<and> minio_root_password s \<noteq> [] \<and> bucket_ok (s3_bucket_name s) \<and> subject_ok (nats_subject s)
     \<and> is_pem (jwt_public_key s) \<and> log_level s \<in> set log_levels
     \<and> chunk_size s \<le> max_chunk_size s \<and> mode_ok s)"

lemma validator_Inr:
  "validate_redis_url v = Inr v' \<longleftrightarrow> v' = v \<and> starts_with_any [''redis://'', ''rediss://''] v"
  "validate_minio_password v = Inr v' \<longleftrightarrow> v' = v \<and> v \<noteq> []"
  "validate_s3_bucket_name v = Inr v' \<longleftrightarrow> v' = v \<and> bucket_ok v"
  "validate_nats_url u = Inr u' \<longleftrightarrow> u' = u \<and> (\<forall>x. u = Some x \<longrightarrow> starts_with_any [''nats://'', ''tls://''] x)"
  "validate_nats_subject v = Inr v' \<longleftrightarrow> v' = v \<and> subject_ok v"
  "validate_webhook_url u = Inr u' \<longleftrightarrow> u' = u
     \<and> (\<forall>x. u = Some x \<longrightarrow> starts_with_any [''http://localhost'', ''http://127.0.0.1'', ''https://''] x)"
  "validate_log_level v = Inr v' \<longleftrightarrow> v' = upper_str v \<and> upper_str v \<in> set log_levels"
  by (auto simp: validate_redis_url_def validate_minio_password_def validate_s3_bucket_name_def
      validate_nats_url_def validate_nats_subject_def bucket_ok_def subject_ok_def validate_webhook_url_def validate_log_level_def Let_def
      split: option.splits if_splits)

lemma starts_not_Nil: "\<not> starts_with_any [''nats://'', ''tls://''] []"
  "\<not> starts_with_any [''http://localhost'', ''http://127.0.0.1'', ''https://''] []"
  by (simp_all add: starts_with_any_def starts_with_def)

lemma validate_event_mode_iff:
  "validate_event_mode_requirements s = Inr s' \<longleftrightarrow> s' = s \<and> chunk_size s \<le> max_chunk_size s
     \<and> (case event_publish_mode s of ModeNats \<Rightarrow> nats_url s \<notin> {None, Some []}
        | ModeWebhook \<Rightarrow> webhook_url s \<notin> {None, Some []} \<and> webhook_secret s \<notin> {None, Some []})"
  by (cases "event_publish_mode s") (auto simp: validate_event_mode_requirements_def)

lemma mk_AppSettings_ok:
  assumes "mk_AppSettings is_pem s = Inr s'"
  shows "settings_ok is_pem s'" and "s' = s\<lparr>jwt_public_key := jwt_public_key s', log_level := upper_str (log_level s)\<rparr>"
proof -
  from assms obtain key where key: "validate_jwt_public_key is_pem (jwt_public_key s) = Inr key"
    and s': "s' = s\<lparr>jwt_public_key := key, log_level := upper_str (log_level s)\<rparr>"
    and checks: "fields_ok s" "starts_with_any [''redis://'', ''rediss://''] (redis_url s)"
      "minio_root_password s \<noteq> []" "bucket_ok (s3_bucket_name s)" "subject_ok (nats_subject s)"
      "\<forall>x. nats_url s = Some x \<longrightarrow> starts_with_any [''nats://'', ''tls://''] x"
      "\<forall>x. webhook_url s = Some x \<longrightarrow> starts_with_any [''http://localhost'', ''http://127.0.0.1'', ''https://''] x"
      "upper_str (log_level s) \<in> set log_levels"
    and mode: "validate_event_mode_requirements s' = Inr s'"
    by (auto simp: mk_AppSettings_def validator_Inr validate_event_mode_iff)
  have "is_pem key" using key by (auto simp: validate_jwt_public_key_def Let_def split: if_splits)
  then show "settings_ok is_pem s'"
    using checks mode starts_not_Nil
    by (auto simp: s' settings_ok_def mode_ok_def validate_event_mode_iff fields_ok_def split: EventMode.splits)
  show "s' = s\<lparr>jwt_public_key := jwt_public_key s', log_level := upper_str (log_level s)\<rparr>" by (simp add: s')
qed

text \<open>The limit of the settings is one the rate limiter accepts.\<close>

lemma settings_limit:
  "mk_AppSettings is_pem s = Inr s' \<Longrightarrow>
    mk_RedisRateLimiter R (max_concurrent_uploads s') = Inr (RedisRateLimiter R (max_concurrent_uploads s'))"
  using mk_AppSettings_ok(1) [of is_pem s s'] by (simp add: mk_RedisRateLimiter_def settings_ok_def fields_ok_def)

end
