(* ===== verification/Dto.thy ===== *)
theory Dto
  imports Protocols
begin

text \<open>
  \<open>src/application/dto\<close>: the requests and responses of the use cases and their validation.
  \<open>InitiateUploadRequest\<close> has four validation methods that the use case calls; the others
  validate in \<open>__post_init__\<close> (the functions \<open>\<dots>_post_init\<close>).
\<close>

section \<open>InitiateUploadRequest\<close>

record InitiateUploadRequest =
  iur_workspace_id :: uuid
  iur_filename :: string
  iur_size :: int
  iur_mime_type :: string
  iur_sha256_checksum :: string

definition validate_filename :: "InitiateUploadRequest \<Rightarrow> exn + unit" where
  "validate_filename r = (let fn = iur_filename r in
     if fn = [] \<or> strip fn = [] then Inl (ValueError ''filename cannot be empty'')
     else if CHR ''/'' \<in> set fn \<or> CHR 0x5C \<in> set fn
       then Inl (ValueError ''filename cannot contain path separators'')
     else if CHR 0x00 \<in> set fn then Inl (ValueError ''filename cannot contain null bytes'')
     else if length fn > 255 then Inl (ValueError ''filename cannot exceed 255 characters'')
     else Inr ())"

definition validate_checksum :: "InitiateUploadRequest \<Rightarrow> exn + unit" where
  "validate_checksum r = (let c = iur_sha256_checksum r in
     if length c \<noteq> 64 then Inl (ValueError ''sha256_checksum must be exactly 64 characters'')
     else if \<not> list_all (\<lambda>x. x \<in> set hex_lower_chars) c
       then Inl (ValueError ''sha256_checksum must be lowercase hexadecimal'')
     else Inr ())"

definition validate_size :: "InitiateUploadRequest \<Rightarrow> exn + unit" where
  "validate_size r =
     (if iur_size r \<le> 0
      then Inl (ValueError (''File size must be positive, got '' @ str_int (iur_size r)))
      else if iur_size r > MAX_FILE_SIZE_BYTES
      then Inl (FileSizeLimitExceededError (iur_size r) MAX_FILE_SIZE_BYTES)
      else Inr ())"

definition validate_mime_type :: "InitiateUploadRequest \<Rightarrow> exn + unit" where
  "validate_mime_type r =
     (if lower_str (iur_mime_type r) \<notin> set (map lower_str ALLOWED_MIME_TYPES)
      then Inl (UnsupportedMediaTypeError (iur_mime_type r) ALLOWED_MIME_TYPES)
      else Inr ())"

definition validate_request :: "InitiateUploadRequest \<Rightarrow> exn + unit" where
  "validate_request r =
     andThen (validate_filename r) (\<lambda>_. andThen (validate_checksum r) (\<lambda>_.
     andThen (validate_size r) (\<lambda>_. validate_mime_type r)))"

definition request_ok :: "InitiateUploadRequest \<Rightarrow> bool" where
  "request_ok r = (filename_ok (iur_filename r)
     \<and> length (iur_sha256_checksum r) = 64 \<and> list_all is_hex_lower (iur_sha256_checksum r)
     \<and> 0 < iur_size r \<and> iur_size r \<le> MAX_FILE_SIZE_BYTES
     \<and> lower_str (iur_mime_type r) = ''application/pdf'')"

lemma validate_filename_iff: "validate_filename r = Inr () \<longleftrightarrow> filename_ok (iur_filename r)"
  by (auto simp: validate_filename_def filename_ok_def Let_def)

lemma validate_checksum_iff:
  "validate_checksum r = Inr () \<longleftrightarrow>
     length (iur_sha256_checksum r) = 64 \<and> list_all is_hex_lower (iur_sha256_checksum r)"
  by (simp add: validate_checksum_def Let_def)

lemma lower_pdf: "lower_str ''application/pdf'' = ''application/pdf''"
  by code_simp

lemma validate_mime_type_iff:
  "validate_mime_type r = Inr () \<longleftrightarrow> lower_str (iur_mime_type r) = ''application/pdf''"
  by (simp add: validate_mime_type_def ALLOWED_MIME_TYPES_def lower_pdf)

lemma validate_size_iff:
  "validate_size r = Inr () \<longleftrightarrow> 0 < iur_size r \<and> iur_size r \<le> MAX_FILE_SIZE_BYTES"
  by (auto simp: validate_size_def)

lemma validate_request_iff: "validate_request r = Inr () \<longleftrightarrow> request_ok r"
  by (auto simp: validate_request_def request_ok_def validate_filename_iff validate_checksum_iff
      validate_size_iff validate_mime_type_iff)

section \<open>InitiateUploadResponse\<close>

record InitiateUploadResponse =
  ires_session_id :: uuid
  ires_offset :: int
  ires_expires_at :: datetime

definition InitiateUploadResponse_post_init :: "InitiateUploadResponse \<Rightarrow> exn + InitiateUploadResponse" where
  "InitiateUploadResponse_post_init r =
     andThen (check (ires_offset r \<ge> 0) (ValueError (''offset must be >= 0, got '' @ str_int (ires_offset r)))) (\<lambda>_.
     andThen (check (is_aware (ires_expires_at r)) (ValueError ''expires_at must be timezone-aware (UTC)''))
       (\<lambda>_. Inr r))"

section \<open>ProcessChunkRequest and ProcessChunkResponse\<close>

record ProcessChunkRequest =
  pcr_workspace_id :: uuid
  pcr_session_id :: uuid
  pcr_chunk_data :: bytes
  pcr_chunk_offset :: int
  pcr_chunk_checksum :: string

definition ProcessChunkRequest_post_init :: "ProcessChunkRequest \<Rightarrow> exn + ProcessChunkRequest" where
  "ProcessChunkRequest_post_init r =
     andThen (check (pcr_chunk_offset r \<ge> 0)
       (ValueError (''chunk_offset cannot be negative: '' @ str_int (pcr_chunk_offset r)))) (\<lambda>_.
     andThen (check (length (pcr_chunk_data r) \<noteq> 0) (ValueError ''chunk_data cannot be empty'')) (\<lambda>_.
     andThen (check (match_hex64 (pcr_chunk_checksum r))
       (ValueError (''chunk_checksum must be 64 lowercase hex characters, got: ''
          @ take 20 (pcr_chunk_checksum r) @ ''...''))) (\<lambda>_. Inr r)))"

record ProcessChunkResponse =
  pcres_new_offset :: int

lemma ProcessChunkRequest_post_init_iff:
  "ProcessChunkRequest_post_init r = Inr r' \<longleftrightarrow>
     r' = r \<and> 0 \<le> pcr_chunk_offset r \<and> pcr_chunk_data r \<noteq> [] \<and> match_hex64 (pcr_chunk_checksum r)"
  by (auto simp: ProcessChunkRequest_post_init_def)

section \<open>CompleteUploadRequest and CompleteUploadResponse\<close>

record CompleteUploadRequest =
  cur_workspace_id :: uuid
  cur_session_id :: uuid

record CompleteUploadResponse =
  cures_file_id :: uuid
  cures_s3_path :: string
  cures_size_bytes :: int

definition CompleteUploadResponse_post_init :: "CompleteUploadResponse \<Rightarrow> exn + CompleteUploadResponse" where
  "CompleteUploadResponse_post_init r =
     andThen (check (cures_s3_path r \<noteq> []) (ValueError ''s3_path cannot be empty'')) (\<lambda>_.
     andThen (check (cures_size_bytes r \<ge> 0)
       (ValueError (''size_bytes must be non-negative, got '' @ str_int (cures_size_bytes r)))) (\<lambda>_. Inr r))"

end
