(* ===== verification/System_State.thy ===== *)
theory System_State
  imports Protocols
begin

text \<open>
  The invariant of the stored data that all use cases keep, \<open>store_ok\<close>: counters are numbers without
  a time to live; every stored session is readable, is stored under its own ids
  and satisfies its class invariant; its manifest lists chunks \<open>0, 1, \<dots>\<close> whose sizes add up to its
  offset; and as long as the session lives and is not finished, so do the bytes of all its chunks,
  with the listed sizes and checksums. \<open>content_in\<close> is the abstraction: the bytes received so far. A session that
  was written again just after it had expired has no time to live; it is bound to the rest of
  the invariant, but its chunks may be gone.
\<close>

section \<open>Manifests\<close>

text \<open>The manifest of chunks with these sizes and checksums.\<close>

fun manifest_from :: "int \<Rightarrow> (int \<times> string) list \<Rightarrow> json list" where
  "manifest_from k [] = []"
| "manifest_from k ((n, c) # cs) = chunk_entry k n c # manifest_from (k + 1) cs"

lemma length_manifest_from [simp]: "length (manifest_from k cs) = length cs"
  by (induction k cs rule: manifest_from.induct) simp_all

lemma manifest_from_append:
  "manifest_from k (cs @ [(n, c)]) = manifest_from k cs @ [chunk_entry (k + int (length cs)) n c]"
  by (induction k cs rule: manifest_from.induct) (simp_all add: algebra_simps)

lemma manifest_from_ok [simp]: "list_all entry_ok (manifest_from k cs)" "list_all json_ok (manifest_from k cs)"
  by (induction k cs rule: manifest_from.induct) simp_all

lemma manifest_from_index:
  "list_ex (index_is i) (manifest_from k cs) \<longleftrightarrow> k \<le> i \<and> i < k + int (length cs)"
  by (induction k cs rule: manifest_from.induct) auto

lemma manifest_from_inj: "manifest_from k cs = manifest_from k cs' \<Longrightarrow> cs = cs'"
proof (induction k cs arbitrary: cs' rule: manifest_from.induct)
  case (1 k)
  then show ?case by (cases cs') auto
next
  case (2 k n c cs)
  then show ?case by (cases cs') (auto simp: chunk_entry_def)
qed

definition total_size :: "(int \<times> string) list \<Rightarrow> int" where
  "total_size cs = sum_list (map fst cs)"

lemma total_size_append [simp]: "total_size (cs @ [(n, c)]) = total_size cs + n"
  by (simp add: total_size_def)

definition manifest_of :: "UploadSession \<Rightarrow> (int \<times> string) list \<Rightarrow> bool" where
  "manifest_of s cs = (chunk_manifest s = manifest_from 0 cs \<and> offset s = total_size cs
     \<and> (\<forall>x \<in> set cs. 0 < fst x))"

section \<open>The invariant\<close>

definition counters_ok :: "store \<Rightarrow> bool" where
  "counters_ok st = (\<forall>ws c e. st_counters st ws = Some (c, e) \<longrightarrow>
     e = None \<and> (\<exists>n. c = Some n))"

definition chunk_stored :: "store \<Rightarrow> uuid \<Rightarrow> uuid \<Rightarrow> nat \<Rightarrow> nat \<Rightarrow> int \<times> string \<Rightarrow> bool" where
  "chunk_stored st ws sid t i x = (\<exists>b e. st_chunks st ws sid (str_int (int i)) = Some (b, e)
     \<and> int (length b) = fst x \<and> sha256_hex b = snd x
     \<and> (case e of None \<Rightarrow> True | Some t' \<Rightarrow> t \<le> t'))"

text \<open>The bytes of a session that is not finished.\<close>

definition chunks_kept :: "store \<Rightarrow> uuid \<Rightarrow> uuid \<Rightarrow> nat \<Rightarrow> UploadSession \<Rightarrow> (int \<times> string) list \<Rightarrow> bool" where
  "chunks_kept st ws sid t s cs =
     (\<not> is_terminal (status s) \<longrightarrow> (\<forall>i < length cs. chunk_stored st ws sid t i (cs ! i)))"

definition entry_inv :: "store \<Rightarrow> uuid \<Rightarrow> uuid \<Rightarrow> UploadSession \<Rightarrow> nat option \<Rightarrow> bool" where
  "entry_inv st ws sid s e = (storable s \<and> workspace_id s = ws \<and> session_id s = sid
     \<and> (\<exists>cs. manifest_of s cs \<and>
          (\<forall>t. e = Some t \<longrightarrow> t \<le> st_now st + 86400000 \<and> chunks_kept st ws sid t s cs)))"

lemma chunks_kept_terminal [simp]: "is_terminal (status s) \<Longrightarrow> chunks_kept st ws sid t s cs"
  by (simp add: chunks_kept_def)

definition sessions_ok :: "store \<Rightarrow> bool" where
  "sessions_ok st = (\<forall>ws sid x e. st_sessions st ws sid = Some (x, e) \<longrightarrow>
     (\<exists>s. x = Some s \<and> entry_inv st ws sid s e))"

definition store_ok :: "store \<Rightarrow> bool" where
  "store_ok st = (counters_ok st \<and> sessions_ok st)"

lemma sessions_okD:
  "sessions_ok st \<Longrightarrow> st_sessions st ws sid = Some (x, e) \<Longrightarrow> \<exists>s. x = Some s \<and> entry_inv st ws sid s e"
  by (simp add: sessions_ok_def)

lemma session_in_ok:
  "sessions_ok st \<Longrightarrow> session_in st ws sid = Some s \<Longrightarrow>
    \<exists>e. st_sessions st ws sid = Some (Some s, e) \<and> entry_inv st ws sid s e"
  by (auto simp: session_in_def split: option.splits dest!: sessions_okD)

lemma count_ok: "counters_ok st \<Longrightarrow> \<exists>n. count_in st ws = Some n"
  by (auto simp: counters_ok_def count_in_def split: option.splits)

text \<open>Counters do not change by themselves.\<close>

lemma counters_ok_passes:
  assumes "counters_ok st" and p: "passes st st'"
  shows "st_counters st' = st_counters st" and "counters_ok st'" and "count_in st' ws = count_in st ws"
proof -
  show eq: "st_counters st' = st_counters st"
  proof
    fix ws
    from assms(1) have "\<And>c e. st_counters st ws = Some (c, e) \<Longrightarrow> e = None"
      by (auto simp: counters_ok_def)
    then show "st_counters st' ws = st_counters st ws"
      unfolding passesD(4) [OF p] by (cases "st_counters st ws") auto
  qed
  show "counters_ok st'" "count_in st' ws = count_in st ws"
    using assms(1) by (simp_all add: counters_ok_def count_in_def eq)
qed

lemma expiry_of_counter: "counters_ok st \<Longrightarrow> expiry_of (st_counters st ws) = None"
  by (auto simp: counters_ok_def expiry_of_def split: option.splits)

lemma chunk_stored_passes:
  assumes "chunk_stored st ws sid t i x" and "passes st st'" and "st_now st' < t"
  shows "chunk_stored st' ws sid t i x"
proof -
  from assms(1) obtain b e where b: "st_chunks st ws sid (str_int (int i)) = Some (b, e)"
    "int (length b) = fst x" "sha256_hex b = snd x" "case e of None \<Rightarrow> True | Some t' \<Rightarrow> t \<le> t'"
    by (auto simp: chunk_stored_def)
  then have "st_chunks st' ws sid (str_int (int i)) = Some (b, e)"
    using assms(3) by (auto simp: passesD [OF assms(2)] tick_value_Some split: option.splits)
  with b show ?thesis unfolding chunk_stored_def by blast
qed

lemma chunks_kept_passes:
  "chunks_kept st ws sid t s cs \<Longrightarrow> passes st st' \<Longrightarrow> st_now st' < t \<Longrightarrow> chunks_kept st' ws sid t s cs"
  unfolding chunks_kept_def using chunk_stored_passes by blast

lemma sessions_ok_passes:
  assumes ok: "sessions_ok st" and p: "passes st st'"
  shows "sessions_ok st'"
  unfolding sessions_ok_def
proof (intro allI impI)
  fix ws sid x e
  assume "st_sessions st' ws sid = Some (x, e)"
  then have old: "st_sessions st ws sid = Some (x, e)" "case e of None \<Rightarrow> True | Some u \<Rightarrow> st_now st' < u"
    using passesD(2) [OF p, of ws sid] by (simp_all add: tick_value_Some)
  from sessions_okD [OF ok old(1)] obtain s where s: "x = Some s" "entry_inv st ws sid s e" by blast
  then obtain cs where cs: "manifest_of s cs"
    "\<forall>t. e = Some t \<longrightarrow> t \<le> st_now st + 86400000 \<and> chunks_kept st ws sid t s cs"
    by (auto simp: entry_inv_def)
  have "\<forall>t. e = Some t \<longrightarrow> t \<le> st_now st' + 86400000 \<and> chunks_kept st' ws sid t s cs"
  proof (intro allI impI)
    fix t assume e: "e = Some t"
    have "st_now st' < t" using old(2) e by simp
    moreover have "t \<le> st_now st + 86400000" "chunks_kept st ws sid t s cs" using cs(2) e by simp_all
    ultimately show "t \<le> st_now st' + 86400000 \<and> chunks_kept st' ws sid t s cs"
      using chunks_kept_passes [OF _ p] passesD(1) [OF p] by auto
  qed
  with s(2) cs(1) have "entry_inv st' ws sid s e" unfolding entry_inv_def by blast
  with s show "\<exists>s. x = Some s \<and> entry_inv st' ws sid s e" by blast
qed

lemma store_ok_passes: "store_ok st \<Longrightarrow> passes st st' \<Longrightarrow> store_ok st'"
  using counters_ok_passes(2) sessions_ok_passes by (auto simp: store_ok_def)

section \<open>Updates that keep it\<close>

lemma entry_inv_cong:
  "st_now st' = st_now st \<Longrightarrow> st_chunks st' = st_chunks st \<Longrightarrow> entry_inv st' = entry_inv st"
  by (intro ext) (simp add: entry_inv_def chunks_kept_def chunk_stored_def)

lemma store_ok_put_count: "store_ok st \<Longrightarrow> store_ok (put_count ws n st)"
  using expiry_of_counter [of st ws] entry_inv_cong [of "put_count ws n st" st]
  by (auto simp: store_ok_def counters_ok_def sessions_ok_def put_count_def)

lemma store_ok_put_expired: "store_ok st \<Longrightarrow> store_ok (put_expired sid m st)"
  using entry_inv_cong [of "put_expired sid m st" st]
  by (auto simp: store_ok_def counters_ok_def sessions_ok_def put_expired_def)

lemma store_ok_drop_session: "store_ok st \<Longrightarrow> store_ok (drop_session ws sid st)"
  using entry_inv_cong [of "drop_session ws sid st" st]
  by (auto simp: store_ok_def counters_ok_def sessions_ok_def drop_session_def split: if_splits)

lemma store_ok_put_session:
  assumes "store_ok st" and "entry_inv st (workspace_id s) (session_id s) s e"
  shows "store_ok (put_session s e st)"
  using assms entry_inv_cong [of "put_session s e st" st]
  by (auto simp: store_ok_def counters_ok_def sessions_ok_def put_session_def split: if_splits)

text \<open>An update that changes neither the manifest nor the offset, and finishes the session.\<close>

definition same_content :: "UploadSession \<Rightarrow> UploadSession \<Rightarrow> bool" where
  "same_content s s' = (workspace_id s' = workspace_id s \<and> session_id s' = session_id s
     \<and> chunk_manifest s' = chunk_manifest s \<and> offset s' = offset s)"

lemma entry_inv_same_content:
  assumes "entry_inv st ws sid s e" and "same_content s s'" and "storable s'" and "is_terminal (status s')"
  shows "entry_inv st ws sid s' e"
proof -
  have "manifest_of s' = manifest_of s" using assms(2) by (simp add: fun_eq_iff manifest_of_def same_content_def)
  moreover from assms(1) obtain cs where "manifest_of s cs" "\<forall>t. e = Some t \<longrightarrow> t \<le> st_now st + 86400000"
    by (auto simp: entry_inv_def)
  ultimately show ?thesis using assms by (auto simp: entry_inv_def same_content_def)
qed

lemma store_ok_updated:
  assumes ok: "store_ok st" and s: "entry_inv st0 ws sid s e0" "same_content s s'" "storable s'" "is_terminal (status s')"
    and same: "\<And>s'' t. st_sessions st ws sid = Some (Some s'', Some t) \<Longrightarrow> same_content s'' s'"
    and upd: "updated_session s' st st'"
  shows "store_ok st'" and "st_sessions st' ws sid = Some (Some s', expiry_of (st_sessions st ws sid))"
    and "st_counters st' = st_counters st"
proof -
  have ids: "workspace_id s' = ws" "session_id s' = sid"
    using s(1,2) by (auto simp: entry_inv_def same_content_def)
  let ?e = "expiry_of (st_sessions st ws sid)"
  have st': "st' = put_session s' ?e st" using upd ids by (simp add: updated_session_def)
  have "entry_inv st ws sid s' ?e"
  proof (cases ?e)
    case None
    then show ?thesis using entry_inv_same_content [OF s] by (auto simp: entry_inv_def)
  next
    case (Some t)
    then obtain x where x: "st_sessions st ws sid = Some (x, Some t)"
      by (auto simp: expiry_of_def split: option.splits)
    then obtain s'' where "x = Some s''" "entry_inv st ws sid s'' (Some t)"
      using ok sessions_okD [of st] unfolding store_ok_def by blast
    with same x Some show ?thesis using entry_inv_same_content [OF _ _ s(3,4)] by auto
  qed
  then show "store_ok st'" unfolding st' by (intro store_ok_put_session ok) (simp add: ids)
  show "st_sessions st' ws sid = Some (Some s', ?e)" "st_counters st' = st_counters st"
    using ids by (simp_all add: st' put_session_def)
qed

text \<open>A new session has no chunks.\<close>

lemma entry_inv_new:
  assumes "storable s" and "manifest_of s []" and "\<And>t. e = Some t \<Longrightarrow> t \<le> st_now st + 86400000"
  shows "entry_inv st (workspace_id s) (session_id s) s e"
  using assms by (auto simp: entry_inv_def chunks_kept_def intro!: exI [of _ "[]"])

lemma store_ok_interrupted:
  assumes ok: "store_ok st" and s: "storable s" "manifest_of s []" and c: "create_interrupted s st st'"
  shows "store_ok st'" and "st_counters st' = st_counters st"
proof -
  have "store_ok (put_session s (Some (st_now st + 86400000)) st)"
    by (intro store_ok_put_session ok entry_inv_new s) simp
  moreover have "\<not> (\<exists>e. st_sessions st (workspace_id s) (session_id s) = Some (None, e))"
    using ok by (auto simp: store_ok_def sessions_ok_def)
  ultimately show "store_ok st'"
    using c ok store_ok_put_expired unfolding create_interrupted_def by blast
  show "st_counters st' = st_counters st"
    using c by (auto simp: create_interrupted_def put_expired_def put_session_def same_but_session_def)
qed

text \<open>Bytes may be written at an index that the manifest does not list, and at any index of a finished session.\<close>

lemma store_ok_put_chunk:
  assumes ok: "store_ok st"
    and fresh: "\<And>s e cs. st_sessions st ws sid = Some (Some s, e) \<Longrightarrow> manifest_of s cs \<Longrightarrow>
      is_terminal (status s) \<or> length cs \<le> i"
  shows "store_ok (put_chunk ws sid (str_int (int i)) x st)"
proof -
  let ?st = "put_chunk ws sid (str_int (int i)) x st"
  have stored: "chunk_stored ?st ws' sid' t k y"
    if "chunk_stored st ws' sid' t k y" "(ws', sid') \<noteq> (ws, sid) \<or> k \<noteq> i" for ws' sid' t k y
    using that by (auto simp: chunk_stored_def put_chunk_def)
  have "entry_inv ?st ws' sid' s e"
    if s: "st_sessions st ws' sid' = Some (Some s, e)" "entry_inv st ws' sid' s e" for ws' sid' s e
  proof -
    from s(2) obtain cs where cs: "manifest_of s cs"
      "\<forall>t. e = Some t \<longrightarrow> t \<le> st_now st + 86400000 \<and> chunks_kept st ws' sid' t s cs"
      by (auto simp: entry_inv_def)
    have now: "st_now ?st = st_now st" by (simp add: put_chunk_def)
    have "is_terminal (status s) \<or> (\<forall>k < length cs. (ws', sid') \<noteq> (ws, sid) \<or> k \<noteq> i)"
      using fresh [OF _ cs(1)] s(1) by fastforce
    then have "\<forall>t. e = Some t \<longrightarrow> t \<le> st_now ?st + 86400000 \<and> chunks_kept ?st ws' sid' t s cs"
      using cs(2) stored unfolding chunks_kept_def now by blast
    with cs(1) s(2) show ?thesis unfolding entry_inv_def by blast
  qed
  moreover have "st_sessions ?st = st_sessions st" "st_counters ?st = st_counters st"
    by (simp_all add: put_chunk_def)
  ultimately show ?thesis
    using ok unfolding store_ok_def counters_ok_def sessions_ok_def by metis
qed

section \<open>The bytes received\<close>

definition chunk_bytes :: "store \<Rightarrow> uuid \<Rightarrow> uuid \<Rightarrow> nat \<Rightarrow> bytes" where
  "chunk_bytes st ws sid i = (case st_chunks st ws sid (str_int (int i)) of None \<Rightarrow> [] | Some (b, _) \<Rightarrow> b)"

definition content_in :: "store \<Rightarrow> uuid \<Rightarrow> uuid \<Rightarrow> bytes" where
  "content_in st ws sid = (case session_in st ws sid of
     None \<Rightarrow> []
   | Some s \<Rightarrow> concat (map (chunk_bytes st ws sid) [0..<length (chunk_manifest s)]))"

section \<open>Consequences of the contracts\<close>

context session_store
begin

lemma create_then_get:
  assumes s: "storable s"
  shows "wp (bnd (create_session S s) (\<lambda>_. get_session S (workspace_id s) (session_id s)))
     (\<lambda>r w'. r = Some s \<or> r = None \<and> st_now (view w) + 86400000 \<le> st_now (view w')) (\<lambda>_ _. True) w"
  unfolding wp_bnd
proof (rule wp_use [OF performsD [OF create [OF s]]], goal_cases)
  case (1 _ w1)
  then obtain st1 where st1: "passes (view w) st1" "view w1 = put_expired (session_id s)
      (Some (expiry_metadata_of s, Some (st_now st1 + 604800000)))
      (put_session s (Some (st_now st1 + 86400000)) st1)" by blast
  have ids: "workspace_id s \<noteq> 0" "session_id s \<noteq> 0" using s by (simp_all add: storable_def)
  show ?case
  proof (rule wp_use [OF performsD [OF get [OF ids]]], goal_cases)
    case (1 r w')
    then have p: "passes (view w1) (view w')" by blast
    show ?case
      using 1 passesD(1) [OF st1(1)] passesD(1,2) [OF p]
      by (auto simp: st1(2) session_in_def put_expired_def put_session_def tick_value_def split: if_splits)
  qed simp
qed simp

end

text \<open>The counters of other workspaces and all sessions, up to expiry.\<close>

definition others_kept :: "uuid \<Rightarrow> store \<Rightarrow> store \<Rightarrow> bool" where
  "others_kept ws st st' =
     ((\<forall>ws' \<in> - {ws}. st_counters st' ws' = tick_value (st_now st') (st_counters st ws'))
      \<and> (\<forall>ws' sid. st_sessions st' ws' sid = tick_value (st_now st') (st_sessions st ws' sid)))"

context rate_limiter
begin

text \<open>The two operations on a store that satisfies the invariant, for a workspace with \<open>n\<close> uploads.\<close>

lemma check_step_wp:
  assumes ws: "ws \<noteq> 0" and ok: "store_ok (view w)" and n: "count_in (view w) ws = Some n"
  shows "wp (check_and_increment L ws)
     (\<lambda>_ w'. rest w' = rest w \<and> store_ok (view w') \<and> n < limit \<and> count_in (view w') ws = Some (n + 1))
     (\<lambda>e w'. rest w' = rest w \<and> store_ok (view w') \<and> check_and_increment L ws w = (Inl e, w')
        \<and> (is_RateLimitExceededError e \<and> limit \<le> n \<and> count_in (view w') ws = Some n \<or> is_InfrastructureError e)) w"
proof (rule wp_use [OF wp_run [OF performsD [OF check [OF ws]]]], goal_cases)
  case (1 x w')
  then obtain st1 k where st1: "passes (view w) st1" "count_in st1 ws = Some k" "k < limit"
    "view w' = put_count ws (k + 1) st1" by auto
  have "k = n" using counters_ok_passes(3) [OF _ st1(1)] ok n st1(2) by (simp add: store_ok_def)
  with 1 st1(3,4) store_ok_put_count [OF store_ok_passes [OF ok st1(1)]] show ?case
    by (simp add: put_count_def count_in_def)
next
  case (2 e w')
  then obtain st1 where st1: "passes (view w) st1" "rest w' = rest w" "check_and_increment L ws w = (Inl e, w')"
    "is_RateLimitExceededError e \<and> view w' = st1 \<and> (\<forall>k. count_in st1 ws = Some k \<longrightarrow> limit \<le> k)
     \<or> is_InfrastructureError e \<and> (view w' = st1 \<or> (\<exists>k. count_in st1 ws = Some k \<and> view w' = put_count ws (k + 1) st1))"
    by blast
  have "store_ok st1" "count_in st1 ws = Some n"
    using store_ok_passes [OF ok st1(1)] counters_ok_passes(3) [OF _ st1(1)] ok n by (simp_all add: store_ok_def)
  with st1 store_ok_put_count [of st1] show ?case by auto
qed

lemma decr_step_wp:
  assumes ws: "ws \<noteq> 0" and ok: "store_ok (view w)" and n: "count_in (view w) ws = Some n"
  shows "wp (decrement L ws)
     (\<lambda>_ w'. rest w' = rest w \<and> store_ok (view w') \<and> sessions_aged (view w) (view w')
        \<and> count_in (view w') ws = Some (max 0 (n - 1)))
     (\<lambda>e w'. rest w' = rest w \<and> store_ok (view w') \<and> sessions_aged (view w) (view w')
        \<and> is_InfrastructureError e \<and> decrement L ws w = (Inl e, w')) w"
proof (rule wp_use [OF wp_run [OF performsD [OF decr [OF ws]]]], goal_cases)
  case (1 _ w')
  then obtain st1 k where st1: "passes (view w) st1" "count_in st1 ws = Some k"
    "view w' = put_count ws (max 0 (k - 1)) st1" by auto
  have "k = n" using counters_ok_passes(3) [OF _ st1(1)] ok n st1(2) by (simp add: store_ok_def)
  moreover have "store_ok (view w')"
    using st1(3) store_ok_put_count [OF store_ok_passes [OF ok st1(1)]] by simp
  ultimately show ?case using 1 st1 by (auto simp: put_count_def count_in_def sessions_aged_def)
next
  case (2 e w')
  then obtain st1 where st1: "passes (view w) st1" "is_InfrastructureError e" "rest w' = rest w"
    "view w' = st1 \<or> (\<exists>k m. count_in st1 ws = Some k \<and> m \<in> {k - 1, max 0 (k - 1)} \<and> view w' = put_count ws m st1)"
    "decrement L ws w = (Inl e, w')" by auto
  have "count_in st1 ws = Some n" "store_ok st1"
    using counters_ok_passes(3) [OF _ st1(1)] store_ok_passes [OF ok st1(1)] ok n by (simp_all add: store_ok_def)
  then have "store_ok (view w')" using st1(4) store_ok_put_count [of st1] by auto
  moreover have "st_sessions (view w') = st_sessions st1" "st_now (view w') = st_now st1"
    using st1(4) by (auto simp: put_count_def)
  ultimately show ?case using st1 by (auto simp: sessions_aged_def)
qed

lemma check_limit:
  assumes ws: "ws \<noteq> 0" and ok: "store_ok (view w)" and n: "count_in (view w) ws = Some n"
  shows "wp (check_and_increment L ws)
     (\<lambda>_ w'. n < limit \<and> count_in (view w') ws = Some (n + 1) \<and> others_kept ws (view w) (view w'))
     (\<lambda>e w'. is_RateLimitExceededError e \<and> limit \<le> n \<and> passes (view w) (view w') \<or> is_InfrastructureError e) w"
proof (rule wp_use [OF performsD [OF check [OF ws]]], goal_cases)
  case (1 _ w')
  then obtain st1 k where st1: "passes (view w) st1" "count_in st1 ws = Some k" "k < limit"
    "view w' = put_count ws (k + 1) st1" by blast
  have "k = n" using counters_ok_passes(3) [OF _ st1(1)] ok n st1(2) by (simp add: store_ok_def)
  then show ?case
    using st1(3) by (auto simp: st1(4) put_count_def count_in_def others_kept_def passesD [OF st1(1)])
next
  case (2 e w')
  then obtain st1 where st1: "passes (view w) st1"
    "is_RateLimitExceededError e \<and> view w' = st1 \<and> (\<forall>k. count_in st1 ws = Some k \<longrightarrow> limit \<le> k)
      \<or> is_InfrastructureError e" by blast
  have "count_in st1 ws = Some n" using counters_ok_passes(3) [OF _ st1(1)] ok n by (simp add: store_ok_def)
  with st1 show ?case by auto
qed

end

end
