(* ===== verification/Initiate_Upload.thy ===== *)
theory Initiate_Upload
  imports Dto System_State
begin

text \<open>
  \<open>src/application/use_cases/initiate_upload.py\<close>. \<open>initiate_upload\<close> is \<open>execute\<close>: validation, then
  the rate limit, then the session, with the clean-up of the counter when anything after the
  increment raises. \<open>initiate_wp\<close> says what a response means and what a failure leaves of
  the counter, \<open>initiate_invalid_error\<close> that an invalid request touches nothing.
\<close>

definition new_session :: "InitiateUploadRequest \<Rightarrow> uuid \<Rightarrow> datetime \<Rightarrow> datetime \<Rightarrow> exn + UploadSession" where
  "new_session req sid created expires =
     andThen (mk_SHA256Hash (iur_sha256_checksum req)) (\<lambda>h.
       UploadSession_post_init \<lparr>session_id = sid, workspace_id = iur_workspace_id req,
         filename = iur_filename req, file_size = iur_size req, mime_type = iur_mime_type req,
         sha256_checksum = h, offset = 0, status = PENDING, created_at = created,
         expires_at = expires, chunk_manifest = []\<rparr>)"

definition initiate_upload ::
  "'w IRateLimiter \<Rightarrow> 'w ISessionStore \<Rightarrow> 'w environment \<Rightarrow> InitiateUploadRequest
    \<Rightarrow> ('w, InitiateUploadResponse) io" where
  "initiate_upload L S Env req =
     bnd (lift (validate_filename req)) (\<lambda>_.
     bnd (lift (validate_checksum req)) (\<lambda>_.
     bnd (lift (validate_size req)) (\<lambda>_.
     bnd (lift (validate_mime_type req)) (\<lambda>_.
     bnd (check_and_increment L (iur_workspace_id req)) (\<lambda>_.
     catch
       (bnd (uuid4 Env) (\<lambda>sid.
        bnd (now_utc Env) (\<lambda>created.
        bnd (lift (opt_raise OverflowError (add_hours created 24))) (\<lambda>expires.
        bnd (lift (new_session req sid created expires)) (\<lambda>session.
        bnd (create_session S session) (\<lambda>_.
        lift (InitiateUploadResponse_post_init
          \<lparr>ires_session_id = sid, ires_offset = 0, ires_expires_at = expires\<rparr>)))))))
       (\<lambda>e. if is_Exception e
            then bnd (catch (decrement L (iur_workspace_id req))
                   (\<lambda>e'. if is_Exception e' then ret () else raise e')) (\<lambda>_. raise e)
            else raise e))))))"

section \<open>Invalid requests\<close>

lemma initiate_invalid_run:
  "validate_request req = Inl e \<Longrightarrow> initiate_upload L S Env req w = (Inl e, w)"
  by (auto simp: initiate_upload_def validate_request_def andThen_eq_Inl bnd_lift_Inr bnd_lift_Inl)

fun request_error :: "exn \<Rightarrow> bool" where
  "request_error (ValueError m) = True"
| "request_error (FileSizeLimitExceededError n m) = True"
| "request_error (UnsupportedMediaTypeError t ts) = True"
| "request_error _ = False"

lemma initiate_invalid_error:
  assumes "\<not> request_ok req"
  shows "\<exists>e. request_error e \<and> initiate_upload L S Env req w = (Inl e, w)"
proof -
  obtain e where e: "validate_request req = Inl e"
    using assms validate_request_iff [of req] by (cases "validate_request req") auto
  then have "request_error e"
    by (auto simp: validate_request_def validate_filename_def validate_checksum_def validate_size_def
        validate_mime_type_def Let_def andThen_eq_Inl split: if_splits)
  then show ?thesis by (intro exI [of _ e] conjI initiate_invalid_run e)
qed

lemma initiate_valid:
  assumes "request_ok req"
  shows "initiate_upload L S Env req =
     bnd (check_and_increment L (iur_workspace_id req)) (\<lambda>_.
     catch
       (bnd (uuid4 Env) (\<lambda>sid.
        bnd (now_utc Env) (\<lambda>created.
        bnd (lift (opt_raise OverflowError (add_hours created 24))) (\<lambda>expires.
        bnd (lift (new_session req sid created expires)) (\<lambda>session.
        bnd (create_session S session) (\<lambda>_.
        lift (InitiateUploadResponse_post_init
          \<lparr>ires_session_id = sid, ires_offset = 0, ires_expires_at = expires\<rparr>)))))))
       (\<lambda>e. if is_Exception e
            then bnd (catch (decrement L (iur_workspace_id req))
                   (\<lambda>e'. if is_Exception e' then ret () else raise e')) (\<lambda>_. raise e)
            else raise e))"
proof -
  have "validate_filename req = Inr ()" "validate_checksum req = Inr ()" "validate_size req = Inr ()"
    "validate_mime_type req = Inr ()"
    using assms by (simp_all add: request_ok_def validate_filename_iff validate_checksum_iff
        validate_size_iff validate_mime_type_iff)
  then show ?thesis by (simp add: initiate_upload_def)
qed

section \<open>Success\<close>

text \<open>The session a request describes.\<close>

definition session_for :: "InitiateUploadRequest \<Rightarrow> uuid \<Rightarrow> datetime \<Rightarrow> datetime \<Rightarrow> UploadSession" where
  "session_for req sid created expires = \<lparr>session_id = sid, workspace_id = iur_workspace_id req,
     filename = iur_filename req, file_size = iur_size req, mime_type = iur_mime_type req,
     sha256_checksum = SHA256Hash (iur_sha256_checksum req), offset = 0, status = PENDING,
     created_at = created, expires_at = expires, chunk_manifest = []\<rparr>"

definition initiated :: "InitiateUploadRequest \<Rightarrow> InitiateUploadResponse \<Rightarrow> store \<Rightarrow> bool" where
  "initiated req res st = (\<exists>created.
     st_sessions st (iur_workspace_id req) (ires_session_id res)
       = Some (Some (session_for req (ires_session_id res) created (ires_expires_at res)),
               Some (st_now st + 86400000))
     \<and> instant (ires_expires_at res) = instant created + 24 * int usec_hour
     \<and> ires_offset res = 0 \<and> is_aware (ires_expires_at res))"

lemma add_hours_Some:
  assumes "add_hours d h = Some e" and "valid_datetime d"
  shows "valid_datetime e" "utcoff e = utcoff d" "instant e = instant d + int h * int usec_hour"
  using assms by (auto simp: add_hours_def Let_def valid_datetime_def instant_def split: if_splits)

lemma new_session_Inr:
  assumes "new_session req sid created expires = Inr s"
  shows "s = session_for req sid created expires" "session_ok s" "valid_hash (sha256_checksum s)"
  using assms by (auto simp: new_session_def mk_SHA256Hash_iff UploadSession_post_init_iff
      session_for_def valid_hash_def)

lemma new_session_exception: "new_session req sid created expires = Inl e \<Longrightarrow> is_Exception e"
  by (auto simp: new_session_def andThen_eq_Inl dest: mk_SHA256Hash_error UploadSession_post_init_error)

lemma new_session_storable:
  assumes "new_session req sid created expires = Inr s" and "iur_workspace_id req \<noteq> 0" "sid \<noteq> 0"
    and "valid_datetime created" "valid_datetime expires"
  shows "storable s"
  using assms new_session_Inr [OF assms(1)] by (simp add: storable_def session_for_def)

lemma new_session_empty: "manifest_of (session_for req sid created expires) []"
  by (simp add: manifest_of_def session_for_def total_size_def)

text \<open>Why a call may raise after the rate limit was checked.\<close>

definition init_failure :: "InitiateUploadRequest \<Rightarrow> exn \<Rightarrow> bool" where
  "init_failure req e = (is_InfrastructureError e \<or> e = OverflowError
     \<or> (\<exists>sid created expires. new_session req sid created expires = Inl e))"

text \<open>The session was written, or at most written, after some time.\<close>

definition session_made :: "InitiateUploadRequest \<Rightarrow> store \<Rightarrow> InitiateUploadResponse \<Rightarrow> store \<Rightarrow> bool" where
  "session_made req st res st' = (\<exists>st1 s. passes st st1 \<and> storable s \<and> manifest_of s []
     \<and> workspace_id s = iur_workspace_id req \<and> session_id s = ires_session_id res \<and> initiated req res st'
     \<and> st' = put_expired (session_id s) (Some (expiry_metadata_of s, Some (st_now st1 + 604800000)))
         (put_session s (Some (st_now st1 + 86400000)) st1))"

definition session_tried :: "InitiateUploadRequest \<Rightarrow> store \<Rightarrow> store \<Rightarrow> bool" where
  "session_tried req st st' = (\<exists>st1. passes st st1
     \<and> (st' = st1 \<or> (\<exists>s. storable s \<and> manifest_of s [] \<and> workspace_id s = iur_workspace_id req
          \<and> create_interrupted s st1 st')))"

lemma session_made_ok:
  assumes m: "session_made req st res st'" and ok: "store_ok st"
  shows "store_ok st'" and "count_in st' ws = count_in st ws"
proof -
  from m obtain st1 s where st1: "passes st st1" "storable s" "manifest_of s []"
    "st' = put_expired (session_id s) (Some (expiry_metadata_of s, Some (st_now st1 + 604800000)))
      (put_session s (Some (st_now st1 + 86400000)) st1)" by (auto simp: session_made_def)
  show "store_ok st'"
    unfolding st1(4) using st1(2,3)
    by (intro store_ok_put_expired store_ok_put_session entry_inv_new store_ok_passes [OF ok st1(1)]) auto
  have "count_in st' ws = count_in st1 ws" by (simp add: st1(4) put_expired_def put_session_def count_in_def)
  then show "count_in st' ws = count_in st ws"
    using counters_ok_passes(3) [OF _ st1(1)] ok by (simp add: store_ok_def)
qed

lemma session_tried_ok:
  assumes t: "session_tried req st st'" and ok: "store_ok st"
  shows "store_ok st'" and "count_in st' ws = count_in st ws"
proof -
  from t obtain st1 where st1: "passes st st1"
    "st' = st1 \<or> (\<exists>s. storable s \<and> manifest_of s [] \<and> create_interrupted s st1 st')"
    by (auto simp: session_tried_def)
  have ok1: "store_ok st1" by (rule store_ok_passes [OF ok st1(1)])
  with st1(2) show "store_ok st'" using store_ok_interrupted(1) by blast
  have "st_counters st' = st_counters st1" using st1(2) store_ok_interrupted(2) [OF ok1] by blast
  then show "count_in st' ws = count_in st ws"
    using counters_ok_passes(3) [OF _ st1(1)] ok by (simp add: store_ok_def count_in_def)
qed

locale initiate_services =
  session_store S view rest + rate_limiter L limit view rest + environment Env view rest
  for S :: "'w ISessionStore" and L :: "'w IRateLimiter" and limit :: int
    and Env :: "'w environment" and view :: "'w \<Rightarrow> store" and rest :: "'w \<Rightarrow> 'o"
begin

text \<open>The new session is stored.\<close>

lemma store_new_wp:
  assumes new: "new_session req sid created expires = Inr s" and ids: "iur_workspace_id req \<noteq> 0" "sid \<noteq> 0"
    and valid: "valid_datetime created" "valid_datetime expires" "is_aware expires"
      "instant expires = instant created + 24 * int usec_hour"
    and p: "passes st0 (view w)"
  shows "wp (create_session S s)
     (\<lambda>_ w'. rest w' = rest w
        \<and> session_made req st0 \<lparr>ires_session_id = sid, ires_offset = 0, ires_expires_at = expires\<rparr> (view w'))
     (\<lambda>e w'. rest w' = rest w \<and> is_InfrastructureError e \<and> session_tried req st0 (view w')) w"
proof -
  note s = new_session_Inr [OF new] new_session_storable [OF new ids valid(1,2)]
  have id: "workspace_id s = iur_workspace_id req" "session_id s = sid" and man: "manifest_of s []"
    by (simp_all add: s(1) session_for_def new_session_empty [unfolded session_for_def])
  show ?thesis
  proof (rule wp_use [OF performsD [OF create [OF s(4)]]], goal_cases)
    case (1 _ w')
    then obtain st1 where st1: "passes (view w) st1"
      "view w' = put_expired sid (Some (expiry_metadata_of s, Some (st_now st1 + 604800000)))
        (put_session s (Some (st_now st1 + 86400000)) st1)" "rest w' = rest w"
      using id by auto
    then have "initiated req \<lparr>ires_session_id = sid, ires_offset = 0, ires_expires_at = expires\<rparr> (view w')"
      using valid by (auto simp: initiated_def put_expired_def put_session_def s(1) session_for_def)
    moreover have "passes st0 st1" by (rule passes_trans [OF p st1(1)])
    ultimately show ?case using st1(2,3) s(4) id man by (auto simp: session_made_def)
  next
    case (2 e w')
    then obtain st1 where st1: "passes (view w) st1" "is_InfrastructureError e"
      "create_interrupted s st1 (view w')" "rest w' = rest w" by auto
    with passes_trans [OF p st1(1)] s(4) id man show ?case by (auto simp: session_tried_def)
  qed
qed

text \<open>The part after the increment: it returns with the session in place, or it raises and has at
  most written the new session.\<close>

lemma create_part_wp:
  assumes ws: "iur_workspace_id req \<noteq> 0"
  shows "wp (bnd (uuid4 Env) (\<lambda>sid.
        bnd (now_utc Env) (\<lambda>created.
        bnd (lift (opt_raise OverflowError (add_hours created 24))) (\<lambda>expires.
        bnd (lift (new_session req sid created expires)) (\<lambda>session.
        bnd (create_session S session) (\<lambda>_.
        lift (InitiateUploadResponse_post_init
          \<lparr>ires_session_id = sid, ires_offset = 0, ires_expires_at = expires\<rparr>)))))))
     (\<lambda>res w'. rest w' = rest w \<and> session_made req (view w) res (view w'))
     (\<lambda>e w'. rest w' = rest w \<and> is_Exception e \<and> init_failure req e \<and> session_tried req (view w) (view w')) w"
    (is "wp _ ?Q ?E w")
  unfolding wp_bnd
proof (rule wp_use [OF performsD [OF uuid4]], goal_cases)
  case w1: (1 sid w1)
  show ?case
  proof (rule wp_use [OF performsD [OF now_utc]], goal_cases)
    case w2: (1 created w2)
    have p2: "passes (view w) (view w2)" "rest w2 = rest w" "sid \<noteq> 0" using w1 w2 passes_trans by auto
    have refl: "?E e w2" if "is_Exception e" "init_failure req e" for e
      using that p2 by (auto simp: session_tried_def)
    show ?case
    proof (cases "add_hours created 24")
      case None
      then show ?thesis using refl [of OverflowError] by (simp add: wp_rules init_failure_def)
    next
      case expires: (Some expires)
      have valid: "valid_datetime created" "valid_datetime expires" "is_aware expires"
        "instant expires = instant created + 24 * int usec_hour"
        using w2 add_hours_Some [OF expires] by (simp_all add: is_aware_def)
      show ?thesis
      proof (cases "new_session req sid created expires")
        case (Inl e)
        then have "is_Exception e" "init_failure req e"
          using new_session_exception [OF Inl] by (auto simp: init_failure_def)
        then show ?thesis using Inl expires refl [of e] by (simp add: wp_rules)
      next
        case (Inr s)
        have r: "InitiateUploadResponse_post_init \<lparr>ires_session_id = sid, ires_offset = 0, ires_expires_at = expires\<rparr>
            = Inr \<lparr>ires_session_id = sid, ires_offset = 0, ires_expires_at = expires\<rparr>"
          using valid(3) by (simp add: InitiateUploadResponse_post_init_def)
        show ?thesis
          unfolding wp_lift expires Inr opt_raise_simps sum.case r
          by (rule wp_use [OF store_new_wp [OF Inr ws p2(3) valid p2(1)]])
            (use p2(2) is_Exception_simps(3) in \<open>auto simp: init_failure_def\<close>)
      qed
    qed
  qed simp
qed simp

text \<open>The whole use case on a valid request.\<close>

lemma initiate_wp:
  assumes req: "request_ok req" "iur_workspace_id req \<noteq> 0"
    and ok: "store_ok (view w)" and n: "count_in (view w) (iur_workspace_id req) = Some n"
  shows "wp (initiate_upload L S Env req)
     (\<lambda>res w'. rest w' = rest w \<and> store_ok (view w') \<and> initiated req res (view w') \<and> n < limit
        \<and> count_in (view w') (iur_workspace_id req) = Some (n + 1))
     (\<lambda>e w'. rest w' = rest w \<and> store_ok (view w')
        \<and> (init_failure req e \<or> is_RateLimitExceededError e \<and> limit \<le> n)
        \<and> (count_in (view w') (iur_workspace_id req) \<in> {Some n, Some (max 0 n)}
           \<or> (\<exists>e. check_and_increment L (iur_workspace_id req) w = (Inl e, w') \<and> is_InfrastructureError e)
           \<or> (\<exists>e w1. decrement L (iur_workspace_id req) w1 = (Inl e, w')))) w"
    (is "wp _ ?Q ?E w")
  unfolding initiate_valid [OF req(1)] wp_bnd
proof (rule wp_use [OF check_step_wp [OF req(2) ok n]], goal_cases)
  case w1: (1 _ w1)
  let ?ws = "iur_workspace_id req"
  have ok1: "store_ok (view w1)" and n1: "count_in (view w1) ?ws = Some (n + 1)" using w1 by blast+
  show ?case
    unfolding wp_catch
  proof (rule wp_use [OF create_part_wp [OF req(2)]], goal_cases)
    case (1 res w')
    then have made: "session_made req (view w1) res (view w')" by blast
    then have "initiated req res (view w')" by (auto simp: session_made_def)
    with 1 w1 session_made_ok [OF made ok1] show ?case by simp
  next
    case (2 e w2)
    then have w2: "init_failure req e" "is_Exception e" "rest w2 = rest w" "session_tried req (view w1) (view w2)"
      using w1 by auto
    note tried = session_tried_ok [OF w2(4) ok1]
    have "count_in (view w2) ?ws = Some (n + 1)" using tried(2) n1 by simp
    note undo = decr_step_wp [OF req(2) tried(1) this]
    show ?case
      unfolding if_P [OF w2(2)] wp_bnd wp_fun(2) wp_catch
    proof (rule wp_use [OF undo], goal_cases)
      case (2 e' w')
      then have "is_Exception e'" by (cases e') auto
      with 2 w2(1,3) show ?case by (auto simp: wp_rules)
    qed (use w2(1,3) in simp)
  qed
next
  case (2 e w')
  then show ?case by (auto simp: init_failure_def)
qed

end

end
