(* ===== verification/Domain_Services.thy ===== *)
theory Domain_Services
  imports Protocols
begin

text \<open>
  \<open>src/domain/services\<close>. \<open>verify_chunk\<close> is \<open>ChunkVerifier.verify_chunk\<close>: \<open>verify_chunk_iff\<close> says that
  it accepts a chunk exactly when the checksum is the SHA-256 of the data, and \<open>verify_chunk_mismatch\<close>
  which exception it raises otherwise. \<open>check_for_duplicate\<close> and \<open>register_upload\<close> are the
  \<open>DeduplicationService\<close>, on any store that keeps the contract \<open>dedup_store\<close>.
\<close>

section \<open>ChunkVerifier\<close>

definition verify_chunk :: "bytes \<Rightarrow> string \<Rightarrow> int option \<Rightarrow> exn + unit" where
  "verify_chunk data expected_checksum chunk_index =
     andThen (check (case chunk_index of None \<Rightarrow> True | Some i \<Rightarrow> i \<ge> 0)
                (ValueError ''chunk_index cannot be negative'')) (\<lambda>_.
     andThen (mk_SHA256Hash expected_checksum) (\<lambda>expected_hash.
     andThen (SHA256Hash_from_bytes data) (\<lambda>computed_hash.
     if \<not> SHA256Hash_eq computed_hash expected_hash
     then Inl (new_ChecksumMismatchError (hash_value expected_hash) (hash_value computed_hash)
                 chunk_index (int (length data)))
     else Inr ())))"

definition index_ok :: "int option \<Rightarrow> bool" where
  "index_ok i = (case i of None \<Rightarrow> True | Some k \<Rightarrow> k \<ge> 0)"

lemma verify_chunk_iff:
  "verify_chunk data c i = Inr () \<longleftrightarrow> index_ok i \<and> c = sha256_hex data"
  by (auto simp: verify_chunk_def index_ok_def mk_SHA256Hash_iff)

lemma verify_chunk_mismatch:
  assumes "index_ok i" and "length c = 64" and "list_all is_hex_lower c" and "c \<noteq> sha256_hex data"
  shows "verify_chunk data c i = Inl (ChecksumMismatchError c (sha256_hex data) i (int (length data)))"
proof -
  have "mk_SHA256Hash c = Inr (SHA256Hash c)" using assms by (simp add: mk_SHA256Hash_iff)
  moreover have "c \<noteq> []" using assms(2) by auto
  ultimately show ?thesis
    using assms by (auto simp: verify_chunk_def index_ok_def new_ChecksumMismatchError_def split: option.splits)
qed

lemma verify_chunk_malformed:
  assumes "index_ok i" and "\<not> (length c = 64 \<and> list_all is_hex_lower c)"
  shows "\<exists>e. verify_chunk data c i = Inl e \<and> is_ValueError e"
proof -
  obtain e where "mk_SHA256Hash c = Inl e"
    using assms(2) by (cases "mk_SHA256Hash c") (auto simp: mk_SHA256Hash_iff)
  then show ?thesis
    using assms(1) mk_SHA256Hash_error [of c e] by (simp add: verify_chunk_def index_ok_def)
qed

lemma verify_chunk_outcome:
  "\<exists>m. verify_chunk data c i =
     (if index_ok i \<and> c = sha256_hex data then Inr ()
      else if index_ok i \<and> valid_hash (SHA256Hash c)
        then Inl (ChecksumMismatchError c (sha256_hex data) i (int (length data)))
      else Inl (ValueError m))"
proof (cases "index_ok i")
  case False
  then show ?thesis by (auto simp: verify_chunk_def index_ok_def)
next
  case True
  show ?thesis
  proof (cases "valid_hash (SHA256Hash c)")
    case valid: True
    then show ?thesis
      using True verify_chunk_mismatch [OF True, of c data] verify_chunk_iff [of data c i]
      by (auto simp: valid_hash_def)
  next
    case False
    then obtain e where e: "verify_chunk data c i = Inl e" "is_ValueError e"
      using verify_chunk_malformed [OF True, of c data] by (auto simp: valid_hash_def)
    moreover from False have "c \<noteq> sha256_hex data"
      by (auto simp: valid_hash_def sha256_hex_lower)
    moreover from e(1) False True obtain m where "e = ValueError m"
      by (auto simp: verify_chunk_def index_ok_def mk_SHA256Hash_def valid_hash_def split: if_splits)
    ultimately show ?thesis using False by simp
  qed
qed

section \<open>DeduplicationService\<close>

definition check_for_duplicate :: "'w IDeduplicationStore \<Rightarrow> uuid \<Rightarrow> SHA256Hash \<Rightarrow> ('w, unit) io" where
  "check_for_duplicate D ws sha =
     bnd (check_duplicate D ws sha) (\<lambda>metadata. case metadata of
       None \<Rightarrow> ret ()
     | Some m \<Rightarrow> raise (new_DuplicateFileError (SHA256Hash_str sha) (fm_file_id m) (fm_s3_path m)
                    (fm_uploaded_at m)))"

definition register_upload :: "'w IDeduplicationStore \<Rightarrow> uuid \<Rightarrow> SHA256Hash \<Rightarrow> FileMetadata \<Rightarrow> ('w, unit) io" where
  "register_upload D ws sha metadata = register_file D ws sha metadata"

context dedup_store
begin

lemma check_for_duplicate_wp:
  assumes ws: "ws \<noteq> 0"
  shows "wp (check_for_duplicate D ws h)
     (\<lambda>_ w'. passes (view w) (view w') \<and> file_in (view w') ws (hash_value h) = None)
     (\<lambda>e w'. passes (view w) (view w') \<and> (is_InfrastructureError e \<or> e = AsyncTimeoutError
        \<or> st_files (view w') ws (hash_value h) \<noteq> None \<and> file_in (view w') ws (hash_value h) = None
        \<or> (\<exists>m. file_in (view w') ws (hash_value h) = Some m
              \<and> e = new_DuplicateFileError (hash_value h) (fm_file_id m) (fm_s3_path m) (fm_uploaded_at m)))) w"
  unfolding check_for_duplicate_def wp_bnd
  by (rule wp_use [OF performsD [OF check_dup [OF ws, of h]]])
    (auto simp: wp_rules SHA256Hash_str_def split: option.splits)

lemma register_then_check:
  assumes ws: "ws \<noteq> 0" and m: "metadata_storable m"
  shows "wp (register_upload D ws h m)
     (\<lambda>_ w'. file_in (view w') ws (hash_value h) = Some m
        \<and> (\<forall>ws' h'. (ws', h') \<noteq> (ws, hash_value h) \<longrightarrow>
             st_files (view w') ws' h' = tick_value (st_now (view w')) (st_files (view w) ws' h')))
     (\<lambda>_ _. True) w"
  unfolding register_upload_def
proof (rule wp_use [OF performsD [OF register [OF ws m, of h]]], goal_cases)
  case (1 x w')
  then obtain st1 y where st1: "passes (view w) st1" "view w' = put_file ws (hash_value h) (Some (Some m, y)) st1"
    by (auto simp: registered_file_def)
  then show ?case by (auto simp: put_file_def file_in_def passesD)
qed simp

lemma register_then_duplicate:
  assumes ws: "ws \<noteq> 0" and m: "metadata_storable m"
  shows "wp (bnd (register_upload D ws h m) (\<lambda>_. check_for_duplicate D ws h))
     (\<lambda>_ w'. st_files (view w') ws (hash_value h) = None)
     (\<lambda>e _. is_InfrastructureError e \<or> e = AsyncTimeoutError
        \<or> e = new_DuplicateFileError (hash_value h) (fm_file_id m) (fm_s3_path m) (fm_uploaded_at m)) w"
  unfolding wp_bnd register_upload_def
proof (rule wp_use [OF performsD [OF register [OF ws m, of h]]], goal_cases)
  case (1 _ w1)
  then obtain y where "st_files (view w1) ws (hash_value h) = Some (Some m, y)"
    by (auto simp: registered_file_def put_file_def)
  then have later: "st_files st ws (hash_value h) \<in> {None, Some (Some m, y)}" if "passes (view w1) st" for st
    by (auto simp: passesD(6) [OF that] tick_value_def split: option.splits)
  show ?case
  proof (rule wp_use [OF check_for_duplicate_wp [OF ws, of h w1]], goal_cases)
    case (1 _ w')
    then show ?case using later [of "view w'"] by (auto simp: file_in_def)
  next
    case (2 e w')
    then show ?case using later [of "view w'"] by (auto simp: file_in_def)
  qed
qed auto

end

end
