(* ===== verification/Chunk_Cache.thy ===== *)
theory Chunk_Cache
  imports Serialization
begin

text \<open>
  The chunk data in Redis: \<open>ProcessChunkUseCase\<close> and \<open>CompleteUploadUseCase\<close> call the client
  directly, with the key \<open>chunk:workspace_{..}:session_{..}:index_{..}\<close> and raw bytes as the value. On any
  server that keeps the documented behaviour, these calls keep the contract \<open>chunk_cache\<close>.
\<close>

text \<open>The chunk operations of a Redis client.\<close>

abbreviation redis_set_chunk :: "'w redis_client \<Rightarrow> uuid \<Rightarrow> uuid \<Rightarrow> string \<Rightarrow> bytes \<Rightarrow> nat \<Rightarrow> ('w, unit) io" where
  "redis_set_chunk R \<equiv> (\<lambda>ws sid i b secs. r_set R (chunk_key ws sid i) b secs)"

abbreviation redis_get_chunk :: "'w redis_client \<Rightarrow> uuid \<Rightarrow> uuid \<Rightarrow> string \<Rightarrow> ('w, reply option) io" where
  "redis_get_chunk R \<equiv> (\<lambda>ws sid i. r_get R (chunk_key ws sid i))"

abbreviation redis_delete_chunk :: "'w redis_client \<Rightarrow> uuid \<Rightarrow> uuid \<Rightarrow> string \<Rightarrow> ('w, int) io" where
  "redis_delete_chunk R \<equiv> (\<lambda>ws sid i. r_delete R [chunk_key ws sid i])"

lemma cmd_set_chunk:
  "0 < secs \<Longrightarrow> store_of t (snd (cmd_set (chunk_key ws sid i) b secs t d))
    = put_chunk ws sid i (Some (b, Some (t + secs * 1000))) (store_of t d)"
  by (simp add: cmd_set_def store_of_upd chunk_value_def)

lemma cmd_delete_chunk:
  "store_of t (snd (cmd_delete [chunk_key ws sid i] t d)) = put_chunk ws sid i None (store_of t d)"
proof -
  have "d |` (- {chunk_key ws sid i}) = d(chunk_key ws sid i := None)" by (auto simp: restrict_map_def)
  then show ?thesis by (simp add: cmd_delete_def store_of_upd)
qed

lemma cmd_get_chunk:
  "fst (cmd_get (chunk_key ws sid i) t d) = Some r \<Longrightarrow> r = map_option fst (st_chunks (store_of t d) ws sid i)"
  by (auto simp: cmd_get_def store_of_def timed_at_def timed_val_def chunk_value_def
      split: option.splits rvalue.splits)

lemma read_get: "snd (cmd_get k t d) = d"
  by (simp add: cmd_get_def split: option.splits rvalue.splits)

context redis_server
begin

lemma chunk_cache: "chunk_cache (redis_set_chunk R) (redis_get_chunk R) (redis_delete_chunk R) (redis_view now db) rest"
proof (unfold_locales, unfold performs_def, goal_cases)
  case (1 secs ws sid i b)
  show ?case
  proof
    fix w
    show "wp (r_set R (chunk_key ws sid i) b secs)
       (\<lambda>x w'. rest w' = rest w \<and> (\<exists>st1. passes (redis_view now db w) st1
          \<and> redis_view now db w' = put_chunk ws sid i (Some (b, Some (st_now st1 + secs * 1000))) st1))
       (\<lambda>e w'. rest w' = rest w \<and> (\<exists>st1. passes (redis_view now db w) st1 \<and> is_RedisError e
          \<and> (redis_view now db w' = st1
              \<or> redis_view now db w' = put_chunk ws sid i (Some (b, Some (st_now st1 + secs * 1000))) st1))) w"
    proof (rule wp_use [OF obeys_view [OF setex]], goal_cases)
      case (1 x w')
      then obtain d where "passes (redis_view now db w) (store_of (now w') d)"
        "db w' = snd (cmd_set (chunk_key ws sid i) b secs (now w') d)" by (metis snd_conv)
      with 1 cmd_set_chunk [OF \<open>0 < secs\<close>, of "now w'"] show ?case by (auto simp: redis_view_def)
    next
      case (2 e w')
      with cmd_set_chunk [OF \<open>0 < secs\<close>, of "now w'"] show ?case by (auto simp: redis_view_def)
    qed
  qed
next
  case (2 ws sid i)
  show ?case
  proof
    fix w
    show "wp (r_get R (chunk_key ws sid i))
       (\<lambda>r w'. rest w' = rest w \<and> passes (redis_view now db w) (redis_view now db w')
          \<and> r = map_option (\<lambda>c. RBytes (fst c)) (st_chunks (redis_view now db w') ws sid i))
       (\<lambda>e w'. rest w' = rest w \<and> passes (redis_view now db w) (redis_view now db w') \<and> is_RedisError e) w"
    proof (rule wp_use [OF obeys_read [OF get read_get]], goal_cases)
      case (1 r w')
      then show ?case
        by (auto simp: redis_view_def rep_blob_def option.map_comp o_def dest!: cmd_get_chunk)
    qed simp
  qed
next
  case (3 ws sid i)
  show ?case
  proof
    fix w
    show "wp (r_delete R [chunk_key ws sid i])
       (\<lambda>_ w'. rest w' = rest w \<and> (\<exists>st1. passes (redis_view now db w) st1
          \<and> redis_view now db w' = put_chunk ws sid i None st1))
       (\<lambda>e w'. rest w' = rest w \<and> (\<exists>st1. passes (redis_view now db w) st1 \<and> is_RedisError e
          \<and> (redis_view now db w' = st1 \<or> redis_view now db w' = put_chunk ws sid i None st1))) w"
    proof (rule wp_use [OF obeys_view [OF delete]], goal_cases)
      case (1 x w')
      then obtain d where "passes (redis_view now db w) (store_of (now w') d)"
        "db w' = snd (cmd_delete [chunk_key ws sid i] (now w') d)" by (metis snd_conv)
      with 1 show ?case by (auto simp: redis_view_def cmd_delete_chunk)
    next
      case (2 e w')
      then show ?case by (auto simp: redis_view_def cmd_delete_chunk)
    qed
  qed
qed

end

interpretation mem_chunks: chunk_cache "redis_set_chunk mem_redis" "redis_get_chunk mem_redis"
  "redis_delete_chunk mem_redis" "redis_view mw_now mem_live" mem_world.more
  by (rule mem.chunk_cache)

end
