(* ===== verification/Process_Chunk.thy ===== *)
theory Process_Chunk
  imports Dto Domain_Services System_State Chunk_Cache
begin

text \<open>
  \<open>src/application/use_cases/process_chunk.py\<close>. \<open>process_chunk\<close> is \<open>execute\<close>, \<open>chunk_step\<close> what it does with the session it found; \<open>record_chunk\<close> is its
  pure part, the three updates of the session entity after the bytes are stored. \<open>process_wp\<close> says
  what one call does: on success exactly the next chunk of the file was appended, with the right
  checksum, to the bytes received so far; on failure the stored session is what it was, unless the
  last write raised although it happened. In both cases the invariant \<open>store_ok\<close> holds again.
\<close>

definition MAX_CHUNK_BYTES :: int where "MAX_CHUNK_BYTES = 10485760"
definition chunk_ttl_seconds :: nat where "chunk_ttl_seconds = 86400"

definition record_chunk :: "int \<Rightarrow> int \<Rightarrow> string \<Rightarrow> int \<Rightarrow> UploadSession \<Rightarrow> exn + UploadSession" where
  "record_chunk chunk_index chunk_size chunk_checksum new_offset s =
     andThen (add_chunk chunk_index chunk_size chunk_checksum s) (\<lambda>s1.
     andThen (update_offset new_offset s1) (\<lambda>s2.
     if status s2 = PENDING then mark_in_progress s2 else Inr s2))"

definition store_chunk :: "'w redis_client \<Rightarrow> uuid \<Rightarrow> uuid \<Rightarrow> int \<Rightarrow> bytes \<Rightarrow> ('w, unit) io" where
  "store_chunk R ws sid i data =
     catch (r_set R (chunk_key ws sid (str_int i)) data chunk_ttl_seconds)
       (\<lambda>e. if is_Exception e
            then raise (InfrastructureError (''Failed to store chunk '' @ str_int i @ '' in Redis: '' @ exn_str e))
            else raise e)"

definition not_found :: "uuid \<Rightarrow> exn" where
  "not_found sid = SessionNotFoundError (''Upload session '' @ uuid_str sid @ '' not found or expired'')"

text \<open>The part after the session is found.\<close>

definition chunk_step :: "'w ISessionStore \<Rightarrow> 'w redis_client \<Rightarrow> ProcessChunkRequest \<Rightarrow> UploadSession
    \<Rightarrow> ('w, ProcessChunkResponse) io" where
  "chunk_step S R req s =
     bnd (guard (\<not> is_terminal (status s))
            (InvalidSessionStateError (session_id s) (status_value (status s)) ''process_chunk'')) (\<lambda>_.
     bnd (guard (pcr_chunk_offset req = offset s)
            (new_OffsetMismatchError (offset s) (pcr_chunk_offset req) (session_id s))) (\<lambda>_.
     let chunk_size = int (length (pcr_chunk_data req)) in
     bnd (guard (chunk_size \<noteq> 0) (ValueError ''Chunk data cannot be empty'')) (\<lambda>_.
     bnd (guard (chunk_size \<le> MAX_CHUNK_BYTES)
            (ValueError (''Chunk size '' @ str_int chunk_size @ '' exceeds maximum 10 MB''))) (\<lambda>_.
     let chunk_index = int (length (chunk_manifest s)) in
     bnd (lift (verify_chunk (pcr_chunk_data req) (pcr_chunk_checksum req) (Some chunk_index))) (\<lambda>_.
     bnd (store_chunk R (pcr_workspace_id req) (pcr_session_id req) chunk_index (pcr_chunk_data req)) (\<lambda>_.
     let new_offset = offset s + chunk_size in
     bnd (lift (record_chunk chunk_index chunk_size (pcr_chunk_checksum req) new_offset s)) (\<lambda>s'.
     bnd (update_session S s') (\<lambda>_.
     ret \<lparr>pcres_new_offset = new_offset\<rparr>))))))))"

definition process_chunk :: "'w ISessionStore \<Rightarrow> 'w redis_client \<Rightarrow> ProcessChunkRequest
    \<Rightarrow> ('w, ProcessChunkResponse) io" where
  "process_chunk S R req =
     bnd (get_session S (pcr_workspace_id req) (pcr_session_id req)) (\<lambda>found.
     case found of
       None \<Rightarrow> raise (not_found (pcr_session_id req))
     | Some s \<Rightarrow> chunk_step S R req s)"

section \<open>The pure part\<close>

definition appended :: "UploadSession \<Rightarrow> bytes \<Rightarrow> UploadSession" where
  "appended s data = s\<lparr>
     chunk_manifest := chunk_manifest s
       @ [chunk_entry (int (length (chunk_manifest s))) (int (length data)) (sha256_hex data)],
     offset := offset s + int (length data),
     status := IN_PROGRESS\<rparr>"

lemma strip_sha256: "strip (sha256_hex data) \<noteq> []"
proof -
  have ne: "sha256_hex data \<noteq> []" by simp
  have no_space: "\<not> is_space c" if "c \<in> set (sha256_hex data)" for c
  proof -
    have "is_hex_lower c" using that sha256_hex_lower [of data] by (simp add: list_all_iff)
    then show ?thesis by (auto simp: is_hex_lower_def is_space_def code_def)
  qed
  have "strip (sha256_hex data) = sha256_hex data"
    using ne no_space [OF hd_in_set [OF ne]] no_space [OF last_in_set [OF ne]] by (rule strip_no_space)
  then show ?thesis by simp
qed

lemma record_chunk_result:
  assumes m: "manifest_of s cs" and s: "session_ok s" "\<not> is_terminal (status s)" and data: "data \<noteq> []"
  shows "record_chunk (int (length (chunk_manifest s))) (int (length data)) (sha256_hex data)
      (offset s + int (length data)) s
    = (if offset s + int (length data) \<le> file_size s then Inr (appended s data)
       else Inl (ValueError ''new_offset must be <= size''))"
proof -
  let ?i = "int (length (chunk_manifest s))"
  let ?s1 = "s\<lparr>chunk_manifest := chunk_manifest s @ [chunk_entry ?i (int (length data)) (sha256_hex data)]\<rparr>"
  have "any_index ?i (chunk_manifest s) = Inr False"
    using m any_index_total [of "chunk_manifest s" ?i]
    by (simp add: manifest_of_def manifest_from_index)
  then have "add_chunk ?i (int (length data)) (sha256_hex data) s = Inr ?s1"
    using data strip_sha256 by (simp add: add_chunk_Inr)
  moreover have "0 \<le> offset s" using s(1) by (simp add: session_ok_def)
  ultimately show ?thesis
    using s(2) by (cases s) (auto simp: record_chunk_def update_offset_def mark_in_progress_def appended_def
        is_terminal_def intro: SessionStatus.exhaust)
qed

lemma manifest_of_appended:
  "manifest_of s cs \<Longrightarrow> data \<noteq> [] \<Longrightarrow> manifest_of (appended s data) (cs @ [(int (length data), sha256_hex data)])"
  by (simp add: manifest_of_def appended_def manifest_from_append)

lemma storable_appended:
  "storable s \<Longrightarrow> offset s + int (length data) \<le> file_size s \<Longrightarrow> storable (appended s data)"
  by (simp add: storable_def session_ok_def appended_def)

lemma appended_ids [simp]:
  "session_id (appended s data) = session_id s" "workspace_id (appended s data) = workspace_id s"
  "offset (appended s data) = offset s + int (length data)" "file_size (appended s data) = file_size s"
  "status (appended s data) = IN_PROGRESS"
  "length (chunk_manifest (appended s data)) = Suc (length (chunk_manifest s))"
  "sha256_checksum (appended s data) = sha256_checksum s" "filename (appended s data) = filename s"
  by (simp_all add: appended_def)

section \<open>One more chunk keeps the invariant\<close>

lemma entry_inv_appended:
  assumes inv: "entry_inv st ws sid s e" and live: "\<not> is_terminal (status s)" and data: "data \<noteq> []"
    and fits: "offset s + int (length data) \<le> file_size s"
    and new: "\<And>t. e = Some t \<Longrightarrow> chunk_stored st ws sid t (length (chunk_manifest s)) (int (length data), sha256_hex data)"
  shows "entry_inv st ws sid (appended s data) e"
proof -
  from inv obtain cs where cs: "manifest_of s cs"
    "\<forall>t. e = Some t \<longrightarrow> t \<le> st_now st + 86400000 \<and> chunks_kept st ws sid t s cs"
    and s: "storable s" "workspace_id s = ws" "session_id s = sid"
    by (auto simp: entry_inv_def)
  let ?cs = "cs @ [(int (length data), sha256_hex data)]"
  have len: "length (chunk_manifest s) = length cs" using cs(1) by (simp add: manifest_of_def)
  have "\<forall>t. e = Some t \<longrightarrow> t \<le> st_now st + 86400000 \<and> chunks_kept st ws sid t (appended s data) ?cs"
    using cs(2) new len live by (auto simp: chunks_kept_def nth_append less_Suc_eq)
  with manifest_of_appended [OF cs(1) data] storable_appended [OF s(1) fits] s(2,3)
  show ?thesis unfolding entry_inv_def by (metis appended_ids(1,2))
qed

text \<open>What a successful call did to the stored session: \<open>t\<close> is its expiry time, if it has one.\<close>

definition chunk_appended :: "store \<Rightarrow> uuid \<Rightarrow> uuid \<Rightarrow> UploadSession \<Rightarrow> bytes \<Rightarrow> store \<Rightarrow> bool" where
  "chunk_appended st ws sid s data st' =
     (st_now st \<le> st_now st' \<and> (\<exists>e. st_sessions st' ws sid = Some (Some (appended s data), e)
        \<and> (\<forall>t. e = Some t \<longrightarrow> expiry_of (st_sessions st ws sid) = Some t
             \<and> content_in st' ws sid = content_in st ws sid @ data)
        \<and> (e = None \<longrightarrow> expiry_of (st_sessions st ws sid) = None
             \<or> outlived (expiry_of (st_sessions st ws sid)) (st_now st'))))"

lemma str_int_neq: "i < n \<Longrightarrow> str_int (int i) \<noteq> str_int (int n)"
  by simp

lemma chunk_bytes_passes:
  assumes p: "passes st st'" and c: "chunk_stored st ws sid t i x" and t: "st_now st' < t"
  shows "chunk_bytes st' ws sid i = chunk_bytes st ws sid i"
proof -
  from c obtain b e where b: "st_chunks st ws sid (str_int (int i)) = Some (b, e)"
    "case e of None \<Rightarrow> True | Some t' \<Rightarrow> t \<le> t'" by (auto simp: chunk_stored_def)
  then have "st_chunks st' ws sid (str_int (int i)) = Some (b, e)"
    using t by (auto simp: passesD [OF p] tick_value_Some split: option.splits)
  with b show ?thesis by (simp add: chunk_bytes_def)
qed

text \<open>The bytes of the next chunk can be written at any time.\<close>

lemma store_ok_next_chunk:
  assumes ok: "store_ok st1" and live: "st_sessions st1 ws sid = Some (Some s, e)" and p2: "passes st1 st2"
  shows "store_ok (put_chunk ws sid (str_int (int (length (chunk_manifest s)))) x st2)"
proof -
  have same: "s'' = s" if "st_sessions st2 ws sid = Some (Some s'', e')" for s'' e'
    using that live by (simp add: passesD(2) [OF p2] tick_value_Some)
  show ?thesis
    by (rule store_ok_put_chunk [OF store_ok_passes [OF ok p2]])
      (use same in \<open>fastforce simp: manifest_of_def\<close>)
qed

section \<open>Writing the chunk and then the session, on the abstract store\<close>

text \<open>\<open>st1\<close> is the store in which the session was found, \<open>st2\<close> the one the chunk is added to, \<open>st3\<close> the one in which the
  session is replaced.\<close>

definition appending :: "uuid \<Rightarrow> uuid \<Rightarrow> UploadSession \<Rightarrow> nat option \<Rightarrow> bytes \<Rightarrow> store \<Rightarrow> store \<Rightarrow> store \<Rightarrow> bool" where
  "appending ws sid s e data st1 st2 st3 = (store_ok st1 \<and> st_sessions st1 ws sid = Some (Some s, e) \<and> passes st1 st2
     \<and> passes (put_chunk ws sid (str_int (int (length (chunk_manifest s)))) (Some (data, Some (st_now st2 + 86400000))) st2) st3)"

lemma appendingD:
  assumes "appending ws sid s e data st1 st2 st3"
  shows "entry_inv st1 ws sid s e" and "st_now st1 \<le> st_now st2" and "st_now st2 \<le> st_now st3" and "store_ok st3"
    and "st_sessions st3 ws sid = tick_value (st_now st3) (Some (Some s, e))"
proof -
  have a: "store_ok st1" "st_sessions st1 ws sid = Some (Some s, e)" "passes st1 st2"
    "passes (put_chunk ws sid (str_int (int (length (chunk_manifest s)))) (Some (data, Some (st_now st2 + 86400000))) st2) st3"
    using assms by (simp_all add: appending_def)
  show "entry_inv st1 ws sid s e" using a(1,2) sessions_okD [of st1 ws sid] by (auto simp: store_ok_def)
  show now: "st_now st1 \<le> st_now st2" "st_now st2 \<le> st_now st3"
    using passesD(1) [OF a(3)] passesD(1) [OF a(4)] by (simp_all add: put_chunk_def)
  show "store_ok st3" by (rule store_ok_passes [OF store_ok_next_chunk [OF a(1,2,3)] a(4)])
  show "st_sessions st3 ws sid = tick_value (st_now st3) (Some (Some s, e))"
    using now by (simp add: passesD(2) [OF a(4)] put_chunk_def passesD(2) [OF a(3)] a(2))
qed

lemma appending_expiry:
  assumes a: "appending ws sid s e data st1 st2 st3"
  shows "expiry_of (st_sessions st3 ws sid) = Some t \<Longrightarrow> st_sessions st3 ws sid = Some (Some s, e) \<and> e = Some t \<and> st_now st3 < t"
    and "expiry_of (st_sessions st3 ws sid) = None \<Longrightarrow> e = None \<or> outlived e (st_now st3)"
  using appendingD(5) [OF a]
  by (auto simp: expiry_of_def tick_value_def outlived_def split: option.splits if_splits)

text \<open>As long as the session lives, its chunks do.\<close>

lemma appending_new_chunk:
  assumes a: "appending ws sid s e data st1 st2 st3" and t: "expiry_of (st_sessions st3 ws sid) = Some t"
  shows "st_chunks st3 ws sid (str_int (int (length (chunk_manifest s)))) = Some (data, Some (st_now st2 + 86400000))"
    and "t \<le> st_now st2 + 86400000"
proof -
  have e: "e = Some t" "st_now st3 < t" using appending_expiry(1) [OF a t] by auto
  show le: "t \<le> st_now st2 + 86400000"
    using appendingD(1,2) [OF a] e(1) by (auto simp: entry_inv_def)
  have p: "passes (put_chunk ws sid (str_int (int (length (chunk_manifest s)))) (Some (data, Some (st_now st2 + 86400000))) st2) st3"
    using a by (simp add: appending_def)
  show "st_chunks st3 ws sid (str_int (int (length (chunk_manifest s)))) = Some (data, Some (st_now st2 + 86400000))"
    using e(2) le by (simp add: passesD(5) [OF p] put_chunk_def tick_value_def)
qed

lemma appending_old_chunk:
  assumes a: "appending ws sid s e data st1 st2 st3" and t: "expiry_of (st_sessions st3 ws sid) = Some t"
    and opn: "\<not> is_terminal (status s)" and i: "i < length (chunk_manifest s)"
  shows "chunk_bytes st3 ws sid i = chunk_bytes st1 ws sid i"
proof -
  let ?st2' = "put_chunk ws sid (str_int (int (length (chunk_manifest s)))) (Some (data, Some (st_now st2 + 86400000))) st2"
  have p: "passes st1 st2" "passes ?st2' st3" using a by (simp_all add: appending_def)
  have e: "e = Some t" "st_now st3 < t" using appending_expiry(1) [OF a t] by auto
  then obtain cs where "chunk_manifest s = manifest_from 0 cs" "chunks_kept st1 ws sid t s cs"
    using appendingD(1) [OF a] by (auto simp: entry_inv_def manifest_of_def)
  then have "chunk_stored st1 ws sid t i (cs ! i)" using opn i by (simp add: chunks_kept_def)
  then obtain x where x: "chunk_stored st1 ws sid t i x" by blast
  have now2: "st_now st2 < t" using appendingD(3) [OF a] e(2) by simp
  have st2: "chunk_bytes st2 ws sid i = chunk_bytes st1 ws sid i" "chunk_stored st2 ws sid t i x"
    using chunk_bytes_passes [OF p(1) x now2] chunk_stored_passes [OF x p(1) now2] by auto
  have "chunk_stored ?st2' ws sid t i x" "chunk_bytes ?st2' ws sid i = chunk_bytes st2 ws sid i"
    using st2(2) str_int_neq [OF i] by (simp_all add: chunk_stored_def chunk_bytes_def put_chunk_def)
  with chunk_bytes_passes [OF p(2) _ e(2)] st2(1) show ?thesis by auto
qed

lemma appending_inv:
  assumes a: "appending ws sid s e data st1 st2 st3" and opn: "\<not> is_terminal (status s)"
    and data: "data \<noteq> []" and fits: "offset s + int (length data) \<le> file_size s"
  shows "entry_inv st3 ws sid (appended s data) (expiry_of (st_sessions st3 ws sid))"
proof (cases "expiry_of (st_sessions st3 ws sid)")
  case None
  obtain cs where "manifest_of s cs" "storable s" "workspace_id s = ws" "session_id s = sid"
    using appendingD(1) [OF a] by (auto simp: entry_inv_def)
  then have "entry_inv st3 ws sid (appended s data) None"
    using manifest_of_appended [of s cs, OF _ data] storable_appended [OF _ fits]
    unfolding entry_inv_def by (metis appended_ids(1,2) option.distinct(1))
  then show ?thesis by (simp add: None)
next
  case (Some t)
  note e = appending_expiry(1) [OF a Some]
  then have "entry_inv st3 ws sid s e"
    using appendingD(4) [OF a] sessions_okD [of st3 ws sid] by (auto simp: store_ok_def)
  then show ?thesis
    unfolding Some using e appending_new_chunk [OF a Some]
    by (intro entry_inv_appended [OF _ opn data fits]) (auto simp: chunk_stored_def)
qed

lemma append_steps:
  assumes a: "appending ws sid s e data st1 st2 st3" and opn: "\<not> is_terminal (status s)"
    and data: "data \<noteq> []" and fits: "offset s + int (length data) \<le> file_size s"
    and upd: "updated_session (appended s data) st3 st'"
  shows "store_ok st'" and "chunk_appended st1 ws sid s data st'"
proof -
  let ?n = "length (chunk_manifest s)" and ?e3 = "expiry_of (st_sessions st3 ws sid)"
  have ids: "workspace_id s = ws" "session_id s = sid" using appendingD(1) [OF a] by (auto simp: entry_inv_def)
  have st': "st' = put_session (appended s data) ?e3 st3" using upd ids by (simp add: updated_session_def)
  have live: "st_sessions st1 ws sid = Some (Some s, e)" using a by (simp add: appending_def)
  show "store_ok st'"
    unfolding st' using appending_inv [OF a opn data fits] by (intro store_ok_put_session appendingD [OF a]) (simp add: ids)
  have bytes: "content_in st' ws sid = content_in st1 ws sid @ data" if t: "?e3 = Some t" for t
  proof -
    have same: "chunk_bytes st' ws sid = chunk_bytes st3 ws sid"
      by (simp add: st' put_session_def chunk_bytes_def fun_eq_iff)
    have "concat (map (chunk_bytes st3 ws sid) [0..<?n]) = concat (map (chunk_bytes st1 ws sid) [0..<?n])"
      by (intro arg_cong [of _ _ concat] map_cong refl) (simp add: appending_old_chunk [OF a t opn])
    moreover have "chunk_bytes st3 ws sid ?n = data"
      using appending_new_chunk(1) [OF a t] by (simp add: chunk_bytes_def)
    moreover have "session_in st' ws sid = Some (appended s data)" "session_in st1 ws sid = Some s"
      using ids live by (simp_all add: st' put_session_def session_in_def)
    ultimately show ?thesis by (simp add: content_in_def same)
  qed
  have "st_sessions st' ws sid = Some (Some (appended s data), ?e3)" "st_now st' = st_now st3"
    using ids by (simp_all add: st' put_session_def)
  then show "chunk_appended st1 ws sid s data st'"
    using live bytes appending_expiry [OF a] appendingD(2,3) [OF a] unfolding chunk_appended_def
    by (auto simp: expiry_of_def)
qed

section \<open>The use case\<close>

text \<open>What the use case demands of a chunk, given the session it is for.\<close>

definition accepts :: "ProcessChunkRequest \<Rightarrow> UploadSession \<Rightarrow> bool" where
  "accepts req s = (\<not> is_terminal (status s) \<and> pcr_chunk_offset req = offset s
     \<and> pcr_chunk_data req \<noteq> [] \<and> int (length (pcr_chunk_data req)) \<le> MAX_CHUNK_BYTES
     \<and> pcr_chunk_checksum req = sha256_hex (pcr_chunk_data req)
     \<and> offset s + int (length (pcr_chunk_data req)) \<le> file_size s)"

lemma sessions_aged_put_chunk:
  assumes p2: "passes st1 st2" and p3: "passes (put_chunk ws sid i x st2) st3"
  shows "sessions_aged st1 st3"
proof -
  have now: "st_now st1 \<le> st_now st2" "st_now st2 \<le> st_now st3"
    using passesD(1) [OF p2] passesD(1) [OF p3] by (simp_all add: put_chunk_def)
  then have "st_sessions st3 = st_sessions (tick (st_now st3) st1)"
    by (intro ext) (simp add: passesD(2) [OF p3] put_chunk_def passesD(2) [OF p2])
  moreover have "passes st1 (tick (st_now st3) st1)" using now by (intro passes_tick) simp
  ultimately show ?thesis unfolding sessions_aged_def by (intro exI [of _ "tick (st_now st3) st1"]) simp
qed

definition process_spec :: "ProcessChunkRequest \<Rightarrow> store \<Rightarrow> ProcessChunkResponse \<Rightarrow> store \<Rightarrow> bool" where
  "process_spec req st res st' = (\<exists>s. session_in st (pcr_workspace_id req) (pcr_session_id req) = Some s
     \<and> accepts req s \<and> pcres_new_offset res = offset s + int (length (pcr_chunk_data req))
     \<and> chunk_appended st (pcr_workspace_id req) (pcr_session_id req) s (pcr_chunk_data req) st')"

text \<open>The exception for a chunk that is not acceptable, in the order of the checks.\<close>

definition rejection :: "ProcessChunkRequest \<Rightarrow> UploadSession \<Rightarrow> exn option" where
  "rejection req s =
     (let size = int (length (pcr_chunk_data req));
          index = int (length (chunk_manifest s)) in
      if is_terminal (status s)
        then Some (InvalidSessionStateError (session_id s) (status_value (status s)) ''process_chunk'')
      else if pcr_chunk_offset req \<noteq> offset s
        then Some (new_OffsetMismatchError (offset s) (pcr_chunk_offset req) (session_id s))
      else if size = 0 then Some (ValueError ''Chunk data cannot be empty'')
      else if size > MAX_CHUNK_BYTES
        then Some (ValueError (''Chunk size '' @ str_int size @ '' exceeds maximum 10 MB''))
      else case verify_chunk (pcr_chunk_data req) (pcr_chunk_checksum req) (Some index) of
        Inl e \<Rightarrow> Some e
      | Inr _ \<Rightarrow> if offset s + size > file_size s then Some (ValueError ''new_offset must be <= size'')
                 else None)"

lemma rejection_None: "rejection req s = None \<longleftrightarrow> accepts req s"
proof -
  let ?v = "verify_chunk (pcr_chunk_data req) (pcr_chunk_checksum req) (Some (int (length (chunk_manifest s))))"
  have v: "?v = Inr () \<longleftrightarrow> pcr_chunk_checksum req = sha256_hex (pcr_chunk_data req)"
    by (simp add: verify_chunk_iff index_ok_def)
  show ?thesis
    using v by (cases ?v) (auto simp: rejection_def accepts_def Let_def not_le)
qed

text \<open>Why a call may raise.\<close>

definition refused :: "ProcessChunkRequest \<Rightarrow> store \<Rightarrow> exn \<Rightarrow> store \<Rightarrow> bool" where
  "refused req st e st' = (is_InfrastructureError e
     \<or> is_SessionNotFoundError e \<and> session_in st' (pcr_workspace_id req) (pcr_session_id req) = None
     \<or> (\<exists>s. session_in st (pcr_workspace_id req) (pcr_session_id req) = Some s \<and> rejection req s = Some e))"

definition process_failure :: "ProcessChunkRequest \<Rightarrow> store \<Rightarrow> exn \<Rightarrow> store \<Rightarrow> bool" where
  "process_failure req st e st' = (refused req st e st'
     \<and> (sessions_aged st st' \<or> (is_InfrastructureError e \<and> (\<exists>res. process_spec req st res st'))))"

lemma chunk_appended_passes:
  assumes "passes st0 st" and "chunk_appended st ws sid s data st'"
    and ok: "store_ok st0" and live: "st_sessions st ws sid = Some (Some s, e)" and opn: "\<not> is_terminal (status s)"
  shows "chunk_appended st0 ws sid s data st'"
proof -
  have live0: "st_sessions st0 ws sid = Some (Some s, e)" "case e of None \<Rightarrow> True | Some t \<Rightarrow> st_now st < t"
    using live by (simp_all add: passesD [OF assms(1)] tick_value_Some)
  have "content_in st ws sid = content_in st0 ws sid" if "e = Some t" for t
  proof -
    from ok live0(1) have "entry_inv st0 ws sid s e"
      using sessions_okD [of st0 ws sid] by (auto simp: store_ok_def)
    then obtain cs where cs: "manifest_of s cs"
      "\<forall>t. e = Some t \<longrightarrow> t \<le> st_now st0 + 86400000 \<and> (\<forall>i < length cs. chunk_stored st0 ws sid t i (cs ! i))"
      using opn unfolding entry_inv_def chunks_kept_def by blast
    have "chunk_bytes st ws sid i = chunk_bytes st0 ws sid i" if "i < length (chunk_manifest s)" for i
    proof (rule chunk_bytes_passes [OF assms(1)])
      show "chunk_stored st0 ws sid t i (cs ! i)"
        using cs that \<open>e = Some t\<close> by (simp add: manifest_of_def)
      show "st_now st < t" using live0(2) \<open>e = Some t\<close> by simp
    qed
    then have "concat (map (chunk_bytes st ws sid) [0..<length (chunk_manifest s)])
        = concat (map (chunk_bytes st0 ws sid) [0..<length (chunk_manifest s)])"
      by (intro arg_cong [of _ _ concat] map_cong refl) simp
    then show ?thesis using live live0(1) by (simp add: content_in_def session_in_def)
  qed
  then show ?thesis using assms(2) live live0(1) passesD(1) [OF assms(1)] unfolding chunk_appended_def
    by (auto simp: expiry_of_def)
qed

lemma process_spec_passes:
  assumes p: "passes st0 st" and ok: "store_ok st0" and spec: "process_spec req st d st'"
  shows "process_spec req st0 d st'"
proof -
  let ?ws = "pcr_workspace_id req" and ?sid = "pcr_session_id req"
  from spec obtain s where s: "session_in st ?ws ?sid = Some s" "accepts req s"
    "pcres_new_offset d = offset s + int (length (pcr_chunk_data req))"
    "chunk_appended st ?ws ?sid s (pcr_chunk_data req) st'" by (auto simp: process_spec_def)
  from s(1) obtain e where "st_sessions st ?ws ?sid = Some (Some s, e)"
    by (auto simp: session_in_def split: option.splits)
  then have "chunk_appended st0 ?ws ?sid s (pcr_chunk_data req) st'"
    using chunk_appended_passes [OF p s(4) ok] s(2) by (simp add: accepts_def)
  with s passes_session [OF p s(1)] show ?thesis by (auto simp: process_spec_def)
qed

lemma process_failure_passes:
  assumes p: "passes st0 st" and ok: "store_ok st0" and f: "process_failure req st e st'"
  shows "process_failure req st0 e st'"
  using f process_spec_passes [OF p ok] sessions_aged_passes [OF p, of st'] passes_session [OF p]
  unfolding process_failure_def refused_def by blast

text \<open>The program after the checks.\<close>

lemma chunk_step_accepted:
  assumes "manifest_of s cs" and "session_ok s" and "accepts req s"
  shows "chunk_step S R req s
    = bnd (bnd (store_chunk R (pcr_workspace_id req) (pcr_session_id req) (int (length (chunk_manifest s))) (pcr_chunk_data req))
        (\<lambda>_. update_session S (appended s (pcr_chunk_data req))))
      (\<lambda>_. ret \<lparr>pcres_new_offset = offset s + int (length (pcr_chunk_data req))\<rparr>)"
  using assms(3) record_chunk_result [OF assms(1,2), of "pcr_chunk_data req"]
    verify_chunk_iff [of "pcr_chunk_data req" "pcr_chunk_checksum req" "Some (int (length (chunk_manifest s)))"]
  by (simp add: accepts_def chunk_step_def Let_def index_ok_def bnd_assoc)

lemma chunk_step_rejected:
  assumes m: "manifest_of s cs" and s: "session_ok s" and r: "rejection req s = Some r"
  shows "chunk_step S R req s = raise r
    \<or> chunk_step S R req s = bnd (store_chunk R (pcr_workspace_id req) (pcr_session_id req) (int (length (chunk_manifest s)))
        (pcr_chunk_data req)) (\<lambda>_. raise r)"
proof -
  let ?v = "verify_chunk (pcr_chunk_data req) (pcr_chunk_checksum req) (Some (int (length (chunk_manifest s))))"
  have v: "?v = Inr () \<longleftrightarrow> pcr_chunk_checksum req = sha256_hex (pcr_chunk_data req)"
    by (simp add: verify_chunk_iff index_ok_def)
  show ?thesis
  proof (cases ?v)
    case (Inl x)
    then show ?thesis
      using r by (auto simp: rejection_def chunk_step_def Let_def not_le guard_def split: if_splits)
  next
    case (Inr u)
    then show ?thesis
      using r v record_chunk_result [OF m s, of "pcr_chunk_data req"]
      by (auto simp: rejection_def chunk_step_def Let_def not_le guard_def split: if_splits)
  qed
qed

locale process_services =
  session_store S view rest +
  chunk_cache "redis_set_chunk R" "redis_get_chunk R" "redis_delete_chunk R" view rest
  for S :: "'w ISessionStore" and R :: "'w redis_client" and view :: "'w \<Rightarrow> store" and rest :: "'w \<Rightarrow> 'o"
begin

text \<open>The part after the checks: store the bytes, then the session.\<close>

text \<open>The bytes are written, whatever becomes of the session.\<close>

lemma store_chunk_wp:
  assumes ok: "store_ok (view w)" and live: "st_sessions (view w) ws sid = Some (Some s, e)"
  shows "wp (store_chunk R ws sid (int (length (chunk_manifest s))) data)
     (\<lambda>_ w'. rest w' = rest w \<and> store_ok (view w') \<and> sessions_aged (view w) (view w')
        \<and> (\<exists>st2. \<forall>st3. passes (view w') st3 \<longrightarrow> appending ws sid s e data (view w) st2 st3))
     (\<lambda>e' w'. rest w' = rest w \<and> store_ok (view w') \<and> sessions_aged (view w) (view w') \<and> is_InfrastructureError e') w"
  unfolding store_chunk_def wp_catch
proof (rule wp_use [OF performsD [OF set_chunk]], goal_cases)
  case 1
  then show ?case by (simp add: chunk_ttl_seconds_def)
next
  case (2 _ w')
  then obtain st2 where st2: "passes (view w) st2" "rest w' = rest w"
    "view w' = put_chunk ws sid (str_int (int (length (chunk_manifest s)))) (Some (data, Some (st_now st2 + 86400000))) st2"
    by (auto simp: chunk_ttl_seconds_def)
  have "\<forall>st3. passes (view w') st3 \<longrightarrow> appending ws sid s e data (view w) st2 st3"
    using st2 ok live by (simp add: appending_def)
  moreover have "store_ok (view w')" "sessions_aged (view w) (view w')"
    using st2 store_ok_next_chunk [OF ok live st2(1)] by (auto simp: sessions_aged_def put_chunk_def)
  ultimately show ?case using st2(2) by blast
next
  case (3 e' w')
  then obtain st2 b where st2: "passes (view w) st2" "rest w' = rest w" "is_RedisError e'"
    "view w' = st2 \<or> view w' = put_chunk ws sid (str_int (int (length (chunk_manifest s)))) b st2"
    by (auto simp: chunk_ttl_seconds_def)
  have "store_ok (view w')" "st_sessions (view w') = st_sessions st2" "st_now (view w') = st_now st2"
    using st2(4) store_ok_next_chunk [OF ok live st2(1)] store_ok_passes [OF ok st2(1)]
    by (auto simp: put_chunk_def)
  then have "store_ok (view w')" "sessions_aged (view w) (view w')"
    using st2(1) by (auto simp: sessions_aged_def)
  then show ?case
    unfolding if_P [OF is_Exception_simps(4) [OF st2(3)]] wp_raise using st2(2) by simp
qed

text \<open>The part after the checks: store the bytes, then the session.\<close>

lemma store_part_wp:
  assumes ok: "store_ok (view w)" and live: "st_sessions (view w) ws sid = Some (Some s, e)" and opn: "\<not> is_terminal (status s)"
    and data: "data \<noteq> []" and fits: "offset s + int (length data) \<le> file_size s"
  shows "wp (bnd (store_chunk R ws sid (int (length (chunk_manifest s))) data) (\<lambda>_. update_session S (appended s data)))
     (\<lambda>_ w'. rest w' = rest w \<and> store_ok (view w') \<and> chunk_appended (view w) ws sid s data (view w'))
     (\<lambda>e w'. rest w' = rest w \<and> store_ok (view w')
        \<and> (is_InfrastructureError e \<or> is_SessionNotFoundError e \<and> session_in (view w') ws sid = None)
        \<and> (sessions_aged (view w) (view w')
           \<or> is_InfrastructureError e \<and> chunk_appended (view w) ws sid s data (view w'))) w"
  unfolding wp_bnd
proof (rule wp_use [OF store_chunk_wp [OF ok live]], goal_cases)
  case w1: (1 _ w1)
  then obtain st2 where a: "\<And>st3. passes (view w1) st3 \<Longrightarrow> appending ws sid s e data (view w) st2 st3" by blast
  have "entry_inv (view w) ws sid s e" using ok live sessions_okD [of "view w" ws sid] by (auto simp: store_ok_def)
  then have ids: "workspace_id s = ws" "session_id s = sid" and st: "storable (appended s data)"
    using storable_appended [OF _ fits] by (auto simp: entry_inv_def)
  show ?case
  proof (rule wp_use [OF performsD [OF update [OF st]]], goal_cases)
    case (1 _ w')
    then obtain st3 where st3: "passes (view w1) st3" "updated_session (appended s data) st3 (view w')" by auto
    with 1 w1 append_steps [OF a [OF st3(1)] opn data fits st3(2)] show ?case by simp
  next
    case (2 e' w')
    then obtain st3 where st3: "passes (view w1) st3" "rest w' = rest w"
      "view w' = st3 \<or> is_InfrastructureError e' \<and> updated_session (appended s data) st3 (view w')"
      "is_InfrastructureError e' \<or> is_SessionNotFoundError e' \<and> session_in st3 ws sid = None"
      using w1 ids by auto
    from st3(3) show ?case
    proof
      assume "view w' = st3"
      moreover have "store_ok st3" "sessions_aged (view w) st3"
        using w1 store_ok_passes [OF _ st3(1)] sessions_aged_trans [OF _ st3(1)] by auto
      ultimately show ?thesis using st3(2,4) by simp
    next
      assume "is_InfrastructureError e' \<and> updated_session (appended s data) st3 (view w')"
      with append_steps [OF a [OF st3(1)] opn data fits] st3(2) show ?thesis by simp
    qed
  qed
qed auto

text \<open>Everything after the session was found.\<close>

lemma chunk_step_wp:
  assumes settled: "passes (view w) (view w)" and ok: "store_ok (view w)" and s: "session_in (view w) (pcr_workspace_id req) (pcr_session_id req) = Some s"
  shows "wp (chunk_step S R req s)
     (\<lambda>res w'. rest w' = rest w \<and> store_ok (view w') \<and> process_spec req (view w) res (view w'))
     (\<lambda>e w'. rest w' = rest w \<and> store_ok (view w') \<and> process_failure req (view w) e (view w')) w"
proof -
  let ?ws = "pcr_workspace_id req" and ?sid = "pcr_session_id req"
  obtain e where live: "st_sessions (view w) ?ws ?sid = Some (Some s, e)" and inv: "entry_inv (view w) ?ws ?sid s e"
    using session_in_ok [of "view w" ?ws ?sid s] ok s unfolding store_ok_def by blast
  then obtain cs where cs: "manifest_of s cs" and so: "session_ok s" by (auto simp: entry_inv_def storable_def)
  have aged: "sessions_aged (view w) (view w)" by (rule sessions_aged_refl [OF settled])
  show ?thesis
  proof (cases "accepts req s")
    case True
    then have acc: "\<not> is_terminal (status s)" "pcr_chunk_data req \<noteq> []"
      "offset s + int (length (pcr_chunk_data req)) \<le> file_size s" by (simp_all add: accepts_def)
    show ?thesis
      unfolding chunk_step_accepted [OF cs so True] wp_bnd [of "bnd _ _"] wp_fun(1)
    proof (rule wp_use [OF store_part_wp [OF ok live acc]], goal_cases)
      case (1 _ w')
      then show ?case using s True by (auto simp: process_spec_def)
    next
      case (2 x w')
      moreover have "process_spec req (view w) \<lparr>pcres_new_offset = offset s + int (length (pcr_chunk_data req))\<rparr> st'"
        if "chunk_appended (view w) ?ws ?sid s (pcr_chunk_data req) st'" for st'
        using that s True by (auto simp: process_spec_def)
      ultimately show ?case by (auto simp: process_failure_def refused_def)
    qed
  next
    case False
    then obtain r where r: "rejection req s = Some r" using rejection_None by (cases "rejection req s") auto
    have failed: "process_failure req (view w) r st'" if "sessions_aged (view w) st'" for st'
      using that r s by (auto simp: process_failure_def refused_def)
    from chunk_step_rejected [OF cs so r, of S R] show ?thesis
    proof
      assume "chunk_step S R req s = raise r"
      then show ?thesis using failed [OF aged] ok by (simp add: wp_raise)
    next
      assume c: "chunk_step S R req s
        = bnd (store_chunk R ?ws ?sid (int (length (chunk_manifest s))) (pcr_chunk_data req)) (\<lambda>_. raise r)"
      show ?thesis
        unfolding c wp_bnd wp_fun(2)
        by (rule wp_use [OF store_chunk_wp [OF ok live]])
          (use failed in blast, auto simp: process_failure_def refused_def)
    qed
  qed
qed

lemma process_wp:
  assumes ids: "pcr_workspace_id req \<noteq> 0" "pcr_session_id req \<noteq> 0" and ok: "store_ok (view w)"
  shows "wp (process_chunk S R req)
     (\<lambda>res w'. rest w' = rest w \<and> store_ok (view w') \<and> process_spec req (view w) res (view w'))
     (\<lambda>e w'. rest w' = rest w \<and> store_ok (view w') \<and> process_failure req (view w) e (view w')) w"
    (is "wp _ ?Q ?E w")
  unfolding process_chunk_def wp_bnd
proof (rule wp_use [OF performsD [OF get [OF ids]]], goal_cases)
  case w1: (1 found w1)
  let ?ws = "pcr_workspace_id req" and ?sid = "pcr_session_id req"
  have p1: "passes (view w) (view w1)" "rest w1 = rest w" using w1 by auto
  have ok1: "store_ok (view w1)" by (rule store_ok_passes [OF ok p1(1)])
  show ?case
  proof (cases found)
    case None
    then have "refused req (view w) (not_found ?sid) (view w1)"
      using w1 by (auto simp: refused_def not_found_def)
    then show ?thesis
      using None p1 ok1 sessions_aged_refl [OF p1(1)] by (simp add: wp_rules process_failure_def)
  next
    case (Some s)
    then have s1: "session_in (view w1) ?ws ?sid = Some s" using w1 by simp
    have "wp (chunk_step S R req s)
       (\<lambda>res w'. rest w' = rest w1 \<and> store_ok (view w') \<and> process_spec req (view w1) res (view w'))
       (\<lambda>e w'. rest w' = rest w1 \<and> store_ok (view w') \<and> process_failure req (view w1) e (view w')) w1"
      by (rule chunk_step_wp [OF passes_settled [OF p1(1)] ok1 s1])
    then show ?thesis
      unfolding Some option.case
      by (rule wp_use) (use p1 process_spec_passes [OF p1(1) ok] process_failure_passes [OF p1(1) ok] in auto)
  qed
next
  case (2 e w')
  then have ok': "store_ok (view w')" "passes (view w) (view w')" "rest w' = rest w"
    using store_ok_passes [OF ok] by auto
  then have "is_InfrastructureError e" using 2 by (auto simp: store_ok_def sessions_ok_def)
  with ok' show ?case by (auto simp: process_failure_def refused_def sessions_aged_def)
qed

end

end
