(* ===== verification/Session_Changes.thy ===== *)
theory Session_Changes
  imports System_State
begin

text \<open>
  What the use cases that end a session do to it between their first read and their last write: its
  status changes, time passes, and nothing else happens to any session. \<open>moved\<close> states this
  of a moment during the call, relative to the store \<open>st0\<close> before it; \<open>mark_wp\<close> is the step that writes a final
  status, and \<open>drop_wp\<close> the one that deletes the session.
\<close>

lemma is_terminal_iff: "is_terminal x \<longleftrightarrow> x \<in> {ABORTED, COMPLETE, FAILED}"
  by (cases x) (simp_all add: is_terminal_def)

lemma same_content_status: "same_content s (s\<lparr>status := x\<rparr>)"
  by (simp add: same_content_def)

lemma storable_status: "storable s \<Longrightarrow> storable (s\<lparr>status := x\<rparr>)"
  by (simp add: storable_def session_ok_def)

section \<open>A session and its statuses\<close>

text \<open>
  The session \<open>s\<close>, read from \<open>st0\<close> with expiry \<open>e\<close>, has one of the statuses \<open>X\<close>, or its time is over: then
  it is gone, or was written again without an expiry.
\<close>

definition own_session :: "uuid \<Rightarrow> uuid \<Rightarrow> UploadSession \<Rightarrow> nat option \<Rightarrow> SessionStatus set \<Rightarrow> store \<Rightarrow> bool" where
  "own_session ws sid s e X st = (case st_sessions st ws sid of
     None \<Rightarrow> outlived e (st_now st)
   | Some (v, e') \<Rightarrow> (\<exists>y \<in> X. v = Some (s\<lparr>status := y\<rparr>)) \<and> (e' = e \<or> e' = None \<and> outlived e (st_now st)))"

text \<open>The sessions of all other ids, at most expired.\<close>

abbreviation others_aged :: "uuid \<Rightarrow> uuid \<Rightarrow> store \<Rightarrow> store \<Rightarrow> bool" where
  "others_aged ws sid st st' \<equiv> (\<forall>ws' sid'. (ws', sid') \<noteq> (ws, sid) \<longrightarrow>
     st_sessions st' ws' sid' = tick_value (st_now st') (st_sessions st ws' sid'))"

definition moved :: "uuid \<Rightarrow> uuid \<Rightarrow> UploadSession \<Rightarrow> nat option \<Rightarrow> SessionStatus set \<Rightarrow> store \<Rightarrow> store \<Rightarrow> bool" where
  "moved ws sid s e X st0 st = (store_ok st \<and> st_now st0 \<le> st_now st \<and> own_session ws sid s e X st
     \<and> others_aged ws sid st0 st)"

lemma own_session_puts [simp]:
  "own_session ws sid s e X (put_chunk ws' sid' k v st) = own_session ws sid s e X st"
  "own_session ws sid s e X (put_file ws' h m st) = own_session ws sid s e X st"
  by (cases "st_sessions st ws sid"; auto simp: own_session_def put_chunk_def put_file_def)+

lemma moved_mono: "moved ws sid s e X st0 st \<Longrightarrow> X \<subseteq> Y \<Longrightarrow> moved ws sid s e Y st0 st"
  unfolding moved_def own_session_def by (cases "st_sessions st ws sid") auto

lemma moved_ok: "moved ws sid s e X st0 st \<Longrightarrow> store_ok st"
  by (simp add: moved_def)

lemma moved_kept:
  assumes m: "moved ws sid s e X st0 st" and k: "sessions_aged st st'" and ok: "store_ok st'"
  shows "moved ws sid s e X st0 st'"
proof -
  from k obtain st1 where st1: "passes st st1" "st_sessions st' = st_sessions st1" "st_now st' = st_now st1"
    by (auto simp: sessions_aged_def)
  have later: "outlived e (st_now st1)" if "outlived e (st_now st)"
    using outlived_mono [OF that] passesD(1) [OF st1(1)] by simp
  have "own_session ws sid s e X st"
    using m by (simp add: moved_def)
  then have "own_session ws sid s e X st'"
    using passesD(2) [OF st1(1), of ws sid] later
    by (auto simp: own_session_def st1(2,3) tick_value_def outlived_def split: option.splits if_splits)
  then show ?thesis
    using m ok passesD(1,2) [OF st1(1)] by (simp add: moved_def st1(2,3))
qed

lemma moved_passes: "moved ws sid s e X st0 st \<Longrightarrow> passes st st' \<Longrightarrow> moved ws sid s e X st0 st'"
  using moved_kept [OF _ sessions_aged_refl] store_ok_passes moved_ok by blast

lemma moved_start:
  assumes "passes st0 st" and "st_sessions st ws sid = Some (Some s, e)" and "store_ok st"
  shows "moved ws sid s e {status s} st0 st"
  using assms passesD(1,2) [OF assms(1)] by (simp add: moved_def own_session_def)

lemma counters_passes: "store_ok st \<Longrightarrow> passes st st' \<Longrightarrow> st_counters st' = st_counters st"
  using counters_ok_passes(1) by (auto simp: store_ok_def)

lemma moved_update:
  assumes m: "moved ws sid s e X st0 st" and inv: "entry_inv st1 ws sid s e" and x: "is_terminal x"
    and p: "passes st st2" and u: "updated_session (s\<lparr>status := x\<rparr>) st2 st'"
  shows "moved ws sid s e {x} st0 st'" and "st_counters st' = st_counters st"
    and "st_chunks st' = st_chunks st2" and "st_files st' = st_files st2" and "st_now st' = st_now st2"
proof -
  let ?s = "s\<lparr>status := x\<rparr>"
  have ids: "workspace_id s = ws" "session_id s = sid" "storable s" using inv by (auto simp: entry_inv_def)
  have m2: "moved ws sid s e X st0 st2" by (rule moved_passes [OF m p])
  have ok2: "store_ok st2" by (rule moved_ok [OF m2])
  have same: "same_content s'' ?s" if "st_sessions st2 ws sid = Some (Some s'', Some t)" for s'' t
    using that m2 by (auto simp: moved_def own_session_def same_content_def)
  note up = store_ok_updated [OF ok2 inv same_content_status storable_status [OF ids(3)] _ same u]
  let ?e2 = "expiry_of (st_sessions st2 ws sid)"
  have "?e2 = e \<or> ?e2 = None \<and> outlived e (st_now st2)"
    using m2 by (auto simp: moved_def own_session_def expiry_of_def split: option.splits)
  moreover have "st_now st' = st_now st2"
    using u by (simp add: updated_session_def put_session_def)
  ultimately have "own_session ws sid s e {x} st'"
    using up(2) x by (auto simp: own_session_def)
  moreover have "st_now st' = st_now st2"
    "st_sessions st' ws' sid' = st_sessions st2 ws' sid'" if "(ws', sid') \<noteq> (ws, sid)" for ws' sid'
    using u that ids by (auto simp: updated_session_def put_session_def)
  moreover show now: "st_now st' = st_now st2" "st_chunks st' = st_chunks st2" "st_files st' = st_files st2"
    using u by (simp_all add: updated_session_def put_session_def)
  ultimately show "moved ws sid s e {x} st0 st'"
    using m2 up(1) x by (simp add: moved_def)
  show "st_counters st' = st_counters st"
    using up(3) x counters_passes [OF moved_ok [OF m] p] by simp
qed

lemma moved_session_in:
  "moved ws sid s e X st0 st \<Longrightarrow> session_in st ws sid \<in> {None} \<union> (\<lambda>y. Some (s\<lparr>status := y\<rparr>)) ` X"
  by (auto simp: moved_def own_session_def session_in_def split: option.splits)

lemma moved_drop:
  assumes m: "moved ws sid s e X st0 st" and p: "passes st st1"
  shows "store_ok (drop_session ws sid st1)" and "st_counters (drop_session ws sid st1) = st_counters st"
    and "session_in (drop_session ws sid st1) ws sid = None" and "others_aged ws sid st0 (drop_session ws sid st1)"
proof -
  have m1: "moved ws sid s e X st0 st1" by (rule moved_passes [OF m p])
  then show "store_ok (drop_session ws sid st1)" by (intro store_ok_drop_session moved_ok)
  show "st_counters (drop_session ws sid st1) = st_counters st"
    using counters_passes [OF moved_ok [OF m] p] by (simp add: drop_session_def)
  show "session_in (drop_session ws sid st1) ws sid = None" "others_aged ws sid st0 (drop_session ws sid st1)"
    using m1 by (auto simp: drop_session_def session_in_def moved_def)
qed

section \<open>The steps\<close>

context session_store
begin

lemma mark_wp:
  assumes m: "moved ws sid s e X st0 (view w)" and inv: "entry_inv st1 ws sid s e" and x: "is_terminal x"
  shows "wp (update_session S (s\<lparr>status := x\<rparr>))
     (\<lambda>_ w'. rest w' = rest w \<and> moved ws sid s e {x} st0 (view w') \<and> st_counters (view w') = st_counters (view w)
        \<and> (\<exists>st2. passes (view w) st2 \<and> st_files (view w') = st_files st2 \<and> st_now (view w') = st_now st2))
     (\<lambda>e' w'. rest w' = rest w \<and> moved ws sid s e (insert x X) st0 (view w') \<and> st_counters (view w') = st_counters (view w)
        \<and> (is_InfrastructureError e' \<and> moved ws sid s e {x} st0 (view w')
           \<or> passes (view w) (view w') \<and> (is_InfrastructureError e'
                \<or> is_SessionNotFoundError e' \<and> session_in (view w') ws sid = None))) w"
proof -
  have ids: "workspace_id s = ws" "session_id s = sid" and st: "storable (s\<lparr>status := x\<rparr>)"
    using inv by (auto simp: entry_inv_def intro: storable_status)
  show ?thesis
  proof (rule wp_use [OF performsD [OF update [OF st]]], goal_cases)
    case (1 _ w')
    then obtain st2 where "passes (view w) st2" "updated_session (s\<lparr>status := x\<rparr>) st2 (view w')" by auto
    with 1 moved_update [OF m inv x this] show ?case by blast
  next
    case (2 e' w')
    then obtain st2 where st2: "passes (view w) st2" "rest w' = rest w"
      "view w' = st2 \<or> is_InfrastructureError e' \<and> updated_session (s\<lparr>status := x\<rparr>) st2 (view w')"
      "is_InfrastructureError e' \<or> is_SessionNotFoundError e' \<and> session_in st2 ws sid = None"
      using ids by auto
    from st2(3) show ?case
    proof
      assume v: "view w' = st2"
      have "moved ws sid s e (insert x X) st0 st2" "st_counters st2 = st_counters (view w)"
        using moved_mono [OF moved_passes [OF m st2(1)]] counters_passes [OF moved_ok [OF m] st2(1)] by auto
      with st2 show ?thesis by (simp add: v)
    next
      assume u: "is_InfrastructureError e' \<and> updated_session (s\<lparr>status := x\<rparr>) st2 (view w')"
      note up = moved_update [OF m inv x st2(1) conjunct2 [OF u]]
      have "moved ws sid s e (insert x X) st0 (view w')" using moved_mono [OF up(1)] by simp
      with up u st2(2) show ?thesis by simp
    qed
  qed
qed

lemma drop_wp:
  assumes ids: "ws \<noteq> 0" "sid \<noteq> 0" and m: "moved ws sid s e X st0 (view w)"
  shows "wp (delete_session S ws sid)
     (\<lambda>_ w'. rest w' = rest w \<and> store_ok (view w') \<and> st_counters (view w') = st_counters (view w)
        \<and> session_in (view w') ws sid = None \<and> others_aged ws sid st0 (view w'))
     (\<lambda>e' w'. rest w' = rest w \<and> store_ok (view w') \<and> st_counters (view w') = st_counters (view w)
        \<and> is_InfrastructureError e' \<and> session_in (view w') ws sid \<in> {None} \<union> (\<lambda>y. Some (s\<lparr>status := y\<rparr>)) ` X) w"
proof (rule wp_use [OF performsD [OF delete [OF ids]]], goal_cases)
  case (1 _ w')
  then obtain st1 where "passes (view w) st1" "view w' = drop_session ws sid st1" by blast
  with 1 moved_drop [OF m] show ?case by simp
next
  case (2 e' w')
  then obtain st1 where st1: "passes (view w) st1" "view w' = st1 \<or> view w' = drop_session ws sid st1"
    "is_InfrastructureError e'" "rest w' = rest w" by blast
  from st1(2) show ?case
  proof
    assume v: "view w' = st1"
    have "moved ws sid s e X st0 st1" by (rule moved_passes [OF m st1(1)])
    with moved_session_in moved_ok counters_passes [OF moved_ok [OF m] st1(1)] st1 show ?thesis
      unfolding v by blast
  next
    assume v: "view w' = drop_session ws sid st1"
    from moved_drop [OF m st1(1)] st1 show ?thesis unfolding v by simp
  qed
qed

end

end
