(* ===== verification/Abort_Upload.thy ===== *)
theory Abort_Upload
  imports Process_Chunk Session_Changes
begin

text \<open>
  \<open>src/application/use_cases/abort_upload.py\<close>. \<open>abort_upload\<close> is \<open>execute\<close>; \<open>abort_wp\<close> says what one
  call does: on success a live session in a non-terminal state was deleted, and the upload counter
  of its workspace went down by one, unless the decrement failed, which the code swallows.
\<close>

definition abort_upload :: "'w ISessionStore \<Rightarrow> 'w IRateLimiter \<Rightarrow> uuid \<Rightarrow> uuid \<Rightarrow> ('w, unit) io" where
  "abort_upload S L ws sid =
     bnd (get_session S ws sid) (\<lambda>found.
     case found of
       None \<Rightarrow> raise (not_found sid)
     | Some s \<Rightarrow>
         bnd (guard (status s \<notin> {ABORTED, COMPLETE, FAILED}) (not_found sid)) (\<lambda>_.
         bnd (guard (workspace_id s = ws)
                (new_WorkspaceMismatchError sid ''upload_session'' ws (workspace_id s))) (\<lambda>_.
         let s' = s\<lparr>status := ABORTED\<rparr> in
         bnd (update_session S s') (\<lambda>_.
         bnd (delete_session S ws sid) (\<lambda>_.
         catch (decrement L ws) (\<lambda>e. if is_InfrastructureError e then ret () else raise e))))))"

section \<open>What it promises\<close>

text \<open>The session was there and is gone; every other session is as it was, or has expired.\<close>

definition aborted :: "uuid \<Rightarrow> uuid \<Rightarrow> store \<Rightarrow> store \<Rightarrow> bool" where
  "aborted ws sid st st' = ((\<exists>s. session_in st ws sid = Some s \<and> \<not> is_terminal (status s))
     \<and> session_in st' ws sid = None
     \<and> others_aged ws sid st st')"

text \<open>A failed abort may have marked the session, or deleted it, but has not touched a counter.\<close>

definition abort_refused :: "uuid \<Rightarrow> uuid \<Rightarrow> exn \<Rightarrow> store \<Rightarrow> bool" where
  "abort_refused ws sid e st' = (is_InfrastructureError e
     \<or> is_SessionNotFoundError e \<and> (\<forall>s. session_in st' ws sid = Some s \<longrightarrow> is_terminal (status s)))"

definition abort_failure :: "uuid \<Rightarrow> uuid \<Rightarrow> store \<Rightarrow> exn \<Rightarrow> store \<Rightarrow> bool" where
  "abort_failure ws sid st e st' = (abort_refused ws sid e st' \<and> st_counters st' = st_counters st
     \<and> (sessions_aged st st'
        \<or> (is_InfrastructureError e \<and> (\<exists>s. session_in st ws sid = Some s \<and> \<not> is_terminal (status s)
             \<and> session_in st' ws sid \<in> {None, Some (s\<lparr>status := ABORTED\<rparr>)}))))"

locale abort_services =
  session_store S view rest + rate_limiter L limit view rest
  for S :: "'w ISessionStore" and L :: "'w IRateLimiter" and limit :: int
    and view :: "'w \<Rightarrow> store" and rest :: "'w \<Rightarrow> 'o"
begin

lemma decrement_part_wp:
  assumes ws: "ws \<noteq> 0" and ok: "store_ok (view w)" and n: "count_in (view w) ws = Some n"
  shows "wp (catch (decrement L ws) (\<lambda>e. if is_InfrastructureError e then ret () else raise e))
     (\<lambda>_ w'. rest w' = rest w \<and> store_ok (view w') \<and> sessions_aged (view w) (view w')
        \<and> (count_in (view w') ws = Some (max 0 (n - 1)) \<or> (\<exists>e. decrement L ws w = (Inl e, w'))))
     (\<lambda>_ _. False) w"
  unfolding wp_catch by (rule wp_use [OF decr_step_wp [OF assms]]) (auto simp: wp_rules)

text \<open>From the marked session to the end.\<close>

lemma finish_wp:
  assumes ids: "ws \<noteq> 0" "sid \<noteq> 0" and m: "moved ws sid s e {ABORTED} st0 (view w)" and n: "count_in (view w) ws = Some n"
  shows "wp (bnd (delete_session S ws sid) (\<lambda>_.
        catch (decrement L ws) (\<lambda>e. if is_InfrastructureError e then ret () else raise e)))
     (\<lambda>_ w'. rest w' = rest w \<and> store_ok (view w') \<and> session_in (view w') ws sid = None \<and> others_aged ws sid st0 (view w')
        \<and> (count_in (view w') ws = Some (max 0 (n - 1)) \<or> (\<exists>e w1. decrement L ws w1 = (Inl e, w'))))
     (\<lambda>e' w'. rest w' = rest w \<and> store_ok (view w') \<and> st_counters (view w') = st_counters (view w)
        \<and> is_InfrastructureError e' \<and> session_in (view w') ws sid \<in> {None, Some (s\<lparr>status := ABORTED\<rparr>)}) w"
  unfolding wp_bnd
proof (rule wp_use [OF drop_wp [OF ids m]], goal_cases)
  case w1: (1 _ w1)
  then have "count_in (view w1) ws = Some n" using n by (simp add: count_in_def)
  moreover have "store_ok (view w1)" using w1 by blast
  ultimately show ?case
  proof (rule wp_use [OF decrement_part_wp [OF ids(1), rotated]], goal_cases)
    case (1 _ w')
    then have aged: "sessions_aged (view w1) (view w')" by blast
    have "session_in (view w') ws sid = None"
      using w1 sessions_agedD(2) [OF aged, of ws sid]
      by (auto simp: session_in_def tick_value_def split: option.splits)
    moreover have "others_aged ws sid st0 (view w')"
      using w1 sessions_agedD [OF aged] by simp
    ultimately show ?case using 1 w1 by auto
  qed simp
qed auto

lemma abort_session_wp:
  assumes ids: "ws \<noteq> 0" "sid \<noteq> 0" and p: "passes st0 (view w)" and ok: "store_ok (view w)"
    and live: "st_sessions (view w) ws sid = Some (Some s, e)" and opn: "\<not> is_terminal (status s)"
    and n: "count_in (view w) ws = Some n"
  shows "wp (bnd (update_session S (s\<lparr>status := ABORTED\<rparr>)) (\<lambda>_. bnd (delete_session S ws sid) (\<lambda>_.
        catch (decrement L ws) (\<lambda>e. if is_InfrastructureError e then ret () else raise e))))
     (\<lambda>_ w'. rest w' = rest w \<and> store_ok (view w') \<and> aborted ws sid st0 (view w')
        \<and> (count_in (view w') ws = Some (max 0 (n - 1)) \<or> (\<exists>e w1. decrement L ws w1 = (Inl e, w'))))
     (\<lambda>e' w'. rest w' = rest w \<and> store_ok (view w') \<and> st_counters (view w') = st_counters (view w)
        \<and> abort_refused ws sid e' (view w') \<and> (sessions_aged st0 (view w') \<or> is_InfrastructureError e'
             \<and> session_in (view w') ws sid \<in> {None, Some (s\<lparr>status := ABORTED\<rparr>)})) w"
proof -
  have inv: "entry_inv (view w) ws sid s e"
    using ok live sessions_okD [of "view w" ws sid] by (auto simp: store_ok_def)
  have s0: "session_in st0 ws sid = Some s"
    using passes_session [OF p, of ws sid s] live by (simp add: session_in_def)
  have m: "moved ws sid s e {status s} st0 (view w)" by (rule moved_start [OF p live ok])
  have t: "is_terminal ABORTED" by (simp add: is_terminal_def)
  show ?thesis
    unfolding wp_bnd [of "update_session _ _"]
  proof (rule wp_use [OF mark_wp [OF m inv t]], goal_cases)
    case w1: (1 _ w1)
    then have m1: "moved ws sid s e {ABORTED} st0 (view w1)" and n1: "count_in (view w1) ws = Some n"
      using n by (auto simp: count_in_def)
    show ?case
      by (rule wp_use [OF finish_wp [OF ids m1 n1]])
        (use w1 s0 opn in \<open>auto simp: aborted_def abort_refused_def\<close>)
  next
    case (2 e' w')
    then have "passes (view w) (view w') \<Longrightarrow> sessions_aged st0 (view w')"
      using passes_trans [OF p] sessions_aged_refl by blast
    moreover have "moved ws sid s e {ABORTED} st0 (view w') \<Longrightarrow>
        session_in (view w') ws sid \<in> {None, Some (s\<lparr>status := ABORTED\<rparr>)}"
      using moved_session_in [of ws sid s e "{ABORTED}" st0 "view w'"] by auto
    ultimately show ?case
      using 2 moved_ok [of ws sid s e "insert ABORTED {status s}" st0 "view w'"] unfolding abort_refused_def by auto
  qed
qed

lemma abort_wp:
  assumes ids: "ws \<noteq> 0" "sid \<noteq> 0" and ok: "store_ok (view w)" and n: "count_in (view w) ws = Some n"
  shows "wp (abort_upload S L ws sid)
     (\<lambda>_ w'. rest w' = rest w \<and> store_ok (view w') \<and> aborted ws sid (view w) (view w')
        \<and> (count_in (view w') ws = Some (max 0 (n - 1)) \<or> (\<exists>e w1. decrement L ws w1 = (Inl e, w'))))
     (\<lambda>e w'. rest w' = rest w \<and> store_ok (view w') \<and> abort_failure ws sid (view w) e (view w')) w"
    (is "wp _ ?Q ?E w")
  unfolding abort_upload_def wp_bnd
proof (rule wp_use [OF performsD [OF get [OF ids]]], goal_cases)
  case w1: (1 found w1)
  then have p1: "passes (view w) (view w1)" "rest w1 = rest w" "store_ok (view w1)"
    using store_ok_passes [OF ok] by auto
  have c1: "st_counters (view w1) = st_counters (view w)" by (rule counters_passes [OF ok p1(1)])
  have fail: "?E (not_found sid) w1" if "\<forall>s. found = Some s \<longrightarrow> is_terminal (status s)"
    using that w1 p1 c1 by (auto simp: abort_failure_def abort_refused_def sessions_aged_def not_found_def)
  show ?case
  proof (cases found)
    case None
    then show ?thesis using fail by (simp add: wp_rules)
  next
    case (Some s)
    show ?thesis
    proof (cases "is_terminal (status s)")
      case True
      then show ?thesis using fail by (simp add: Some is_terminal_iff wp_raise)
    next
      case False
      have s1: "session_in (view w1) ws sid = Some s" using w1 Some by simp
      then obtain e where live: "st_sessions (view w1) ws sid = Some (Some s, e)" and inv: "entry_inv (view w1) ws sid s e"
        using session_in_ok [of "view w1"] p1(3) unfolding store_ok_def by blast
      have n1: "count_in (view w1) ws = Some n" using n c1 by (simp add: count_in_def)
      have s0: "session_in (view w) ws sid = Some s" by (rule passes_session [OF p1(1) s1])
      have "wp (bnd (update_session S (s\<lparr>status := ABORTED\<rparr>)) (\<lambda>_. bnd (delete_session S ws sid) (\<lambda>_.
          catch (decrement L ws) (\<lambda>e. if is_InfrastructureError e then ret () else raise e)))) ?Q ?E w1"
        by (rule wp_use [OF abort_session_wp [OF ids p1(1,3) live False n1]])
          (use p1(2) c1 s0 False in \<open>auto simp: abort_failure_def\<close>)
      then show ?thesis
        using False inv by (simp add: Some is_terminal_iff Let_def entry_inv_def)
    qed
  qed
next
  case (2 e w')
  then have p: "passes (view w) (view w')" "rest w' = rest w" by auto
  have ok': "store_ok (view w')" by (rule store_ok_passes [OF ok p(1)])
  then have "is_InfrastructureError e" using 2 by (auto simp: store_ok_def sessions_ok_def)
  then show ?case
    using ok' p counters_passes [OF ok p(1)] by (auto simp: abort_failure_def abort_refused_def sessions_aged_def)
qed

lemma abort_twice:
  assumes ids: "ws \<noteq> 0" "sid \<noteq> 0" and ok: "store_ok (view w)"
  shows "wp (bnd (abort_upload S L ws sid) (\<lambda>_. abort_upload S L ws sid))
     (\<lambda>_ _. False) (\<lambda>_ w'. store_ok (view w')) w"
proof -
  obtain n where n: "count_in (view w) ws = Some n" using ok count_ok by (auto simp: store_ok_def)
  show ?thesis
    unfolding wp_bnd
  proof (rule wp_use [OF abort_wp [OF ids ok n]], goal_cases)
    case (1 _ w1)
    then have w1: "store_ok (view w1)" "session_in (view w1) ws sid = None" by (auto simp: aborted_def)
    obtain k where k: "count_in (view w1) ws = Some k" using w1(1) count_ok by (auto simp: store_ok_def)
    show ?case
    proof (rule wp_use [OF abort_wp [OF ids w1(1) k]], goal_cases)
      case (1 _ w')
      then show ?case using w1(2) by (auto simp: aborted_def)
    qed blast
  qed blast
qed

end

end
