(* ===== verification/Session_Store.thy ===== *)
theory Session_Store
  imports Serialization
begin

text \<open>
  \<open>src/infrastructure/redis/session_store.py\<close>: sessions as Redis hashes. The methods are the
  \<open>rss_\<dots>\<close> functions, with the \<open>try\<close>/\<open>except\<close> structure of the code; \<open>RedisSessionStore\<close> packs them
  as the \<open>ISessionStore\<close> the use cases get; \<open>sublocale\<close> proves that on every server that behaves
  like Redis the class keeps the contract \<open>session_store\<close>.
\<close>

section \<open>The methods\<close>

definition session_ttl_seconds :: nat where "session_ttl_seconds = 86400"
definition expiry_ttl_seconds :: nat where "expiry_ttl_seconds = 604800"

definition expiry_fields :: "UploadSession \<Rightarrow> (string \<times> string) list" where
  "expiry_fields s =
     [(''session_id'', uuid_str (session_id s)), (''workspace_id'', uuid_str (workspace_id s)),
      (''expires_at'', isoformat (expires_at s)), (''filename'', filename s)]"

text \<open>The two \<open>except\<close> clauses of the writing and of the reading methods.\<close>

definition wrap_write :: "string \<Rightarrow> exn \<Rightarrow> exn" where
  "wrap_write what e =
     (if is_RedisError e then InfrastructureError (''Failed to '' @ what @ '' session: '' @ exn_str e)
      else if is_TypeError e \<or> is_ValueError e
        then SerializationError (''Failed to serialize session: '' @ exn_str e)
      else e)"

definition wrap_read :: "string \<Rightarrow> string \<Rightarrow> exn \<Rightarrow> exn" where
  "wrap_read what data e =
     (if is_RedisError e then InfrastructureError (''Failed to retrieve '' @ what @ '': '' @ exn_str e)
      else if is_KeyError e \<or> is_ValueError e
        then SerializationError (''Invalid '' @ data @ '' data: '' @ exn_str e)
      else e)"

definition rss_create_session :: "'w redis_client \<Rightarrow> UploadSession \<Rightarrow> ('w, unit) io" where
  "rss_create_session R s =
     bnd (lift (session_key (workspace_id s) (session_id s))) (\<lambda>key.
     catch
       (r_pipeline R
          [PHset key (serialize_session s), PExpire key session_ttl_seconds,
           PHset (expiry_key (session_id s)) (expiry_fields s),
           PExpire (expiry_key (session_id s)) expiry_ttl_seconds])
       (\<lambda>e. raise (wrap_write ''create'' e)))"

definition rss_get_session :: "'w redis_client \<Rightarrow> uuid \<Rightarrow> uuid \<Rightarrow> ('w, UploadSession option) io" where
  "rss_get_session R ws sid =
     bnd (lift (session_key ws sid)) (\<lambda>key.
     catch
       (bnd (r_hgetall R key) (\<lambda>raw.
        if raw = [] then ret None
        else bnd (lift (decode_dict raw)) (\<lambda>data.
             bnd (lift (deserialize_session (dict_get data))) (\<lambda>s. ret (Some s)))))
       (\<lambda>e. raise (wrap_read ''session'' ''session'' e)))"

definition rss_get_session_with_expiry_info ::
  "'w redis_client \<Rightarrow> uuid \<Rightarrow> uuid \<Rightarrow> ('w, UploadSession option \<times> ExpiryMetadata option) io" where
  "rss_get_session_with_expiry_info R ws sid =
     bnd (lift (session_key ws sid)) (\<lambda>key.
     catch
       (bnd (r_hgetall R key) (\<lambda>raw.
        if raw \<noteq> [] then
          bnd (lift (decode_dict raw)) (\<lambda>data.
          bnd (lift (deserialize_session (dict_get data))) (\<lambda>s. ret (Some s, None)))
        else
          bnd (r_hgetall R (expiry_key sid)) (\<lambda>raw'.
          if raw' \<noteq> [] then
            bnd (lift (decode_dict raw')) (\<lambda>data.
            let m = metadata_of_dict (dict_get data) in if em_workspace_id m \<noteq> uuid_str ws then ret (None, None) else ret (None, Some m))
          else ret (None, None))))
       (\<lambda>e. raise (wrap_read ''session with expiry info'' ''session or expiry'' e)))"

definition rss_update_session :: "'w redis_client \<Rightarrow> UploadSession \<Rightarrow> ('w, unit) io" where
  "rss_update_session R s =
     bnd (lift (session_key (workspace_id s) (session_id s))) (\<lambda>key.
     catch
       (bnd (r_ttl R key) (\<lambda>ttl.
        if ttl = - 2
        then raise (SessionNotFoundError (''Session not found: workspace_id='' @ uuid_str (workspace_id s)
               @ '', session_id='' @ uuid_str (session_id s)))
        else r_hset R key (serialize_session s)))
       (\<lambda>e. if is_SessionNotFoundError e then raise e else raise (wrap_write ''update'' e)))"

definition rss_delete_session :: "'w redis_client \<Rightarrow> uuid \<Rightarrow> uuid \<Rightarrow> ('w, unit) io" where
  "rss_delete_session R ws sid =
     bnd (lift (session_key ws sid)) (\<lambda>key.
     catch
       (bnd (r_delete R [key, expiry_key sid]) (\<lambda>deleted_count. ret ()))
       (\<lambda>e. if is_RedisError e
            then raise (InfrastructureError (''Failed to delete session: '' @ exn_str e))
            else raise e))"

definition RedisSessionStore :: "'w redis_client \<Rightarrow> 'w ISessionStore" where
  "RedisSessionStore R = \<lparr>create_session = rss_create_session R, get_session = rss_get_session R,
     get_session_with_expiry_info = rss_get_session_with_expiry_info R,
     update_session = rss_update_session R, delete_session = rss_delete_session R\<rparr>"

lemma RedisSessionStore_sel [simp]:
  "create_session (RedisSessionStore R) = rss_create_session R"
  "get_session (RedisSessionStore R) = rss_get_session R"
  "get_session_with_expiry_info (RedisSessionStore R) = rss_get_session_with_expiry_info R"
  "update_session (RedisSessionStore R) = rss_update_session R"
  "delete_session (RedisSessionStore R) = rss_delete_session R"
  by (simp_all add: RedisSessionStore_def)

section \<open>The contract\<close>

lemma session_value_serialized:
  "storable s \<Longrightarrow> session_value (RHash (hset_fields (serialize_session s) h)) = Some (Some s)"
  using deserialize_agree [of s "map_of (hset_fields (serialize_session s) h)"]
  by (simp add: session_value_def hset_fields_get distinct_serialize)

lemma distinct_expiry_fields: "distinct (map fst (expiry_fields s))"
  by (simp add: expiry_fields_def)

lemma expired_value_fields:
  "expired_value (RHash (hset_fields (expiry_fields s) h)) = Some (expiry_metadata_of s)"
proof -
  have g: "map_of (hset_fields (expiry_fields s) h) k = Some v" if "(k, v) \<in> set (expiry_fields s)" for k v
    using that by (rule hset_fields_get [OF distinct_expiry_fields])
  have "hset_fields (expiry_fields s) h \<noteq> []"
    by (rule hset_fields_not_Nil) (simp_all add: expiry_fields_def)
  then show ?thesis
    using g [of "''session_id''"] g [of "''workspace_id''"] g [of "''expires_at''"] g [of "''filename''"]
    by (simp add: expired_value_def metadata_of_dict_def Let_def expiry_fields_def expiry_metadata_of_def)
qed

definition create_commands :: "UploadSession \<Rightarrow> pipe_cmd list" where
  "create_commands s = [PHset (session_key_text (workspace_id s) (session_id s)) (serialize_session s),
     PExpire (session_key_text (workspace_id s) (session_id s)) session_ttl_seconds,
     PHset (expiry_key (session_id s)) (expiry_fields s),
     PExpire (expiry_key (session_id s)) expiry_ttl_seconds]"

lemma create_commands_success:
  assumes s: "storable s" and r: "cmd_pipeline (create_commands s) t d = (Some r, d')"
  shows "store_of t d' = put_expired (session_id s) (Some (expiry_metadata_of s, Some (t + 604800000)))
    (put_session s (Some (t + 86400000)) (store_of t d))"
proof -
  let ?k = "session_key_text (workspace_id s) (session_id s)"
  let ?k' = "expiry_key (session_id s)"
  obtain h where h: "hash_at d ?k = Some h"
    using r by (cases "hash_at d ?k") (auto simp: create_commands_def cmd_hset_def Let_def split: prod.splits)
  obtain h' where h': "hash_at d ?k' = Some h'"
    using r h by (cases "hash_at d ?k'")
      (auto simp: create_commands_def cmd_hset_def cmd_expire_def Let_def put_hash_def hash_at_def
        session_ttl_seconds_def split: prod.splits)
  have "d' = d(?k \<mapsto> (RHash (hset_fields (serialize_session s) h), Some (t + 86400000)),
      ?k' \<mapsto> (RHash (hset_fields (expiry_fields s) h'), Some (t + 604800000)))"
    using r h h'
    by (simp add: create_commands_def cmd_hset_def cmd_expire_def Let_def put_hash_def hash_at_def
        session_ttl_seconds_def expiry_ttl_seconds_def)
  then show ?thesis
    by (simp add: store_of_upd session_value_serialized [OF s] expired_value_fields put_session_def
        put_expired_def)
qed

fun pipe_key :: "pipe_cmd \<Rightarrow> string" where
  "pipe_key (PHset k _) = k"
| "pipe_key (PExpire k _) = k"

lemma pipe_step_frame: "k \<noteq> pipe_key c \<Longrightarrow> snd (pipe_step c t d) k = d k"
  by (cases c) (auto simp: cmd_hset_def cmd_expire_def put_hash_def split: option.splits)

lemma snd_pipeline_Cons:
  "snd (cmd_pipeline (c # cs) t d) = snd (cmd_pipeline cs t (snd (pipe_step c t d)))"
  by (simp add: Let_def split_beta)

lemma pipeline_frame: "k \<notin> pipe_key ` set cs \<Longrightarrow> snd (cmd_pipeline cs t d) k = d k"
proof (induction cs arbitrary: d)
  case (Cons c cs)
  with snd_pipeline_Cons [of c cs t d] show ?case by (simp add: pipe_step_frame)
qed simp

lemma same_but_session_frame:
  assumes "\<And>k. k \<noteq> session_key_text ws sid \<Longrightarrow> k \<noteq> expiry_key sid \<Longrightarrow> d' k = d k"
  shows "same_but_session ws sid (store_of t d) (store_of t d')"
proof -
  let ?k = "session_key_text ws sid" and ?k' = "expiry_key sid"
  have "d' = d(?k := d' ?k, ?k' := d' ?k')" using assms by auto
  then have "store_of t d' = store_of t (d(?k := d' ?k, ?k' := d' ?k'))" by (rule arg_cong)
  also have "\<dots> = put_expired sid (timed_val expired_value (d' ?k')) ((store_of t d)\<lparr>st_sessions :=
      (st_sessions (store_of t d))(ws := (st_sessions (store_of t d) ws)
        (sid := timed_val session_value (d' ?k)))\<rparr>)"
    by (simp add: store_of_upd put_expired_def)
  finally show ?thesis unfolding same_but_session_def by blast
qed

lemma create_commands_any:
  assumes s: "storable s"
  shows "create_interrupted s (store_of t d) (store_of t (snd (cmd_pipeline (create_commands s) t d)))"
proof (cases "hash_at d (session_key_text (workspace_id s) (session_id s))")
  case None
  let ?k = "session_key_text (workspace_id s) (session_id s)"
  obtain b e where "d ?k = Some (RBlob b, e)"
    using None by (auto simp: hash_at_def split: option.splits rvalue.splits)
  then have "st_sessions (store_of t d) (workspace_id s) (session_id s) = Some (None, e)"
    by (simp add: store_of_def timed_at_def session_value_def)
  moreover have "same_but_session (workspace_id s) (session_id s) (store_of t d)
     (store_of t (snd (cmd_pipeline (create_commands s) t d)))"
    by (rule same_but_session_frame, rule pipeline_frame) (auto simp: create_commands_def)
  ultimately show ?thesis unfolding create_interrupted_def by blast
next
  case (Some h)
  let ?k = "session_key_text (workspace_id s) (session_id s)"
  let ?k' = "expiry_key (session_id s)"
  let ?d1 = "d(?k \<mapsto> (RHash (hset_fields (serialize_session s) h), Some (t + 86400000)))"
  let ?d' = "snd (cmd_pipeline (create_commands s) t d)"
  have "?d' = snd (cmd_pipeline [PHset ?k' (expiry_fields s), PExpire ?k' expiry_ttl_seconds] t ?d1)"
  proof -
    have "snd (pipe_step (PHset ?k (serialize_session s)) t d) = put_hash d ?k (hset_fields (serialize_session s) h)"
      using Some by (simp add: cmd_hset_def)
    moreover have "snd (pipe_step (PExpire ?k session_ttl_seconds) t (put_hash d ?k (hset_fields (serialize_session s) h))) = ?d1"
      by (simp add: cmd_expire_def put_hash_def session_ttl_seconds_def)
    ultimately show ?thesis unfolding create_commands_def snd_pipeline_Cons by simp
  qed
  then have "?d' k = ?d1 k" if "k \<noteq> ?k'" for k
    using that pipeline_frame [of k "[PHset ?k' (expiry_fields s), PExpire ?k' expiry_ttl_seconds]" t ?d1]
    by simp
  then have "?d' = ?d1(?k' := ?d' ?k')" by auto
  then have "store_of t ?d' = store_of t (?d1(?k' := ?d' ?k'))" by (rule arg_cong)
  also have "\<dots> = put_expired (session_id s) (timed_val expired_value (?d' ?k'))
      (put_session s (Some (t + 86400000)) (store_of t d))"
    by (simp add: store_of_upd session_value_serialized [OF s] put_session_def put_expired_def)
  finally show ?thesis unfolding create_interrupted_def by (metis st_now_store_of)
qed

lemma hset_session:
  assumes s: "storable s"
    and r: "cmd_hset (session_key_text (workspace_id s) (session_id s)) (serialize_session s) t d = (Some r, d')"
  shows "updated_session s (store_of t d) (store_of t d')"
proof -
  let ?k = "session_key_text (workspace_id s) (session_id s)"
  obtain h where h: "hash_at d ?k = Some h" "d' = d(?k \<mapsto> (RHash (hset_fields (serialize_session s) h), key_expiry d ?k))"
    using r by (auto simp: cmd_hset_def put_hash_upd split: option.splits)
  then have "store_of t d' = put_session s (key_expiry d ?k) (store_of t d)"
    by (simp add: store_of_upd session_value_serialized [OF s] put_session_def)
  moreover have "expiry_of (st_sessions (store_of t d) (workspace_id s) (session_id s)) = key_expiry d ?k"
    by (auto simp: store_of_def timed_at_def timed_val_def key_expiry_def expiry_of_def session_value_def
        split: option.splits)
  ultimately show ?thesis by (simp add: updated_session_def)
qed

lemma hset_session_snd:
  assumes "storable s"
  shows "store_of t (snd (cmd_hset (session_key_text (workspace_id s) (session_id s)) (serialize_session s) t d))
      = store_of t d
    \<or> updated_session s (store_of t d)
        (store_of t (snd (cmd_hset (session_key_text (workspace_id s) (session_id s)) (serialize_session s) t d)))"
  using hset_session [OF assms, of t d]
  by (cases "hash_at d (session_key_text (workspace_id s) (session_id s))") (simp_all add: cmd_hset_def)

lemma delete_session_keys:
  "store_of t (snd (cmd_delete [session_key_text ws sid, expiry_key sid] t d)) = drop_session ws sid (store_of t d)"
proof -
  have "snd (cmd_delete [session_key_text ws sid, expiry_key sid] t d)
      = d(session_key_text ws sid := None, expiry_key sid := None)"
    by (auto simp: cmd_delete_def restrict_map_def)
  then show ?thesis by (simp add: store_of_upd drop_session_def)
qed

lemma session_in_store_of:
  "session_in (store_of t d) ws sid = (case d (session_key_text ws sid) of
     None \<Rightarrow> None | Some (v, e) \<Rightarrow> the (session_value v))"
  by (auto simp: session_in_def store_of_def timed_at_def timed_val_def session_value_def
      split: option.splits)

lemma deserialize_empty: "deserialize_session (\<lambda>_. None) = Inl (KeyError ''chunk_manifest'')"
  by (simp add: deserialize_session_def dict_item_def)

lemma session_key_storable:
  "storable s \<Longrightarrow> session_key (workspace_id s) (session_id s) = Inr (session_key_text (workspace_id s) (session_id s))"
  by (simp add: storable_def)

lemma redis_not_found [simp]: "is_RedisError e \<Longrightarrow> \<not> is_SessionNotFoundError e"
  by (cases e) simp_all

lemma read_commands: "snd (cmd_hgetall k t d) = d" "snd (cmd_ttl k t d) = d"
  by (simp_all add: cmd_hgetall_def cmd_ttl_def)

text \<open>What a read of the session's hash says about the abstract store.\<close>

lemma hgetall_session:
  assumes h: "fst (cmd_hgetall (session_key_text ws sid) t d) = Some h" and rs: "rep_hash h rs"
  shows "if rs = [] then session_in (store_of t d) ws sid = None
    else \<exists>x. decode_dict rs = Inr x
      \<and> (\<forall>s. deserialize_session (dict_get x) = Inr s \<longrightarrow> session_in (store_of t d) ws sid = Some s)
      \<and> (\<forall>e. deserialize_session (dict_get x) = Inl e \<longrightarrow> (\<exists>e. st_sessions (store_of t d) ws sid = Some (None, e)))"
proof -
  have "\<exists>e. h \<noteq> [] \<longrightarrow> st_sessions (store_of t d) ws sid = Some (the (session_value (RHash h)), e)"
    using h by (auto simp: store_of_def timed_at_def timed_val_def cmd_hgetall_def hash_at_def session_value_def
        split: option.splits rvalue.splits)
  moreover
  have "session_in (store_of t d) ws sid = the (session_value (RHash h))"
    using h by (auto simp: session_in_store_of cmd_hgetall_def hash_at_def session_value_def
        deserialize_empty split: option.splits rvalue.splits)
  ultimately show ?thesis
    using decode_dict_rep [OF rs] by (auto simp: session_value_def deserialize_empty)
qed

lemma hgetall_expired:
  assumes h: "fst (cmd_hgetall (expiry_key sid) t d) = Some h" and rs: "rep_hash h rs"
  shows "if rs = [] then st_expired (store_of t d) sid = None
    else \<exists>x e. decode_dict rs = Inr x
      \<and> st_expired (store_of t d) sid = Some (metadata_of_dict (dict_get x), e)"
proof -
  have "st_expired (store_of t d) sid = (if h = [] then None
      else Some (metadata_of_dict (map_of h), key_expiry d (expiry_key sid)))"
    using h by (auto simp: store_of_def timed_at_def timed_val_def cmd_hgetall_def hash_at_def
        expired_value_def key_expiry_def split: option.splits rvalue.splits)
  then show ?thesis using decode_dict_rep [OF rs] by auto
qed

context redis_server
begin

lemma create_contract:
  assumes s: "storable s"
  shows "performs (redis_view now db) rest
      (\<lambda>st _ st'. \<exists>st1. passes st st1 \<and> st' = put_expired (session_id s)
          (Some (expiry_metadata_of s, Some (st_now st1 + 604800000)))
          (put_session s (Some (st_now st1 + 86400000)) st1))
      (\<lambda>st e st'. \<exists>st1. passes st st1 \<and> is_InfrastructureError e
          \<and> create_interrupted s st1 st')
      (rss_create_session R s)"
  unfolding performs_def
proof
  fix w
  have k: "session_key (workspace_id s) (session_id s) = Inr (session_key_text (workspace_id s) (session_id s))"
    using s by (simp add: storable_def)
  show "wp (rss_create_session R s)
     (\<lambda>x w'. rest w' = rest w \<and> (\<exists>st1. passes (redis_view now db w) st1 \<and> redis_view now db w' = put_expired (session_id s)
          (Some (expiry_metadata_of s, Some (st_now st1 + 604800000)))
          (put_session s (Some (st_now st1 + 86400000)) st1)))
     (\<lambda>e w'. rest w' = rest w \<and> (\<exists>st1. passes (redis_view now db w) st1 \<and> is_InfrastructureError e
          \<and> create_interrupted s st1 (redis_view now db w'))) w"
    unfolding rss_create_session_def k bnd_lift_Inr wp_catch wp_raise
      create_commands_def [symmetric]
  proof (rule wp_use [OF obeysD [OF pipeline]], goal_cases)
    case (1 x w')
    then show ?case
      using create_commands_success [OF s] redis_view_passes [of now w "now w'" db]
      by (fastforce simp: redis_view_def)
  next
    case (2 e w')
    let ?st1 = "store_of (now w') (purge (now w') (db w))"
    have "create_interrupted s ?st1 (redis_view now db w')"
      using 2 create_commands_any [OF s, of "now w'" "purge (now w') (db w)"]
      by (auto simp: redis_view_def create_interrupted_refl)
    with 2 show ?case using redis_view_passes [of now w "now w'" db] by (auto simp: wrap_write_def)
  qed
qed

lemma get_contract:
  assumes ids: "ws \<noteq> 0" "sid \<noteq> 0"
  shows "performs (redis_view now db) rest
      (\<lambda>st r st'. passes st st' \<and> r = session_in st' ws sid)
      (\<lambda>st e st'. passes st st' \<and> (is_InfrastructureError e \<or> (\<exists>x. st_sessions st' ws sid = Some (None, x))))
      (rss_get_session R ws sid)"
  unfolding performs_def
proof
  fix w
  show "wp (rss_get_session R ws sid)
     (\<lambda>r w'. rest w' = rest w \<and> passes (redis_view now db w) (redis_view now db w')
        \<and> r = session_in (redis_view now db w') ws sid)
     (\<lambda>e w'. rest w' = rest w \<and> passes (redis_view now db w) (redis_view now db w')
        \<and> (is_InfrastructureError e \<or> (\<exists>x. st_sessions (redis_view now db w') ws sid = Some (None, x)))) w"
    unfolding rss_get_session_def session_key_Inr [OF ids] bnd_lift_Inr wp_catch wp_raise wp_bnd
  proof (rule wp_use [OF obeys_read [OF hgetall read_commands(1)]], goal_cases)
    case (1 raw w')
    then obtain h where "fst (cmd_hgetall (session_key_text ws sid) (now w') (db w')) = Some h" "rep_hash h raw"
      by blast
    from hgetall_session [OF this] 1 show ?case
      by (auto simp: wp_rules redis_view_def split: if_splits sum.splits)
  next
    case (2 e w')
    then show ?case by (simp add: wrap_read_def)
  qed
qed

text \<open>The lookup of the expiry metadata, when there is no session.\<close>

lemma read_expired_wp:
  assumes p: "passes (redis_view now db w) (redis_view now db w1)" and rest: "rest w1 = rest w"
  shows "wp (bnd (r_hgetall R (expiry_key sid)) (\<lambda>raw'.
      if raw' \<noteq> [] then
        bnd (lift (decode_dict raw')) (\<lambda>data.
        let m = metadata_of_dict (dict_get data) in if em_workspace_id m \<noteq> uuid_str ws then ret (None, None) else ret (None, Some m))
      else ret (None, None)))
    (\<lambda>r w'. rest w' = rest w \<and> passes (redis_view now db w1) (redis_view now db w')
       \<and> r = (None, expired_in (redis_view now db w') ws sid))
    (\<lambda>e w'. rest w' = rest w \<and> passes (redis_view now db w) (redis_view now db w') \<and> is_RedisError e) w1"
  unfolding wp_bnd [of "r_hgetall _ _"]
proof (rule wp_use [OF obeys_read [OF hgetall read_commands(1)]], goal_cases)
  case w2: (1 raw' w')
  then obtain h' where "fst (cmd_hgetall (expiry_key sid) (now w') (db w')) = Some h'" "rep_hash h' raw'"
    by blast
  note expired = hgetall_expired [OF this, folded redis_view_def]
  show ?case
  proof (cases "raw' = []")
    case True
    with expired have "expired_in (redis_view now db w') ws sid = None"
      by (simp add: expired_in_def redis_view_def)
    with True rest w2 show ?thesis by (auto simp: wp_rules)
  next
    case False
    with expired obtain x e where x: "decode_dict raw' = Inr x"
      "st_expired (redis_view now db w') sid = Some (metadata_of_dict (dict_get x), e)"
      by (auto simp: redis_view_def)
    show ?thesis
      using False rest w2 x by (auto simp: wp_rules expired_in_def Let_def)
  qed
next
  case (2 e w')
  with p rest passes_trans show ?case by fastforce
qed

lemma get_with_expiry_contract:
  assumes ids: "ws \<noteq> 0" "sid \<noteq> 0"
  shows "performs (redis_view now db) rest
      (\<lambda>st r st'. \<exists>st1. passes st st1 \<and> passes st1 st' \<and>
          (case session_in st1 ws sid of
             Some s \<Rightarrow> r = (Some s, None)
           | None \<Rightarrow> r = (None, expired_in st' ws sid)))
      (\<lambda>st e st'. passes st st' \<and> (is_InfrastructureError e \<or> (\<exists>x. st_sessions st' ws sid = Some (None, x))))
      (rss_get_session_with_expiry_info R ws sid)"
  unfolding performs_def
proof
  fix w
  let ?Q = "\<lambda>r w'. rest w' = rest w \<and> (\<exists>st1. passes (redis_view now db w) st1
      \<and> passes st1 (redis_view now db w') \<and>
          (case session_in st1 ws sid of
             Some s \<Rightarrow> r = (Some s, None)
           | None \<Rightarrow> r = (None, expired_in (redis_view now db w') ws sid)))"
  let ?E = "\<lambda>e w'. rest w' = rest w \<and> passes (redis_view now db w) (redis_view now db w')
      \<and> (is_InfrastructureError e \<or> (\<exists>x. st_sessions (redis_view now db w') ws sid = Some (None, x)))"
  show "wp (rss_get_session_with_expiry_info R ws sid) ?Q ?E w"
    unfolding rss_get_session_with_expiry_info_def session_key_Inr [OF ids] bnd_lift_Inr wp_catch
      wp_raise wp_bnd
  proof (rule wp_use [OF obeys_read [OF hgetall read_commands(1)]], goal_cases)
    case w1: (1 raw w1)
    then obtain h where "fst (cmd_hgetall (session_key_text ws sid) (now w1) (db w1)) = Some h" "rep_hash h raw"
      by blast
    note session = hgetall_session [OF this]
    show ?case
    proof (cases "raw = []")
      case False
      with w1 session view_refl [of w1] show ?thesis
        by (auto simp: wp_rules redis_view_def split: sum.splits)
    next
      case True
      with session have none: "session_in (redis_view now db w1) ws sid = None"
        by (simp add: redis_view_def)
      have raw: "\<not> raw \<noteq> []" using True by simp
      show ?thesis
        unfolding if_not_P [OF raw]
        by (rule wp_use [OF read_expired_wp [where w = w]]) (use w1 none in \<open>auto simp: wrap_read_def\<close>)
    qed
  next
    case (2 e w')
    then show ?case by (simp add: wrap_read_def)
  qed
qed

text \<open>The write of an update.\<close>

lemma write_session_wp:
  assumes s: "storable s" and p: "passes (redis_view now db w) (redis_view now db w1)" and rest: "rest w1 = rest w"
  shows "wp (r_hset R (session_key_text (workspace_id s) (session_id s)) (serialize_session s))
     (\<lambda>_ w'. rest w' = rest w \<and> (\<exists>st1. passes (redis_view now db w) st1
        \<and> updated_session s st1 (redis_view now db w')))
     (\<lambda>e w'. rest w' = rest w \<and> is_RedisError e \<and> (\<exists>st1. passes (redis_view now db w) st1
        \<and> (redis_view now db w' = st1 \<or> updated_session s st1 (redis_view now db w')))) w1"
proof (rule wp_use [OF obeys_view [OF hset]], goal_cases)
  case (1 _ w')
  then obtain d where d: "passes (redis_view now db w1) (store_of (now w') d)"
    "cmd_hset (session_key_text (workspace_id s) (session_id s)) (serialize_session s) (now w') d = (Some (), db w')" by auto
  have "updated_session s (store_of (now w') d) (redis_view now db w')"
    unfolding redis_view_def by (rule hset_session [OF s d(2)])
  then show ?case using 1 rest passes_trans [OF p d(1)] by auto
next
  case (2 e w')
  then obtain d where d: "passes (redis_view now db w1) (store_of (now w') d)" "db w' = d
      \<or> db w' = snd (cmd_hset (session_key_text (workspace_id s) (session_id s)) (serialize_session s) (now w') d)" by auto
  then have "redis_view now db w' = store_of (now w') d \<or> updated_session s (store_of (now w') d) (redis_view now db w')"
    using hset_session_snd [OF s, of "now w'" d] by (auto simp: redis_view_def)
  then show ?case using 2 rest passes_trans [OF p d(1)] by (intro conjI exI [of _ "store_of (now w') d"]) auto
qed

lemma update_contract:
  assumes s: "storable s"
  shows "performs (redis_view now db) rest
      (\<lambda>st _ st'. \<exists>st1. passes st st1 \<and> updated_session s st1 st')
      (\<lambda>st e st'. \<exists>st1. passes st st1 \<and> (is_SessionNotFoundError e \<or> is_InfrastructureError e)
          \<and> (st' = st1 \<or> is_InfrastructureError e \<and> updated_session s st1 st')
          \<and> (is_SessionNotFoundError e \<longrightarrow> session_in st1 (workspace_id s) (session_id s) = None))
      (rss_update_session R s)"
  unfolding performs_def
proof
  fix w
  let ?k = "session_key_text (workspace_id s) (session_id s)"
  show "wp (rss_update_session R s)
     (\<lambda>_ w'. rest w' = rest w \<and> (\<exists>st1. passes (redis_view now db w) st1 \<and> updated_session s st1 (redis_view now db w')))
     (\<lambda>e w'. rest w' = rest w \<and> (\<exists>st1. passes (redis_view now db w) st1
          \<and> (is_SessionNotFoundError e \<or> is_InfrastructureError e)
          \<and> (redis_view now db w' = st1 \<or> is_InfrastructureError e \<and> updated_session s st1 (redis_view now db w'))
          \<and> (is_SessionNotFoundError e \<longrightarrow> session_in st1 (workspace_id s) (session_id s) = None))) w"
    unfolding rss_update_session_def session_key_storable [OF s] bnd_lift_Inr wp_catch wp_bnd
  proof (rule wp_use [OF obeys_read [OF ttl read_commands(2)]], goal_cases)
    case w1: (1 x w1)
    show ?case
    proof (cases "x = - 2")
      case True
      with w1 have "db w1 ?k = None" by (auto simp: cmd_ttl_def split: option.splits)
      then have "session_in (redis_view now db w1) (workspace_id s) (session_id s) = None"
        by (simp add: redis_view_def session_in_store_of)
      with True w1 show ?thesis by (auto simp: wp_rules)
    next
      case False
      show ?thesis
        unfolding if_not_P [OF False]
      proof (rule wp_use [OF write_session_wp [OF s, where w = w]], goal_cases)
        case (4 e w')
        then have "is_InfrastructureError (wrap_write ''update'' e)"
            "\<not> is_SessionNotFoundError (wrap_write ''update'' e)" "\<not> is_SessionNotFoundError e"
          by (simp_all add: wrap_write_def)
        with 4 show ?case unfolding wp_if wp_raise by (simp only: if_False) blast
      qed (use w1 in auto)
    qed
  next
    case (2 e w')
    then show ?case by (auto simp: wp_rules wrap_write_def)
  qed
qed

lemma delete_contract:
  assumes ids: "ws \<noteq> 0" "sid \<noteq> 0"
  shows "performs (redis_view now db) rest
      (\<lambda>st _ st'. \<exists>st1. passes st st1 \<and> st' = drop_session ws sid st1)
      (\<lambda>st e st'. \<exists>st1. passes st st1 \<and> is_InfrastructureError e
          \<and> (st' = st1 \<or> st' = drop_session ws sid st1))
      (rss_delete_session R ws sid)"
  unfolding performs_def
proof
  fix w
  show "wp (rss_delete_session R ws sid)
     (\<lambda>_ w'. rest w' = rest w \<and> (\<exists>st1. passes (redis_view now db w) st1
        \<and> redis_view now db w' = drop_session ws sid st1))
     (\<lambda>e w'. rest w' = rest w \<and> (\<exists>st1. passes (redis_view now db w) st1 \<and> is_InfrastructureError e
          \<and> (redis_view now db w' = st1 \<or> redis_view now db w' = drop_session ws sid st1))) w"
    unfolding rss_delete_session_def session_key_Inr [OF ids] bnd_lift_Inr wp_catch wp_bnd
  proof (rule wp_use [OF obeys_view [OF delete]], goal_cases)
    case (1 x w')
    then obtain d where "passes (redis_view now db w) (store_of (now w') d)"
      "db w' = snd (cmd_delete [session_key_text ws sid, expiry_key sid] (now w') d)"
      by (metis snd_conv)
    with 1 show ?case by (auto simp: wp_rules redis_view_def delete_session_keys)
  next
    case (2 e w')
    then show ?case by (auto simp: wp_rules redis_view_def delete_session_keys)
  qed
qed

end

sublocale redis_server \<subseteq> sessions: session_store "RedisSessionStore R" "redis_view now db" rest
  by (unfold_locales; unfold RedisSessionStore_sel;
      rule create_contract get_contract get_with_expiry_contract update_contract delete_contract)

context redis_server
begin

lemma session_store: "session_store (RedisSessionStore R) (redis_view now db) rest"
  by (rule sessions.session_store_axioms)

end

interpretation mem_sessions: session_store "RedisSessionStore mem_redis" "redis_view mw_now mem_live" mem_world.more
  by (rule mem.session_store)

end
