(* ===== verification/Dedup_Store.thy ===== *)
theory Dedup_Store
  imports Serialization
begin

text \<open>
  \<open>src/infrastructure/redis/deduplication_store.py\<close>: fingerprints of completed files, one Redis hash
  per workspace. Each command runs under \<open>asyncio.wait_for\<close>; the operation \<open>timer\<close> of the environment
  says whether its five seconds pass, before the command took effect or after it. \<open>sublocale\<close> proves
  the contract \<open>dedup_store\<close>. A timeout is an \<open>asyncio.TimeoutError\<close>, which the \<open>except\<close> clause of
  the class does not catch: it escapes as it is.
\<close>

section \<open>The class\<close>

definition wait_for :: "('w, bool option) io \<Rightarrow> ('w, 'a) io \<Rightarrow> ('w, 'a) io" where
  "wait_for timer m = bnd timer (\<lambda>t. case t of
     None \<Rightarrow> m
   | Some late \<Rightarrow> if late then bnd m (\<lambda>_. raise AsyncTimeoutError) else raise AsyncTimeoutError)"

fun reply_empty :: "reply option \<Rightarrow> bool" where
  "reply_empty None = True"
| "reply_empty (Some (RStr s)) = (s = [])"
| "reply_empty (Some (RBytes b)) = (b = [])"

definition rds_check_duplicate ::
  "'w redis_client \<Rightarrow> ('w, bool option) io \<Rightarrow> uuid \<Rightarrow> SHA256Hash \<Rightarrow> ('w, FileMetadata option) io" where
  "rds_check_duplicate R timer ws sha =
     catch
       (bnd (lift (dedup_key ws)) (\<lambda>key.
        bnd (wait_for timer (r_hexists R key (SHA256Hash_str sha))) (\<lambda>exists.
        if \<not> exists then ret None
        else bnd (wait_for timer (r_hget R key (SHA256Hash_str sha))) (\<lambda>metadata_json.
          if reply_empty metadata_json then ret None
          else bnd (lift (deserialize_metadata (the metadata_json))) (\<lambda>m. ret (Some m))))))
       (\<lambda>e. if is_RedisError e
            then raise (InfrastructureError (''Deduplication check failed for workspace ''
                   @ uuid_str ws @ '': '' @ exn_str e))
            else raise e)"

definition rds_register_file ::
  "'w redis_client \<Rightarrow> ('w, bool option) io \<Rightarrow> uuid \<Rightarrow> SHA256Hash \<Rightarrow> FileMetadata \<Rightarrow> ('w, unit) io" where
  "rds_register_file R timer ws sha metadata =
     catch
       (bnd (lift (dedup_key ws)) (\<lambda>key.
        bnd (lift (serialize_metadata metadata)) (\<lambda>metadata_json.
        wait_for timer (r_hset R key [(SHA256Hash_str sha, metadata_json)]))))
       (\<lambda>e. if is_RedisError e
            then raise (InfrastructureError (''Fingerprint registration failed for workspace ''
                   @ uuid_str ws @ '': '' @ exn_str e))
            else raise e)"

definition RedisDeduplicationStore :: "'w redis_client \<Rightarrow> ('w, bool option) io \<Rightarrow> 'w IDeduplicationStore" where
  "RedisDeduplicationStore R timer = \<lparr>check_duplicate = rds_check_duplicate R timer,
     register_file = rds_register_file R timer\<rparr>"

lemma RedisDeduplicationStore_sel [simp]:
  "check_duplicate (RedisDeduplicationStore R T) = rds_check_duplicate R T"
  "register_file (RedisDeduplicationStore R T) = rds_register_file R T"
  by (simp_all add: RedisDeduplicationStore_def)

section \<open>Timeouts\<close>

text \<open>What an operation of the environment may do to the store: let time pass.\<close>

definition idle :: "('w \<Rightarrow> nat) \<Rightarrow> ('w \<Rightarrow> redis_db) \<Rightarrow> ('w \<Rightarrow> 'o) \<Rightarrow> ('w, 'a) io \<Rightarrow> bool" where
  "idle now db rest m = performs (redis_view now db) rest (\<lambda>st _ st'. passes st st') (\<lambda>_ _ _. False) m"

lemma idleD: "idle now db rest m \<Longrightarrow>
    wp m (\<lambda>x w'. rest w' = rest w \<and> passes (redis_view now db w) (redis_view now db w')) (\<lambda>_ _. False) w"
  unfolding idle_def by (drule performsD) simp

lemma wait_for_wp:
  assumes "idle now db rest timer"
    and m: "\<And>w. wp m (Q w) (E w) w"
    and shift_Q: "\<And>w w1 x w'. rest w1 = rest w \<Longrightarrow> passes (redis_view now db w) (redis_view now db w1)
        \<Longrightarrow> Q w1 x w' \<Longrightarrow> Q w x w'"
    and shift_E: "\<And>w w1 e w'. rest w1 = rest w \<Longrightarrow> passes (redis_view now db w) (redis_view now db w1)
        \<Longrightarrow> E w1 e w' \<Longrightarrow> E w e w'"
    and late: "\<And>x w'. Q w x w' \<Longrightarrow> E w AsyncTimeoutError w'"
    and early: "\<And>w'. rest w' = rest w \<Longrightarrow> passes (redis_view now db w) (redis_view now db w')
        \<Longrightarrow> E w AsyncTimeoutError w'"
  shows "wp (wait_for timer m) (Q w) (E w) w"
  unfolding wait_for_def wp_bnd
proof (rule wp_use [OF idleD [OF assms(1)]], goal_cases)
  case (1 t w1)
  have "wp m (Q w) (E w) w1"
    by (rule wp_use [OF m]) (use 1 shift_Q shift_E in blast)+
  moreover have "wp (bnd m (\<lambda>_. raise AsyncTimeoutError)) (Q w) (E w) w1"
    unfolding wp_bnd wp_raise
    by (rule wp_use [OF m]) (use 1 shift_Q shift_E late in blast)+
  ultimately show ?case using 1 early by (auto simp: wp_rules split: option.splits)
qed simp

section \<open>The contract\<close>

lemma read_hexists: "snd (cmd_hexists k f t d) = d"
  by (simp add: cmd_hexists_def)

lemma read_field: "snd (cmd_hget k f t d) = d"
  by (simp add: cmd_hget_def)

lemma st_files_store_of:
  "st_files (store_of t d) ws h = (case d (dedup_key_text ws) of None \<Rightarrow> None
     | Some (v, e) \<Rightarrow> map_option (\<lambda>y. (y, e)) (file_value h v))"
  by (simp add: store_of_def timed_at_def timed_val_def)

lemma hexists_file:
  assumes "fst (cmd_hexists (dedup_key_text ws) h t d) = Some b"
  shows "b \<longleftrightarrow> st_files (store_of t d) ws h \<noteq> None"
  using assms by (auto simp: cmd_hexists_def st_files_store_of hash_at_def file_value_def
      split: option.splits rvalue.splits)

lemma hget_file:
  assumes v: "fst (cmd_hget (dedup_key_text ws) h t d) = Some v" and r: "rel_option rep_str v r"
  shows "if reply_empty r then file_in (store_of t d) ws h = None
    else (\<forall>m. deserialize_metadata (the r) = Inr m \<longrightarrow> file_in (store_of t d) ws h = Some m)
      \<and> (\<forall>e. deserialize_metadata (the r) = Inl e \<longrightarrow> st_files (store_of t d) ws h \<noteq> None
            \<and> file_in (store_of t d) ws h = None)"
proof -
  have f: "st_files (store_of t d) ws h = map_option (\<lambda>j. (case deserialize_metadata (RStr j) of
      Inr m \<Rightarrow> Some m | Inl _ \<Rightarrow> None, key_expiry d (dedup_key_text ws))) v"
    using v by (auto simp: cmd_hget_def st_files_store_of hash_at_def file_value_def key_expiry_def
        option.map_comp o_def split: option.splits rvalue.splits)
  show ?thesis
  proof (cases v)
    case None
    with r f show ?thesis by (auto simp: file_in_def rel_option_iff split: option.splits)
  next
    case (Some j)
    with r obtain x where x: "r = Some x" "rep_str j x" by (auto simp: rel_option_iff split: option.splits)
    have same: "deserialize_metadata x = deserialize_metadata (RStr j)"
      using x(2) by (simp add: deserialize_metadata_def)
    have "deserialize_metadata (RStr []) = Inl (SerializationError (''Failed to deserialize file metadata: json''))"
      by code_simp
    moreover have "reply_empty r \<longleftrightarrow> j = []"
      using x by (cases x; cases j) (auto simp: utf8_encode_def)
    ultimately show ?thesis
      using f Some x(1) same by (auto simp: file_in_def split: sum.splits)
  qed
qed

lemma hset_file:
  assumes m: "metadata_storable m" and j: "serialize_metadata m = Inr j"
    and r: "cmd_hset (dedup_key_text ws) [(h, j)] t d = (Some r, d')"
  shows "registered_file ws h m (store_of t d) (store_of t d')"
proof -
  let ?k = "dedup_key_text ws"
  have "deserialize_metadata (RStr j) = Inr m"
    using deserialize_serialize_metadata [OF m] j by fastforce
  moreover obtain fs where fs: "hash_at d ?k = Some fs"
      "d' = d(?k \<mapsto> (RHash (AList.update h j fs), key_expiry d ?k))"
    using r by (auto simp: cmd_hset_def hset_fields_def put_hash_upd split: option.splits)
  moreover have "st_files (store_of t d) ws h' = map_option (\<lambda>y. (y, key_expiry d ?k)) (file_value h' (RHash fs))" for h'
    using fs(1) by (auto simp: st_files_store_of hash_at_def key_expiry_def file_value_def
        split: option.splits rvalue.splits)
  ultimately have "(\<lambda>h'. timed_val (file_value h') (Some (RHash (AList.update h j fs), key_expiry d ?k)))
      = (st_files (store_of t d) ws)(h \<mapsto> (Some m, key_expiry d ?k))"
    by (intro ext) (simp add: file_value_def update_conv')
  then have "store_of t d' = put_file ws h (Some (Some m, key_expiry d ?k)) (store_of t d)"
    unfolding fs(2) store_of_upd put_file_def by simp
  moreover have "st_files (store_of t d) ws h \<noteq> None \<longrightarrow> key_expiry d ?k = expiry_of (st_files (store_of t d) ws h)"
    by (auto simp: st_files_store_of key_expiry_def expiry_of_def split: option.splits)
  ultimately show ?thesis unfolding registered_file_def by blast
qed

lemma hset_file_snd:
  assumes "metadata_storable m" and "serialize_metadata m = Inr j"
  shows "store_of t (snd (cmd_hset (dedup_key_text ws) [(h, j)] t d)) = store_of t d
    \<or> registered_file ws h m (store_of t d) (store_of t (snd (cmd_hset (dedup_key_text ws) [(h, j)] t d)))"
  using hset_file [OF assms, of ws h t d]
  by (cases "hash_at d (dedup_key_text ws)") (simp_all add: cmd_hset_def)

context redis_server
begin

lemma hexists_wp:
  "wp (r_hexists R (dedup_key_text ws) h)
     (\<lambda>b w'. rest w' = rest w \<and> passes (redis_view now db w) (redis_view now db w')
        \<and> (b \<longleftrightarrow> st_files (redis_view now db w') ws h \<noteq> None))
     (\<lambda>e w'. rest w' = rest w \<and> passes (redis_view now db w) (redis_view now db w')
        \<and> (is_RedisError e \<or> e = AsyncTimeoutError)) w"
proof (rule wp_use [OF obeys_read [OF hexists read_hexists]], goal_cases)
  case (1 b w')
  then have "fst (cmd_hexists (dedup_key_text ws) h (now w') (db w')) = Some b" by blast
  from hexists_file [OF this] 1 show ?case by (simp add: redis_view_def)
qed simp

lemma hget_wp:
  "wp (r_hget R (dedup_key_text ws) h)
     (\<lambda>r w'. rest w' = rest w \<and> passes (redis_view now db w) (redis_view now db w')
        \<and> (if reply_empty r then file_in (redis_view now db w') ws h = None
           else (\<forall>m. deserialize_metadata (the r) = Inr m \<longrightarrow> file_in (redis_view now db w') ws h = Some m)
             \<and> (\<forall>e. deserialize_metadata (the r) = Inl e \<longrightarrow> st_files (redis_view now db w') ws h \<noteq> None
                  \<and> file_in (redis_view now db w') ws h = None)))
     (\<lambda>e w'. rest w' = rest w \<and> passes (redis_view now db w) (redis_view now db w')
        \<and> (is_RedisError e \<or> e = AsyncTimeoutError)) w"
proof (rule wp_use [OF obeys_read [OF hget read_field]], goal_cases)
  case (1 r w')
  then obtain v where "fst (cmd_hget (dedup_key_text ws) h (now w') (db w')) = Some v" "rel_option rep_str v r"
    by blast
  from hget_file [OF this] 1 show ?case by (simp add: redis_view_def)
qed simp

lemma hset_file_wp:
  assumes m: "metadata_storable m" and j: "serialize_metadata m = Inr j"
  shows "wp (r_hset R (dedup_key_text ws) [(h, j)])
     (\<lambda>_ w'. rest w' = rest w \<and> (\<exists>st1. passes (redis_view now db w) st1
        \<and> registered_file ws h m st1 (redis_view now db w')))
     (\<lambda>e w'. rest w' = rest w \<and> (is_RedisError e \<or> e = AsyncTimeoutError)
        \<and> (\<exists>st1. passes (redis_view now db w) st1 \<and> (redis_view now db w' = st1
             \<or> registered_file ws h m st1 (redis_view now db w')))) w"
proof (rule wp_use [OF obeys_view [OF hset]], goal_cases)
  case (1 r w')
  then obtain d where d: "passes (redis_view now db w) (store_of (now w') d)"
    "cmd_hset (dedup_key_text ws) [(h, j)] (now w') d = (Some (), db w')" by auto
  from hset_file [OF m j d(2)] 1 d(1) show ?case by (auto simp: redis_view_def)
next
  case (2 e w')
  then obtain d where d: "passes (redis_view now db w) (store_of (now w') d)"
    "db w' = d \<or> db w' = snd (cmd_hset (dedup_key_text ws) [(h, j)] (now w') d)" by auto
  with hset_file_snd [OF m j, of "now w'" ws h d]
  have "redis_view now db w' = store_of (now w') d
      \<or> registered_file ws h m (store_of (now w') d) (redis_view now db w')"
    by (auto simp: redis_view_def)
  with 2 d(1) show ?case by blast
qed

lemma check_dup_contract:
  assumes ws: "ws \<noteq> 0" and T: "idle now db rest timer"
  shows "performs (redis_view now db) rest
      (\<lambda>st r st'. passes st st' \<and> r = file_in st' ws (hash_value h))
      (\<lambda>st e st'. passes st st' \<and> (is_InfrastructureError e \<or> e = AsyncTimeoutError
          \<or> st_files st' ws (hash_value h) \<noteq> None \<and> file_in st' ws (hash_value h) = None))
      (rds_check_duplicate R timer ws h)"
    (is "performs _ _ ?Q ?E _")
  unfolding performs_def
proof
  fix w
  let ?v = "redis_view now db"
  let ?E1 = "\<lambda>e w'. rest w' = rest w \<and> passes (?v w) (?v w') \<and> (is_RedisError e \<or> e = AsyncTimeoutError)"
  show "wp (rds_check_duplicate R timer ws h) (\<lambda>x w'. rest w' = rest w \<and> ?Q (?v w) x (?v w'))
      (\<lambda>e w'. rest w' = rest w \<and> ?E (?v w) e (?v w')) w"
    unfolding rds_check_duplicate_def dedup_key_Inr [OF ws] bnd_lift_Inr wp_catch wp_bnd SHA256Hash_str_def
  proof (rule wp_use [OF wait_for_wp [OF T hexists_wp]], goal_cases)
    case w1: (5 b w1)
    show ?case
    proof (cases b)
      case False
      with w1 show ?thesis by (auto simp: wp_rules file_in_def split: option.splits)
    next
      case True
      then have nb: "\<not> \<not> b" by simp
      show ?thesis
        unfolding if_not_P [OF nb] wp_bnd
      proof (rule wp_use [OF wait_for_wp [OF T hget_wp]], goal_cases)
        case w2: (5 r w2)
        have p: "passes (?v w) (?v w2)" "rest w2 = rest w" using w1 w2 passes_trans by auto
        show ?case
          using w2 p by (auto simp: wp_rules split: sum.splits if_splits dest: deserialize_metadata_error)
      next
        case (1 w w1 x w')
        then show ?case using passes_trans by metis
      next
        case (2 w w1 e w')
        then show ?case using passes_trans by metis
      next
        case (6 e w')
        with w1 have "passes (?v w) (?v w')" "rest w' = rest w" using passes_trans by auto
        with 6 show ?case by (auto simp: wp_rules)
      qed simp_all
    qed
  next
    case (1 w w1 x w')
    then show ?case using passes_trans by metis
  next
    case (2 w w1 e w')
    then show ?case using passes_trans by metis
  next
    case (6 e w')
    then show ?case by (auto simp: wp_rules)
  qed simp_all
qed

lemma register_contract:
  assumes ws: "ws \<noteq> 0" and m: "metadata_storable m" and T: "idle now db rest timer"
  shows "performs (redis_view now db) rest
      (\<lambda>st _ st'. \<exists>st1. passes st st1 \<and> registered_file ws (hash_value h) m st1 st')
      (\<lambda>st e st'. \<exists>st1. passes st st1 \<and> (is_InfrastructureError e \<or> e = AsyncTimeoutError)
          \<and> (st' = st1 \<or> registered_file ws (hash_value h) m st1 st'))
      (rds_register_file R timer ws h m)"
    (is "performs _ _ ?Q ?E _")
  unfolding performs_def
proof
  fix w
  let ?v = "redis_view now db"
  obtain j where j: "serialize_metadata m = Inr j"
    using deserialize_serialize_metadata [OF m] by blast
  show "wp (rds_register_file R timer ws h m) (\<lambda>x w'. rest w' = rest w \<and> ?Q (?v w) x (?v w'))
      (\<lambda>e w'. rest w' = rest w \<and> ?E (?v w) e (?v w')) w"
    unfolding rds_register_file_def dedup_key_Inr [OF ws] bnd_lift_Inr wp_catch SHA256Hash_str_def j
  proof (rule wp_use [OF wait_for_wp [OF T hset_file_wp [OF m j]]], goal_cases)
    case (6 e w')
    then show ?case by (auto simp: wp_rules)
  next
    case (1 w w1 x w')
    then show ?case using passes_trans by metis
  next
    case (2 w w1 e w')
    then show ?case using passes_trans by metis
  qed auto
qed

lemma dedup_store:
  "idle now db rest timer \<Longrightarrow> dedup_store (RedisDeduplicationStore R timer) (redis_view now db) rest"
  by (unfold_locales; unfold RedisDeduplicationStore_sel; rule check_dup_contract register_contract)

end

locale redis_with_timer = redis_server R now db rest
  for R :: "'w redis_client" and now :: "'w \<Rightarrow> nat" and db :: "'w \<Rightarrow> redis_db" and rest :: "'w \<Rightarrow> 'o" +
  fixes timer :: "('w, bool option) io"
  assumes timer: "idle now db rest timer"

sublocale redis_with_timer \<subseteq> dedup: dedup_store "RedisDeduplicationStore R timer" "redis_view now db" rest
  by (rule dedup_store [OF timer])

text \<open>The clock of the server in memory: no call takes five seconds.\<close>

definition mem_timer :: "('z mem_world_scheme, bool option) io" where
  "mem_timer = ret None"

lemma mem_view_refl: "passes (redis_view mw_now mem_live w) (redis_view mw_now mem_live w)"
  by (rule mem.view_refl)

interpretation mem_timed: redis_with_timer mem_redis mw_now mem_live mem_world.more mem_timer
  by unfold_locales (simp add: idle_def performs_def mem_timer_def wp_ret mem_view_refl)

end
