(* ===== verification/Upload_Service.thy ===== *)
theory Upload_Service
  imports Initiate_Upload Abort_Upload Session_Store Rate_Limiter Dedup_Store Chunk_Cache
begin

text \<open>
  The use cases on the providers the application builds them with: the session store and the rate
  limiter on one Redis client (\<open>src/presentation/api/v1/routers/uploads.py\<close>, the \<open>get_..\<close> functions).
  The locale \<open>upload_service\<close> is that configuration; its \<open>sublocale\<close>s discharge the contracts the
  use cases depend on. \<open>reachable\<close> is the closure of a world under calls of the use cases,
  whether they return or raise, and \<open>reachable_store_ok\<close> the invariant of the stored data along it.
\<close>

section \<open>The configuration\<close>

locale upload_service = redis_server R now db rest + environment Env "redis_view now db" rest
  for R :: "'w redis_client" and now :: "'w \<Rightarrow> nat" and db :: "'w \<Rightarrow> redis_db" and rest :: "'w \<Rightarrow> 'o"
    and Env :: "'w environment" +
  fixes limit :: int
  assumes positive_limit: "0 < limit"

sublocale upload_service \<subseteq> initiate: initiate_services "RedisSessionStore R" "RedisRateLimiter R limit" limit
    Env "redis_view now db" rest
  by (intro initiate_services.intro session_store rate_limiter positive_limit environment_axioms)

sublocale upload_service \<subseteq> process: process_services "RedisSessionStore R" R "redis_view now db" rest
  by (intro process_services.intro session_store chunk_cache)

sublocale upload_service \<subseteq> abort: abort_services "RedisSessionStore R" "RedisRateLimiter R limit" limit
    "redis_view now db" rest
  by (intro abort_services.intro session_store rate_limiter positive_limit)

text \<open>The server in memory, with identifiers drawn from its clock.\<close>

definition mem_environment :: "'z mem_world_scheme environment" where
  "mem_environment = \<lparr>
     uuid4 = (\<lambda>w. (Inr (max 1 (of_nat (mw_now w))), w)),
     now_utc = (\<lambda>w. (Inr \<lparr>wall = 63902908800000000, utcoff = Some 0\<rparr>, w))\<rparr>"

lemma valid_demo_time: "valid_datetime \<lparr>wall = 63902908800000000, utcoff = Some 0\<rparr>"
  by (simp add: valid_datetime_def max_wall_def days_before_year_def usec_day_def)

interpretation mem_service: upload_service mem_redis mw_now mem_live mem_world.more mem_environment 10
proof unfold_locales
  have "max 1 u \<noteq> 0" for u :: uuid by (cases "u = 0") (auto simp: max_def)
  then show "performs (redis_view mw_now mem_live) mem_world.more (\<lambda>st u st'. passes st st' \<and> u \<noteq> 0)
      (\<lambda>_ _ _. False) (uuid4 mem_environment)"
    by (simp add: performs_def mem_environment_def wp_def mem_view_refl)
  show "performs (redis_view mw_now mem_live) mem_world.more
      (\<lambda>st d st'. passes st st' \<and> valid_datetime d \<and> utcoff d = Some 0) (\<lambda>_ _ _. False) (now_utc mem_environment)"
    by (simp add: performs_def mem_environment_def wp_def mem_view_refl valid_demo_time)
qed simp

section \<open>Sequences of calls\<close>

datatype call =
    Initiate InitiateUploadRequest
  | Chunk ProcessChunkRequest
  | Abort uuid uuid

text \<open>The world after a call, whether it returned or raised.\<close>

fun world_after :: "'w redis_client \<Rightarrow> 'w environment \<Rightarrow> int \<Rightarrow> call \<Rightarrow> 'w \<Rightarrow> 'w" where
  "world_after R Env limit (Initiate req) w =
     snd (initiate_upload (RedisRateLimiter R limit) (RedisSessionStore R) Env req w)"
| "world_after R Env limit (Chunk req) w = snd (process_chunk (RedisSessionStore R) R req w)"
| "world_after R Env limit (Abort ws sid) w =
     snd (abort_upload (RedisSessionStore R) (RedisRateLimiter R limit) ws sid w)"

inductive reachable :: "'w redis_client \<Rightarrow> 'w environment \<Rightarrow> int \<Rightarrow> 'w \<Rightarrow> 'w \<Rightarrow> bool"
  for R Env limit w0 where
  start: "reachable R Env limit w0 w0"
| step: "reachable R Env limit w0 w \<Longrightarrow> reachable R Env limit w0 (world_after R Env limit c w)"

text \<open>The session grew by this data; its bytes are there as long as it has a time to live.\<close>

definition content_extended :: "uuid \<Rightarrow> uuid \<Rightarrow> bytes \<Rightarrow> store \<Rightarrow> store \<Rightarrow> bool" where
  "content_extended ws sid data st st' = (\<exists>s e s' e'. st_sessions st ws sid = Some (Some s, e)
     \<and> st_sessions st' ws sid = Some (Some s', e') \<and> offset s' = offset s + int (length data)
     \<and> (\<forall>t. e' = Some t \<longrightarrow> e = Some t \<and> content_in st' ws sid = content_in st ws sid @ data)
     \<and> (e' = None \<longrightarrow> e = None \<or> outlived e (st_now st')) \<and> st_now st \<le> st_now st')"

lemma content_extended_trans:
  "content_extended ws sid d1 st st1 \<Longrightarrow> content_extended ws sid d2 st1 st2 \<Longrightarrow> content_extended ws sid (d1 @ d2) st st2"
  by (auto simp: content_extended_def intro: outlived_mono)

lemma content_extended_chunk:
  "session_in st ws sid = Some s \<Longrightarrow> chunk_appended st ws sid s data st' \<Longrightarrow> content_extended ws sid data st st'"
  by (auto simp: content_extended_def chunk_appended_def session_in_def expiry_of_def split: option.splits)

text \<open>A NIL identifier is refused by the key builder, before any command is sent.\<close>

lemma nil_ids:
  "iur_workspace_id req = 0 \<Longrightarrow> snd (initiate_upload (RedisRateLimiter R limit) S Env req w) = w"
  "ws = 0 \<or> sid = 0 \<Longrightarrow> snd (get_session (RedisSessionStore R) ws sid w) = w
    \<and> (\<exists>e. fst (get_session (RedisSessionStore R) ws sid w) = Inl e)"
proof -
  show "ws = 0 \<or> sid = 0 \<Longrightarrow> snd (get_session (RedisSessionStore R) ws sid w) = w
    \<and> (\<exists>e. fst (get_session (RedisSessionStore R) ws sid w) = Inl e)"
    by (cases "ws = 0") (auto simp: rss_get_session_def session_key_def validate_workspace_id_def
        validate_document_id_def bnd_def)
  assume ws: "iur_workspace_id req = 0"
  show "snd (initiate_upload (RedisRateLimiter R limit) S Env req w) = w"
  proof (cases "validate_request req")
    case (Inl e)
    then show ?thesis by (simp add: initiate_invalid_run)
  next
    case (Inr u)
    then show ?thesis
      using ws by (simp add: initiate_valid validate_request_iff [symmetric] rrl_check_and_increment_def)
  qed
qed

lemma bnd_fails: "snd (m w) = w \<and> (\<exists>e. fst (m w) = Inl e) \<Longrightarrow> snd (bnd m f w) = w"
  by (auto simp: bnd_def split: prod.splits)

lemma wp_snd: "wp m (\<lambda>_. P) (\<lambda>_. P) w \<Longrightarrow> P (snd (m w))"
  by (auto simp: wp_def split: prod.splits sum.splits)

context upload_service
begin

lemmas initiate_service = initiate.initiate_wp
lemmas process_service = process.process_wp
lemmas abort_service = abort.abort_wp
lemmas abort_twice = abort.abort_twice

lemma store_ok_after:
  assumes ok: "store_ok (redis_view now db w)"
  shows "store_ok (redis_view now db (world_after R Env limit c w))"
proof (cases c)
  case (Initiate req)
  show ?thesis
  proof (cases "iur_workspace_id req = 0 \<or> \<not> request_ok req")
    case True
    then have "snd (initiate_upload (RedisRateLimiter R limit) (RedisSessionStore R) Env req w) = w"
    proof
      assume "\<not> request_ok req"
      then obtain e where "validate_request req = Inl e"
        using validate_request_iff [of req] by (cases "validate_request req") auto
      then show ?thesis by (simp add: initiate_invalid_run)
    qed (rule nil_ids(1))
    then show ?thesis using ok by (simp add: Initiate)
  next
    case False
    obtain n where n: "count_in (redis_view now db w) (iur_workspace_id req) = Some n"
      using ok count_ok by (auto simp: store_ok_def)
    have req: "request_ok req" "iur_workspace_id req \<noteq> 0" using False by simp_all
    have "wp (initiate_upload (RedisRateLimiter R limit) (RedisSessionStore R) Env req)
        (\<lambda>_ w'. store_ok (redis_view now db w')) (\<lambda>_ w'. store_ok (redis_view now db w')) w"
      by (rule wp_use [OF initiate.initiate_wp [OF req ok n]]) blast+
    from wp_snd [OF this] show ?thesis by (simp add: Initiate)
  qed
next
  case (Chunk req)
  show ?thesis
  proof (cases "pcr_workspace_id req = 0 \<or> pcr_session_id req = 0")
    case True
    then show ?thesis using ok by (simp add: Chunk process_chunk_def bnd_fails [OF nil_ids(2)] del: RedisSessionStore_sel)
  next
    case False
    then have "wp (process_chunk (RedisSessionStore R) R req)
        (\<lambda>_ w'. store_ok (redis_view now db w')) (\<lambda>_ w'. store_ok (redis_view now db w')) w"
      by (intro wp_use [OF process.process_wp [OF _ _ ok]]) simp_all
    from wp_snd [OF this] show ?thesis by (simp add: Chunk)
  qed
next
  case (Abort ws sid)
  show ?thesis
  proof (cases "ws = 0 \<or> sid = 0")
    case True
    then show ?thesis using ok by (simp add: Abort abort_upload_def bnd_fails [OF nil_ids(2)] del: RedisSessionStore_sel)
  next
    case False
    then have ids: "ws \<noteq> 0" "sid \<noteq> 0" by simp_all
    obtain n where n: "count_in (redis_view now db w) ws = Some n"
      using ok count_ok by (auto simp: store_ok_def)
    have "wp (abort_upload (RedisSessionStore R) (RedisRateLimiter R limit) ws sid)
        (\<lambda>_ w'. store_ok (redis_view now db w')) (\<lambda>_ w'. store_ok (redis_view now db w')) w"
      by (rule wp_use [OF abort.abort_wp [OF ids ok n]]) blast+
    from wp_snd [OF this] show ?thesis by (simp add: Abort)
  qed
qed

lemma reachable_store_ok:
  "reachable R Env limit w0 w \<Longrightarrow> store_ok (redis_view now db w0) \<Longrightarrow> store_ok (redis_view now db w)"
  by (induction rule: reachable.induct) (rule store_ok_after | assumption)+

section \<open>An upload, chunk by chunk\<close>

text \<open>Calls for one session, in the order of the list.\<close>

lemma chunks_wp:
  assumes reqs: "\<And>r. r \<in> set reqs \<Longrightarrow> pcr_workspace_id r = ws \<and> pcr_session_id r = sid"
    and ids: "ws \<noteq> 0" "sid \<noteq> 0" and ok: "store_ok (redis_view now db w)" and s: "session_in (redis_view now db w) ws sid \<noteq> None"
  shows "wp (mapM (process_chunk (RedisSessionStore R) R) reqs)
     (\<lambda>_ w'. store_ok (redis_view now db w')
        \<and> content_extended ws sid (concat (map pcr_chunk_data reqs)) (redis_view now db w) (redis_view now db w'))
     (\<lambda>_ w'. store_ok (redis_view now db w')) w"
  using reqs ok s
proof (induction reqs arbitrary: w)
  case Nil
  then have "content_extended ws sid [] (redis_view now db w) (redis_view now db w)"
    using session_in_ok [of "redis_view now db w" ws sid] by (auto simp: content_extended_def store_ok_def)
  with Nil show ?case by (simp add: wp_rules)
next
  case (Cons r reqs)
  have r: "pcr_workspace_id r = ws" "pcr_session_id r = sid" using Cons.prems(1) [of r] by simp_all
  show ?case
    unfolding mapM.simps wp_bnd
  proof (rule wp_use [OF process.process_wp [OF _ _ Cons.prems(2)]], unfold r, goal_cases)
    case w1: (3 res w1)
    then have e1: "content_extended ws sid (pcr_chunk_data r) (redis_view now db w) (redis_view now db w1)"
      using content_extended_chunk by (auto simp: process_spec_def r)
    have ok1: "store_ok (redis_view now db w1)" using w1 by blast
    have s1: "session_in (redis_view now db w1) ws sid \<noteq> None"
      using e1 by (auto simp: content_extended_def session_in_def)
    have rs: "pcr_workspace_id x = ws \<and> pcr_session_id x = sid" if "x \<in> set reqs" for x
      using Cons.prems(1) [of x] that by simp
    show ?case
    proof (rule wp_use [OF Cons.IH [OF rs ok1 s1]], goal_cases)
      case (2 rs w')
      then show ?case using content_extended_trans [OF e1] by (simp add: wp_ret)
    qed
  next
    case (4 e w')
    then show ?case by blast
  qed (use ids in blast)+
qed

end

end
