(* ===== verification/Auth.thy ===== *)
theory Auth
  imports Settings Serialization Upload_Service
begin

text \<open>
  Who may call: \<open>src/infrastructure/auth\<close> (\<open>JWTValidator\<close>, \<open>require_role\<close>, \<open>validate_workspace_access\<close>,
  \<open>validate_file_access\<close>), \<open>get_current_user\<close> of \<open>src/presentation/api/middleware/auth.py\<close> and the
  middleware of \<open>src/presentation/main.py\<close>. PyJWT and the key loader of the \<open>cryptography\<close> package are
  the record \<open>jwt_lib\<close>; \<open>token_verifier\<close> says that decoding returns the payload of genuine tokens only.
  The validators are functions of the claims. \<open>get_current_user_answers\<close>: whatever the library does, a
  request is authenticated with well-formed claims or answered 401.
\<close>

section \<open>The token\<close>

type_synonym payload = "(string \<times> json) list"

record 'w jwt_lib =
  jwt_load_public_key :: "string \<Rightarrow> exn + string"
  jwt_decode :: "string \<Rightarrow> string \<Rightarrow> string list \<Rightarrow> string list \<Rightarrow> ('w, payload) io"

record JWTValidator =
  jv_public_key :: string
  jv_algorithm :: string

definition mk_JWTValidator :: "'w jwt_lib \<Rightarrow> AppSettings \<Rightarrow> exn + JWTValidator" where
  "mk_JWTValidator J s =
     andThen (check (strip (jwt_public_key s) \<noteq> []) (ValueError ''jwt_public_key cannot be empty'')) (\<lambda>_.
     andThen (jwt_load_public_key J (jwt_public_key s)) (\<lambda>key.
     Inr \<lparr>jv_public_key = key, jv_algorithm = jwt_algorithm s\<rparr>))"

definition required_claims :: "string list" where
  "required_claims = [''user_id'', ''active_workspace_id'', ''workspace_role'', ''exp'']"

text \<open>\<open>WorkspaceRole(x)\<close>.\<close>

definition json_role :: "json \<Rightarrow> exn + WorkspaceRole" where
  "json_role j = (case j of JStr s \<Rightarrow> to_WorkspaceRole s | _ \<Rightarrow> Inl (ValueError ''WorkspaceRole''))"

fun is_text :: "json \<Rightarrow> bool" where
  "is_text (JStr s) = True"
| "is_text _ = False"

definition shared_ids :: "payload \<Rightarrow> exn + uuid list option" where
  "shared_ids p =
     (case map_of p ''shared_file_ids'' of
        None \<Rightarrow> Inr None
      | Some JNull \<Rightarrow> Inr None
      | Some (JArr xs) \<Rightarrow>
          andThen (check (list_all is_text xs) (TypeError ''shared_file_ids must contain only strings'')) (\<lambda>_.
          andThen (check (length xs \<le> 1000) (ValueError ''shared_file_ids cannot exceed 1000 entries'')) (\<lambda>_.
          andThen (mapR json_UUID xs) (\<lambda>ids. Inr (Some ids))))
      | Some _ \<Rightarrow> Inl (TypeError ''shared_file_ids must be a list or tuple''))"

definition claims_of :: "payload \<Rightarrow> exn + JWTClaims" where
  "claims_of p =
     andThen (andThen (json_item (JObj p) ''user_id'') json_UUID) (\<lambda>user_id.
     andThen (andThen (json_item (JObj p) ''active_workspace_id'') json_UUID) (\<lambda>workspace_id.
     andThen (andThen (json_item (JObj p) ''workspace_role'') json_role) (\<lambda>workspace_role.
     andThen (shared_ids p) (\<lambda>shared_file_ids.
     andThen (json_item (JObj p) ''exp'') (\<lambda>exp.
     JWTClaims_post_init \<lparr>jwt_user_id = user_id, jwt_workspace_id = workspace_id, jwt_workspace_role = workspace_role,
       jwt_shared_file_ids = shared_file_ids, jwt_exp = exp\<rparr>)))))"

definition extract_claims :: "payload \<Rightarrow> exn + JWTClaims" where
  "extract_claims p =
     (case claims_of p of
        Inr c \<Rightarrow> Inr c
      | Inl e \<Rightarrow> if is_KeyError e \<or> is_ValueError e \<or> is_TypeError e
                then Inl (InvalidTokenError (''Invalid JWT claims structure: '' @ exn_str e)) else Inl e)"

definition jwt_validate :: "'w jwt_lib \<Rightarrow> JWTValidator \<Rightarrow> string \<Rightarrow> ('w, JWTClaims) io" where
  "jwt_validate J v token =
     catch
       (bnd (jwt_decode J token (jv_public_key v) [jv_algorithm v] required_claims) (\<lambda>p. lift (extract_claims p)))
       (\<lambda>e. case e of
          JwtExpiredSignatureError m \<Rightarrow> raise (TokenExpiredError ''JWT token has expired'')
        | JwtInvalidTokenError m \<Rightarrow> raise (InvalidTokenError (''Invalid JWT token: '' @ exn_str e))
        | _ \<Rightarrow> raise e)"

section \<open>Authentication of a request\<close>

definition BEARER_PREFIX :: string where
  "BEARER_PREFIX = ''Bearer ''"

definition MAX_TOKEN_SIZE :: nat where
  "MAX_TOKEN_SIZE = 8192"

definition unauthorized :: "string \<Rightarrow> exn" where
  "unauthorized detail = HTTPException 401 (JStr detail) []"

fun is_TokenExpiredError :: "exn \<Rightarrow> bool" where
  "is_TokenExpiredError (TokenExpiredError _) = True"
| "is_TokenExpiredError _ = False"

text \<open>The last step: the validator, built on first use, and the \<open>except\<close> clauses.\<close>

definition check_token :: "'w jwt_lib \<Rightarrow> AppSettings \<Rightarrow> string \<Rightarrow> ('w, JWTClaims) io" where
  "check_token J s token =
     catch (bnd (lift (mk_JWTValidator J s)) (\<lambda>v. jwt_validate J v token))
       (\<lambda>e. if is_TokenExpiredError e then raise (unauthorized (exn_str e))
            else if is_AuthenticationError e then raise (unauthorized (exn_str e))
            else if is_Exception e then raise (unauthorized ''Authentication failed'')
            else raise e)"

definition get_current_user :: "'w jwt_lib \<Rightarrow> AppSettings \<Rightarrow> string option \<Rightarrow> ('w, JWTClaims) io" where
  "get_current_user J s authorization =
     (case authorization of
        None \<Rightarrow> raise (unauthorized ''Missing Authorization header'')
      | Some a \<Rightarrow>
          bnd (guard (a \<noteq> []) (unauthorized ''Missing Authorization header'')) (\<lambda>_.
          bnd (guard (starts_with BEARER_PREFIX a) (unauthorized ''Missing or invalid Authorization header'')) (\<lambda>_.
          let token = drop (length BEARER_PREFIX) a in
          bnd (guard (length token \<le> MAX_TOKEN_SIZE) (unauthorized ''Token size exceeds maximum allowed'')) (\<lambda>_.
          bnd (guard (strip token \<noteq> []) (unauthorized ''Missing or invalid Authorization header'')) (\<lambda>_.
          check_token J s token)))))"

section \<open>Authorization\<close>

definition require_role :: "WorkspaceRole \<Rightarrow> JWTClaims \<Rightarrow> exn + JWTClaims" where
  "require_role required_role c =
     (if jwt_workspace_role c \<noteq> required_role
      then Inl (HTTPException 403 (JObj
             [(''detail'', JStr (''Insufficient permissions - '' @ role_value required_role @ '' role required'')),
              (''required_role'', JStr (role_value required_role))]) [])
      else Inr c)"

definition require_owner :: "JWTClaims \<Rightarrow> exn + JWTClaims" where
  "require_owner = require_role OWNER"

definition refused_access :: "int \<Rightarrow> string \<Rightarrow> string \<Rightarrow> exn" where
  "refused_access stat detail error = HTTPException stat (JObj [(''detail'', JStr detail), (''error'', JStr error)]) []"

definition validate_workspace_access :: "JWTClaims \<Rightarrow> uuid option \<Rightarrow> exn + unit" where
  "validate_workspace_access c resource_workspace_id =
     (case resource_workspace_id of
        None \<Rightarrow> Inl (refused_access 400 ''Invalid request - resource workspace ID is required'' ''INVALID_RESOURCE'')
      | Some ws \<Rightarrow> check (jwt_workspace_id c = ws)
          (refused_access 403 ''Access denied - resource belongs to different workspace'' ''WORKSPACE_MISMATCH''))"

definition validate_file_access :: "JWTClaims \<Rightarrow> uuid option \<Rightarrow> exn + unit" where
  "validate_file_access c file_id =
     (case file_id of
        None \<Rightarrow> Inl (refused_access 400 ''Invalid request - file ID is required'' ''INVALID_RESOURCE'')
      | Some fid \<Rightarrow> check (has_access_to_file c fid)
          (refused_access 403 ''Access denied - file not accessible to user'' ''FILE_ACCESS_DENIED''))"

section \<open>The middleware\<close>

record Response =
  rs_status :: int
  rs_headers :: "(string \<times> string) list"
  rs_body :: "json option"

definition refusal :: "string \<Rightarrow> Response" where
  "refusal detail = \<lparr>rs_status = 401, rs_headers = [], rs_body = Some (JObj [(''detail'', JStr detail)])\<rparr>"

definition is_protected :: "string \<Rightarrow> bool" where
  "is_protected path = (path \<notin> {''/'', ''/health''} \<and> (path = ''/v1'' \<or> starts_with ''/v1/'' path))"

text \<open>What the body of the \<open>try\<close> decides: the answer, or none and the request goes on.\<close>

definition admit :: "'w jwt_lib \<Rightarrow> AppSettings \<Rightarrow> string \<Rightarrow> ('w, Response option) io" where
  "admit J s a =
     catch
       (bnd (lift (mk_JWTValidator J s)) (\<lambda>v.
        if \<not> starts_with ''Bearer '' a then ret (Some (refusal ''Missing or invalid Authorization header''))
        else bnd (jwt_validate J v (drop (length ''Bearer '') a)) (\<lambda>claims. ret None)))
       (\<lambda>e. if is_Exception e then ret (Some (refusal ''Authentication failed'')) else raise e)"

definition jwt_validation_middleware :: "'w jwt_lib \<Rightarrow> AppSettings \<Rightarrow> string \<Rightarrow> string option \<Rightarrow> ('w, Response) io
    \<Rightarrow> ('w, Response) io" where
  "jwt_validation_middleware J s path authorization call_next =
     (if \<not> is_protected path then call_next
      else if authorization \<in> {None, Some []} then ret (refusal ''Missing Authorization header'')
      else bnd (admit J s (the authorization)) (\<lambda>answer. case answer of Some r \<Rightarrow> ret r | None \<Rightarrow> call_next))"

section \<open>What the claims satisfy\<close>

definition claims_ok :: "JWTClaims \<Rightarrow> bool" where
  "claims_ok c = (case jwt_shared_file_ids c of
     None \<Rightarrow> jwt_workspace_role c = OWNER
   | Some ids \<Rightarrow> jwt_workspace_role c = COLLABORATOR \<and> length ids \<le> 1000)"

text \<open>The claims are those of the payload.\<close>

definition states :: "payload \<Rightarrow> JWTClaims \<Rightarrow> bool" where
  "states p c = (\<exists>u ws. map_of p ''user_id'' = Some (JStr u) \<and> uuid_of_str u = Some (jwt_user_id c)
     \<and> map_of p ''active_workspace_id'' = Some (JStr ws) \<and> uuid_of_str ws = Some (jwt_workspace_id c)
     \<and> map_of p ''workspace_role'' = Some (JStr (role_value (jwt_workspace_role c)))
     \<and> shared_ids p = Inr (jwt_shared_file_ids c))"

lemma mapR_length: "mapR f xs = Inr ys \<Longrightarrow> length ys = length xs"
  by (induction xs arbitrary: ys) (auto simp: andThen_eq_Inr)

lemma shared_ids_length: "shared_ids p = Inr (Some ids) \<Longrightarrow> length ids \<le> 1000"
  by (auto simp: shared_ids_def dest: mapR_length split: option.splits json.splits)

lemma json_UUID_Inr: "json_UUID j = Inr u \<longleftrightarrow> (\<exists>s. j = JStr s \<and> uuid_of_str s = Some u)"
  by (auto simp: json_UUID_def to_UUID_def opt_raise_def split: json.splits option.splits)

lemma json_role_Inr: "json_role j = Inr r \<longleftrightarrow> j = JStr (role_value r)"
  by (cases r) (auto simp: json_role_def to_WorkspaceRole_def enum_WorkspaceRole_def opt_raise_def split: json.splits option.splits if_splits)

lemma json_item_obj: "json_item (JObj p) k = Inr j \<longleftrightarrow> map_of p k = Some j"
  by (auto simp: json_item_def split: option.splits)

lemma claims_of_Inr:
  assumes "claims_of p = Inr c"
  shows "claims_ok c" and "states p c"
proof -
  note facts = assms [unfolded claims_of_def andThen_eq_Inr JWTClaims_post_init_iff json_item_obj json_UUID_Inr json_role_Inr]
  show "states p c" using facts by (auto simp: states_def)
  show "claims_ok c"
    using facts shared_ids_length
    by (auto simp: claims_ok_def split: option.splits) (metis WorkspaceRole.exhaust)+
qed

lemma extract_claims_Inr: "extract_claims p = Inr c \<longleftrightarrow> claims_of p = Inr c"
  by (auto simp: extract_claims_def split: sum.splits if_splits)

lemma extract_claims_ok: "extract_claims p = Inr c \<Longrightarrow> claims_ok c \<and> states p c"
  using claims_of_Inr by (simp add: extract_claims_Inr)

section \<open>Every request is authenticated or answered 401\<close>

definition is_unauthorized :: "exn \<Rightarrow> bool" where
  "is_unauthorized e = (\<exists>d. e = unauthorized d)"

lemma is_unauthorized_simp [simp]: "is_unauthorized (unauthorized d)"
  by (auto simp: is_unauthorized_def)

lemma jwt_validate_wp:
  assumes "wp (jwt_decode J token (jv_public_key v) [jv_algorithm v] required_claims) Q (\<lambda>_. E) w"
  shows "wp (jwt_validate J v token) (\<lambda>c w'. \<exists>p. Q p w' \<and> extract_claims p = Inr c)
     (\<lambda>_ w'. E w' \<or> (\<exists>p. Q p w')) w"
  unfolding jwt_validate_def wp_catch wp_bnd
  by (rule wp_use [OF assms]) (auto simp: wp_lift wp_raise split: sum.splits exn.splits)

lemma check_token_wp:
  assumes "\<And>v. mk_JWTValidator J s = Inr v \<Longrightarrow>
    wp (jwt_decode J token (jv_public_key v) [jv_algorithm v] required_claims) (Q v) (\<lambda>_. E) w"
    and "E w" and "\<And>v p w'. Q v p w' \<Longrightarrow> E w'"
  shows "wp (check_token J s token)
     (\<lambda>c w'. \<exists>v p. mk_JWTValidator J s = Inr v \<and> Q v p w' \<and> extract_claims p = Inr c)
     (\<lambda>e w'. E w' \<and> (is_unauthorized e \<or> \<not> is_Exception e)) w"
proof (cases "mk_JWTValidator J s")
  case (Inl e)
  then show ?thesis
    using assms(2) by (simp add: check_token_def wp_catch wp_bnd wp_lift wp_if wp_raise)
next
  case (Inr v)
  show ?thesis
    unfolding check_token_def Inr bnd_lift_Inr wp_catch
    by (rule wp_use [OF jwt_validate_wp [OF assms(1) [OF Inr]]])
      (use Inr assms(3) in \<open>auto simp: wp_if wp_raise is_unauthorized_def\<close>)
qed

text \<open>The claims come from a decoded payload of the bearer token.\<close>

definition bearer_token :: "string option \<Rightarrow> string \<Rightarrow> bool" where
  "bearer_token authorization token = (authorization = Some (BEARER_PREFIX @ token)
     \<and> length token \<le> MAX_TOKEN_SIZE \<and> strip token \<noteq> [])"

lemma bearer_tokenI:
  assumes "starts_with BEARER_PREFIX a" and "length (drop (length BEARER_PREFIX) a) \<le> MAX_TOKEN_SIZE"
    and "strip (drop (length BEARER_PREFIX) a) \<noteq> []"
  shows "bearer_token (Some a) (drop (length BEARER_PREFIX) a)"
  using assms append_take_drop_id [of "length BEARER_PREFIX" a] by (simp add: bearer_token_def starts_with_def)

lemma get_current_user_wp:
  assumes "\<And>token v. bearer_token authorization token \<Longrightarrow> mk_JWTValidator J s = Inr v \<Longrightarrow>
    wp (jwt_decode J token (jv_public_key v) [jv_algorithm v] required_claims) (Q token v) (\<lambda>_. E) w"
    and "E w" and "\<And>token v p w'. Q token v p w' \<Longrightarrow> E w'"
  shows "wp (get_current_user J s authorization)
     (\<lambda>c w'. \<exists>token v p. bearer_token authorization token \<and> mk_JWTValidator J s = Inr v \<and> Q token v p w'
        \<and> extract_claims p = Inr c)
     (\<lambda>e w'. E w' \<and> (is_unauthorized e \<or> \<not> is_Exception e)) w"
proof -
  have refuse: "wp (raise (unauthorized d)) X (\<lambda>e w'. E w' \<and> (is_unauthorized e \<or> \<not> is_Exception e)) w"
    for d and X :: "JWTClaims \<Rightarrow> _"
    using assms(2) by (simp add: wp_raise)
  show ?thesis
  proof (cases authorization)
    case None
    then show ?thesis using refuse by (simp add: get_current_user_def)
  next
    case (Some a)
    let ?token = "drop (length BEARER_PREFIX) a"
    show ?thesis
    proof (cases "starts_with BEARER_PREFIX a \<and> length ?token \<le> MAX_TOKEN_SIZE \<and> strip ?token \<noteq> []")
      case True
      then have b: "bearer_token authorization ?token" and "a \<noteq> []"
        using bearer_tokenI unfolding Some by (auto simp: BEARER_PREFIX_def starts_with_def)
      then have "get_current_user J s authorization = check_token J s ?token"
        using True by (simp add: get_current_user_def Some Let_def del: length_drop)
      then show ?thesis
        by (simp only:) (rule wp_use [OF check_token_wp [OF assms(1) [OF b] assms(2,3)]]; use b in blast)
    next
      case False
      then show ?thesis
        using assms(2)
        by (auto simp: get_current_user_def Some Let_def wp_bnd wp_guard wp_raise is_unauthorized_def simp del: length_drop)
    qed
  qed
qed

lemma get_current_user_answers:
  "wp (get_current_user J s authorization) (\<lambda>c _. claims_ok c)
     (\<lambda>e _. is_unauthorized e \<or> \<not> is_Exception e) w"
  by (rule wp_use [OF get_current_user_wp [where Q = "\<lambda>_ _ _ _. True" and E = "\<lambda>_. True"]])
    (auto simp: wp_def dest: extract_claims_ok split: prod.splits sum.splits)

text \<open>Behind the middleware nothing runs unless a token was accepted.\<close>

lemma middleware_cases:
  assumes "is_protected path"
  shows "(\<exists>r w'. (r = Inl CancelledError \<or> (\<exists>d. r = Inr (refusal d)))
       \<and> (\<forall>next. jwt_validation_middleware J s path authorization next w = (r, w')))
     \<or> (\<exists>v token c w'. authorization = Some (''Bearer '' @ token) \<and> mk_JWTValidator J s = Inr v
          \<and> jwt_validate J v token w = (Inr c, w')
          \<and> (\<forall>next. jwt_validation_middleware J s path authorization next w = next w'))"
proof (cases "authorization \<in> {None, Some []}")
  case True
  then show ?thesis using assms by (auto simp: jwt_validation_middleware_def ret_def)
next
  case False
  then obtain a where a: "authorization = Some a" by auto
  have m: "jwt_validation_middleware J s path authorization next
      = bnd (admit J s a) (\<lambda>answer. case answer of Some r \<Rightarrow> ret r | None \<Rightarrow> next)" for "next"
    using assms False by (simp add: jwt_validation_middleware_def a)
  obtain r w1 where r: "admit J s a w = (r, w1)" by fastforce
  have "r = Inl CancelledError \<or> (\<exists>d. r = Inr (Some (refusal d)))
    \<or> r = Inr None \<and> (\<exists>v c. mk_JWTValidator J s = Inr v \<and> starts_with ''Bearer '' a
          \<and> jwt_validate J v (drop (length ''Bearer '') a) w = (Inr c, w1))"
    using r by (auto simp: admit_def catch_def bnd_def lift_def ret_def raise_def split: sum.splits prod.splits if_splits
        elim!: is_Exception.elims)
  then consider (stop) "r = Inl CancelledError \<or> (\<exists>d. r = Inr (Some (refusal d)))"
    | (go) v c where "r = Inr None" "mk_JWTValidator J s = Inr v" "starts_with ''Bearer '' a"
        "jwt_validate J v (drop (length ''Bearer '') a) w = (Inr c, w1)" by blast
  then show ?thesis
  proof cases
    case stop
    then show ?thesis unfolding m using r by (auto simp: bnd_def ret_def)
  next
    case go
    have "a = ''Bearer '' @ drop (length ''Bearer '') a"
      using go(3) append_take_drop_id [of "length ''Bearer ''" a] unfolding starts_with_def by metis
    then show ?thesis unfolding m using go r a by (auto simp: bnd_def)
  qed
qed

section \<open>Access\<close>

lemma require_role_iff: "require_role r c = Inr c' \<longleftrightarrow> c' = c \<and> jwt_workspace_role c = r"
  by (auto simp: require_role_def)

lemma validate_access_iff:
  "validate_workspace_access c ws = Inr () \<longleftrightarrow> ws = Some (jwt_workspace_id c)"
  "validate_file_access c fid = Inr () \<longleftrightarrow> (\<exists>f. fid = Some f \<and> has_access_to_file c f)"
  by (auto simp: validate_workspace_access_def validate_file_access_def split: option.splits)

text \<open>The exceptions are answers with status 400 or 403.\<close>

definition answers :: "int set \<Rightarrow> exn \<Rightarrow> bool" where
  "answers codes e = (\<exists>c d h. e = HTTPException c d h \<and> c \<in> codes)"

lemma access_refused:
  "require_role r c = Inl e \<Longrightarrow> answers {403} e"
  "validate_workspace_access c ws = Inl e \<Longrightarrow> answers {400, 403} e"
  "validate_file_access c fid = Inl e \<Longrightarrow> answers {400, 403} e"
  by (auto simp: require_role_def validate_workspace_access_def validate_file_access_def refused_access_def
      answers_def check_def split: option.splits if_splits)

section \<open>Genuine tokens\<close>

text \<open>\<open>genuine token key algorithms p\<close>: the token carries the payload \<open>p\<close>, signed for the key, not expired.\<close>

locale token_verifier =
  fixes J :: "'w jwt_lib"
    and genuine :: "string \<Rightarrow> string \<Rightarrow> string list \<Rightarrow> payload \<Rightarrow> bool"
    and view :: "'w \<Rightarrow> store"
    and rest :: "'w \<Rightarrow> 'o"
  assumes decodes: "performs view rest (\<lambda>st p st'. passes st st' \<and> genuine token key algorithms p)
      (\<lambda>st e st'. passes st st') (jwt_decode J token key algorithms require)"
    and calm: "passes (view w) (view w)"

definition authentic :: "(string \<Rightarrow> string \<Rightarrow> string list \<Rightarrow> payload \<Rightarrow> bool) \<Rightarrow> 'w jwt_lib \<Rightarrow> AppSettings
    \<Rightarrow> string option \<Rightarrow> JWTClaims \<Rightarrow> bool" where
  "authentic genuine J s authorization c = (\<exists>token v p. bearer_token authorization token \<and> mk_JWTValidator J s = Inr v
     \<and> genuine token (jv_public_key v) [jv_algorithm v] p \<and> states p c \<and> claims_ok c)"

context token_verifier
begin

lemma user_wp:
  "wp (get_current_user J s authorization)
     (\<lambda>c w'. rest w' = rest w \<and> passes (view w) (view w') \<and> authentic genuine J s authorization c)
     (\<lambda>e w'. rest w' = rest w \<and> passes (view w) (view w') \<and> (is_unauthorized e \<or> \<not> is_Exception e)) w"
proof (rule wp_use [OF get_current_user_wp [where E = "\<lambda>w'. rest w' = rest w \<and> passes (view w) (view w')"
      and Q = "\<lambda>token v p w'. rest w' = rest w \<and> passes (view w) (view w')
        \<and> genuine token (jv_public_key v) [jv_algorithm v] p"]], goal_cases)
  case (1 token v)
  show ?case by (rule wp_use [OF performsD [OF decodes]]) auto
next
  case 2
  show ?case using calm by simp
next
  case (4 c w')
  then show ?case unfolding authentic_def using extract_claims_ok by metis
qed auto

text \<open>The middleware admits a request or answers for itself; either way the stored data is as before.\<close>

lemma admit_wp:
  "wp (admit J s a)
     (\<lambda>r w'. rest w' = rest w \<and> passes (view w) (view w') \<and> (r = None \<or> (\<exists>d. r = Some (refusal d))))
     (\<lambda>e w'. rest w' = rest w \<and> passes (view w) (view w') \<and> \<not> is_Exception e) w"
proof (cases "mk_JWTValidator J s")
  case (Inl e)
  then show ?thesis using calm by (auto simp: admit_def wp_if wp_ret wp_raise simp del: ret_run raise_run)
next
  case (Inr v)
  have "wp (jwt_decode J t (jv_public_key v) [jv_algorithm v] required_claims)
      (\<lambda>_ w'. rest w' = rest w \<and> passes (view w) (view w')) (\<lambda>_ w'. rest w' = rest w \<and> passes (view w) (view w')) w" for t
    by (rule wp_use [OF performsD [OF decodes]]) auto
  note validate = jwt_validate_wp [OF this]
  show ?thesis
    unfolding admit_def Inr bnd_lift_Inr wp_catch wp_if wp_ret wp_bnd
    using calm by (auto simp: wp_raise intro!: wp_use [OF validate])
qed

end

text \<open>A library in memory: a token is the key, a dot and the payload as JSON.\<close>

definition mem_genuine :: "string \<Rightarrow> string \<Rightarrow> string list \<Rightarrow> payload \<Rightarrow> bool" where
  "mem_genuine token key algorithms p = (starts_with (key @ ''.'') token
     \<and> json_loads (drop (length (key @ ''.'')) token) = Some (JObj p))"

definition mem_jwt :: "'z mem_world_scheme jwt_lib" where
  "mem_jwt = \<lparr>jwt_load_public_key = Inr,
     jwt_decode = (\<lambda>token key algorithms require. lift
       (if \<not> starts_with (key @ ''.'') token then Inl (JwtInvalidTokenError ''Signature verification failed'')
        else case json_loads (drop (length (key @ ''.'')) token) of
          Some (JObj p) \<Rightarrow> if set require \<subseteq> set (map fst p) then Inr p
            else Inl (JwtInvalidTokenError ''Token is missing a claim'')
        | _ \<Rightarrow> Inl (JwtInvalidTokenError ''Invalid payload string'')))\<rparr>"

interpretation mem_tokens: token_verifier mem_jwt mem_genuine "redis_view mw_now mem_live" mem_world.more
  by unfold_locales
    (auto simp: performs_def mem_jwt_def wp_lift mem_genuine_def mem_view_refl split: sum.splits option.splits json.splits)

end
