(* ===== verification/Py_Base64.thy ===== *)
theory Py_Base64
  imports Exceptions
begin

text \<open>
  \<open>base64.b64decode\<close> of a text, without validation: characters outside the alphabet are skipped, and
  a pad sequence that completes a group of four ends the input (\<open>binascii.a2b_base64\<close>). The state
  of the scan is the position in the group, the number of pads and the bits carried over. Errors
  are \<open>binascii.Error\<close>, a \<open>ValueError\<close>. \<open>b64_encode\<close> is the reference encoder; \<open>b64_decode_encode\<close> the
  round trip.
\<close>

definition b64_alphabet :: string where
  "b64_alphabet = ''ABCDEFGHIJKLMNOPQRSTUVWXYZabcdefghijklmnopqrstuvwxyz0123456789+/''"

fun index_from :: "nat \<Rightarrow> 'a \<Rightarrow> 'a list \<Rightarrow> nat option" where
  "index_from n x [] = None"
| "index_from n x (y # ys) = (if x = y then Some n else index_from (Suc n) x ys)"

definition b64_value :: "char \<Rightarrow> nat option" where
  "b64_value c = index_from 0 c b64_alphabet"

definition and_byte :: "nat \<Rightarrow> exn + bytes \<Rightarrow> exn + bytes" where
  "and_byte b r = andThen r (\<lambda>bs. Inr (b # bs))"

fun b64_scan :: "nat \<Rightarrow> nat \<Rightarrow> nat \<Rightarrow> string \<Rightarrow> exn + bytes" where
  "b64_scan q pads left [] = (if q = 0 then Inr [] else Inl (ValueError ''Incorrect padding''))"
| "b64_scan q pads left (c # cs) =
     (if c = CHR ''='' then
        (if 2 \<le> q \<and> 4 \<le> q + Suc pads then Inr []
         else b64_scan q (if 2 \<le> q then Suc pads else pads) left cs)
      else case b64_value c of
        None \<Rightarrow> b64_scan q pads left cs
      | Some v \<Rightarrow>
          if q = 0 then b64_scan 1 0 v cs
          else if q = 1 then and_byte (left * 4 + v div 16) (b64_scan 2 0 (v mod 16) cs)
          else if q = 2 then and_byte (left * 16 + v div 4) (b64_scan 3 0 (v mod 4) cs)
          else and_byte (left * 64 + v) (b64_scan 0 0 0 cs))"

definition b64decode :: "string \<Rightarrow> exn + bytes" where
  "b64decode s =
     (if list_all (\<lambda>c. code c < 128) s then b64_scan 0 0 0 s
      else Inl (ValueError ''string argument should contain only ASCII characters''))"

section \<open>Round trip\<close>

definition b64_char :: "nat \<Rightarrow> char" where
  "b64_char v = b64_alphabet ! v"

fun b64_encode :: "bytes \<Rightarrow> string" where
  "b64_encode [] = []"
| "b64_encode [a] = [b64_char (a div 4), b64_char (a mod 4 * 16), CHR ''='', CHR ''='']"
| "b64_encode [a, b] = [b64_char (a div 4), b64_char (a mod 4 * 16 + b div 16), b64_char (b mod 16 * 4), CHR ''='']"
| "b64_encode (a # b # c # bs) =
     b64_char (a div 4) # b64_char (a mod 4 * 16 + b div 16) # b64_char (b mod 16 * 4 + c div 64) # b64_char (c mod 64)
     # b64_encode bs"

lemma b64_chars: "list_all (\<lambda>v. b64_value (b64_char v) = Some v \<and> b64_char v \<noteq> CHR ''='' \<and> code (b64_char v) < 128) [0..<64]"
  by code_simp

lemma b64_char_simps [simp]:
  assumes "v < 64"
  shows "b64_value (b64_char v) = Some v" and "b64_char v \<noteq> CHR ''=''" and "code (b64_char v) < 128"
  using b64_chars assms by (auto simp: list_all_iff simp del: upt_Suc)

lemma b64_scan_char [simp]:
  assumes "v < 64"
  shows "b64_scan 0 p l (b64_char v # cs) = b64_scan 1 0 v cs"
    and "b64_scan (Suc 0) p l (b64_char v # cs) = and_byte (l * 4 + v div 16) (b64_scan 2 0 (v mod 16) cs)"
    and "b64_scan 2 p l (b64_char v # cs) = and_byte (l * 16 + v div 4) (b64_scan 3 0 (v mod 4) cs)"
    and "b64_scan 3 p l (b64_char v # cs) = and_byte (l * 64 + v) (b64_scan 0 0 0 cs)"
  using assms by simp_all

lemma and_byte_Inr [simp]: "and_byte b (Inr bs) = Inr (b # bs)"
  by (simp add: and_byte_def)

lemma b64_scan_encode: "is_bytes bs \<Longrightarrow> b64_scan 0 0 0 (b64_encode bs) = Inr bs"
proof (induction bs rule: b64_encode.induct)
  case (2 a)
  then have "a div 4 < 64" "a mod 4 * 16 < 64" "a mod 4 * 16 div 16 = a mod 4" by (auto simp: is_bytes_def)
  then show ?case by (simp del: b64_scan.simps(2)) simp
next
  case (3 a b)
  then have "a div 4 < 64" "a mod 4 * 16 + b div 16 < 64" "b mod 16 * 4 < 64"
    "(a mod 4 * 16 + b div 16) div 16 = a mod 4" "(a mod 4 * 16 + b div 16) mod 16 = b div 16"
    by (auto simp: is_bytes_def)
  then show ?case by (simp del: b64_scan.simps(2)) simp
next
  case (4 a b c bs)
  then have "a div 4 < 64" "a mod 4 * 16 + b div 16 < 64" "b mod 16 * 4 + c div 64 < 64" "c mod 64 < 64"
    "(a mod 4 * 16 + b div 16) div 16 = a mod 4" "(a mod 4 * 16 + b div 16) mod 16 = b div 16"
    "(b mod 16 * 4 + c div 64) div 4 = b mod 16" "(b mod 16 * 4 + c div 64) mod 4 = c div 64"
    by (auto simp: is_bytes_def)
  moreover have "b64_scan 0 0 0 (b64_encode bs) = Inr bs" using 4 by (simp add: is_bytes_def)
  ultimately show ?case by (simp del: b64_scan.simps(2))
qed simp

lemma b64_encode_ascii: "is_bytes bs \<Longrightarrow> list_all (\<lambda>c. code c < 128) (b64_encode bs)"
  by (induction bs rule: b64_encode.induct) (auto simp: is_bytes_def code_def b64_char_simps(3) [unfolded code_def])

lemma b64_decode_encode: "is_bytes bs \<Longrightarrow> b64decode (b64_encode bs) = Inr bs"
  by (simp add: b64decode_def b64_encode_ascii b64_scan_encode)

end
