(* ===== verification/Uploads_Router.thy ===== *)
theory Uploads_Router
  imports Auth Py_Base64
begin

text \<open>
  \<open>src/presentation/api/v1/routers/uploads.py\<close> and its schemas: the handlers of POST, PATCH, HEAD and
  DELETE under \<open>/v1/uploads\<close>, as functions of the claims FastAPI has authenticated and of the parsed
  parameters. A handler returns a \<open>Response\<close> or raises; an \<open>HTTPException\<close> is the answer with that status,
  anything else leaves the handler. Reading the request body is a parameter. \<open>get_\<dots>\<close> are the
  providers, \<open>post_uploads\<close> and its like the routes with their dependencies: authentication, the
  OWNER role, then the handler. The hours since the expiry are floats in the code, cut down to
  an integer; here they are exact.
\<close>

section \<open>Schemas\<close>

record schema_InitiateUploadRequest =
  sq_filename :: string
  sq_size :: int
  sq_mime_type :: string
  sq_sha256_checksum :: string

text \<open>The pattern of pydantic does not accept a trailing newline.\<close>

definition validate_schema :: "schema_InitiateUploadRequest \<Rightarrow> exn + schema_InitiateUploadRequest" where
  "validate_schema r =
     (if 1 \<le> length (sq_filename r) \<and> length (sq_filename r) \<le> 255 \<and> 0 < sq_size r \<and> sq_size r \<le> 1073741824
        \<and> sq_mime_type r = ''application/pdf''
        \<and> length (sq_sha256_checksum r) = 64 \<and> list_all is_hex_lower (sq_sha256_checksum r)
      then Inr r else Inl (ValueError ''Field''))"

record schema_InitiateUploadResponse =
  sr_upload_id :: uuid
  sr_offset :: int
  sr_expires_at :: datetime

definition schema_response :: "InitiateUploadResponse \<Rightarrow> exn + schema_InitiateUploadResponse" where
  "schema_response d =
     andThen (check (0 \<le> ires_offset d) (ValueError ''offset'')) (\<lambda>_.
     Inr \<lparr>sr_upload_id = ires_session_id d, sr_offset = ires_offset d, sr_expires_at = ires_expires_at d\<rparr>)"

definition serialize_datetime :: "datetime \<Rightarrow> string" where
  "serialize_datetime dt = replace_str ''+00:00'' ''Z'' (isoformat dt)"

definition schema_json :: "schema_InitiateUploadResponse \<Rightarrow> json" where
  "schema_json r = JObj [(''uploadId'', JStr (uuid_str (sr_upload_id r))), (''offset'', JInt (sr_offset r)),
     (''expiresAt'', JStr (serialize_datetime (sr_expires_at r)))]"

section \<open>Answers\<close>

definition api_error :: "string \<Rightarrow> string \<Rightarrow> (string \<times> json) list \<Rightarrow> json" where
  "api_error error message details =
     JObj [(''error'', JStr error), (''message'', JStr message), (''details'', JObj details)]"

definition retry_guidance :: "(string \<times> json) list" where
  "retry_guidance = [(''retry_guidance'', JStr ''Retry after a few seconds'')]"

definition unexpected :: exn where
  "unexpected = HTTPException 500 (api_error ''INTERNAL_SERVER_ERROR''
     ''An unexpected error occurred. Please retry or contact support.'' []) []"

text \<open>\<open>int(max(0, (datetime.now(UTC) - expired_at).total_seconds() / 3600))\<close>; a naive \<open>expired_at\<close> cannot be subtracted.\<close>

definition hours_since :: "datetime \<Rightarrow> datetime \<Rightarrow> exn + int" where
  "hours_since now expired_at =
     (if is_aware expired_at then Inr (max 0 (instant now - instant expired_at) div int usec_hour)
      else Inl (TypeError ''can't subtract offset-naive and offset-aware datetimes''))"

definition expired_error :: "uuid \<Rightarrow> ExpiryMetadata \<Rightarrow> string \<Rightarrow> int \<Rightarrow> exn" where
  "expired_error upload_id m remark hours = HTTPException 404 (api_error ''SESSION_EXPIRED''
     (''Upload session expired '' @ str_int hours @ '' hours ago'' @ remark)
     [(''session_id'', JStr (uuid_str upload_id)), (''expired_at'', JStr (em_expires_at m)),
      (''expired_hours_ago'', JInt hours),
      (''suggestion'', JStr ''Session expired. Start a new upload via POST /v1/uploads'')]) []"

text \<open>The answer when the session is gone: expired, if its metadata says so, or not found.\<close>

definition gone :: "'w environment \<Rightarrow> uuid \<Rightarrow> string \<Rightarrow> ExpiryMetadata option \<Rightarrow> exn \<Rightarrow> ('w, 'a) io" where
  "gone Env upload_id remark meta not_found_answer =
     (case meta of
        None \<Rightarrow> raise not_found_answer
      | Some m \<Rightarrow>
          catch
            (bnd (lift (to_datetime (em_expires_at m))) (\<lambda>expired_at.
             bnd (now_utc Env) (\<lambda>now.
             bnd (lift (hours_since now expired_at)) (\<lambda>hours.
             raise (expired_error upload_id m remark hours)))))
            (\<lambda>e. if is_KeyError e \<or> is_ValueError e then raise not_found_answer else raise e))"

definition not_found_error :: "uuid \<Rightarrow> string \<Rightarrow> string \<Rightarrow> exn" where
  "not_found_error upload_id message suggestion = HTTPException 404 (api_error ''SESSION_NOT_FOUND'' message
     [(''session_id'', JStr (uuid_str upload_id)), (''suggestion'', JStr suggestion)]) []"

section \<open>POST /v1/uploads\<close>

definition initiate_error :: "exn \<Rightarrow> exn" where
  "initiate_error e = (case e of
     RateLimitExceededError ws n lim r \<Rightarrow>
       HTTPException 429 (api_error ''RATE_LIMIT_EXCEEDED'' (exn_str e)
         [(''current_uploads'', JInt n), (''limit'', JInt lim), (''retry_after_seconds'', JInt r)])
         [(''Retry-After'', str_int r)]
   | FileSizeLimitExceededError n mx \<Rightarrow>
       HTTPException 413 (api_error ''FILE_SIZE_LIMIT_EXCEEDED'' (exn_str e)
         [(''file_size'', JInt n), (''max_size'', JInt mx)]) []
   | UnsupportedMediaTypeError m allowed \<Rightarrow>
       HTTPException 415 (api_error ''UNSUPPORTED_MEDIA_TYPE'' (exn_str e)
         [(''provided_mime_type'', JStr m), (''allowed_mime_types'', JArr (map JStr allowed))]) []
   | _ \<Rightarrow>
       if is_InfrastructureError e then HTTPException 503 (api_error ''INFRASTRUCTURE_ERROR''
         ''Storage system temporarily unavailable. Please retry.'' retry_guidance) []
       else if is_ValueError e then HTTPException 422 (api_error ''VALIDATION_ERROR'' (exn_str e) []) []
       else if is_Exception e then unexpected else e)"

definition dto_request :: "JWTClaims \<Rightarrow> schema_InitiateUploadRequest \<Rightarrow> InitiateUploadRequest" where
  "dto_request c r = \<lparr>iur_workspace_id = jwt_workspace_id c, iur_filename = sq_filename r, iur_size = sq_size r,
     iur_mime_type = sq_mime_type r, iur_sha256_checksum = sq_sha256_checksum r\<rparr>"

definition initiate_upload_handler :: "'w IRateLimiter \<Rightarrow> 'w ISessionStore \<Rightarrow> 'w environment \<Rightarrow> JWTClaims
    \<Rightarrow> schema_InitiateUploadRequest \<Rightarrow> ('w, Response) io" where
  "initiate_upload_handler L S Env c r =
     catch
       (bnd (initiate_upload L S Env (dto_request c r)) (\<lambda>d.
        bnd (lift (schema_response d)) (\<lambda>response.
        ret \<lparr>rs_status = 201, rs_headers = [], rs_body = Some (schema_json response)\<rparr>)))
       (\<lambda>e. raise (initiate_error e))"

section \<open>PATCH /v1/uploads/{upload_id}\<close>

record chunk_request =
  cq_upload_id :: uuid
  cq_upload_offset :: int
  cq_upload_length :: int
  cq_upload_checksum :: string
  cq_content_type :: string
  cq_content_length :: "string option"

definition MAX_CHUNK_SIZE :: int where
  "MAX_CHUNK_SIZE = 100 * 1024 * 1024"

text \<open>\<open>s.split(" ", 1)\<close>, when it has two parts.\<close>

definition split_space :: "string \<Rightarrow> (string \<times> string) option" where
  "split_space s = (let a = takeWhile (\<lambda>c. c \<noteq> CHR '' '') s in
     if length a < length s then Some (a, drop (Suc (length a)) s) else None)"

definition is_hex_digit :: "char \<Rightarrow> bool" where
  "is_hex_digit c = (c \<in> set ''0123456789abcdefABCDEF'')"

definition quoted :: "string \<Rightarrow> string" where
  "quoted s = [CHR 0x27] @ s @ [CHR 0x27]"

definition parse_checksum :: "string \<Rightarrow> exn + string" where
  "parse_checksum s =
     (case split_space s of
        Some (scheme, v) \<Rightarrow>
          if scheme \<noteq> ''sha256'' then Inl (ValueError (''Invalid checksum format - must start with '' @ quoted ''sha256 ''))
          else if length v = 64 \<and> list_all is_hex_digit v then Inr (lower_str v)
          else (case andThen (b64decode v) (\<lambda>bs. andThen
                  (check (length bs = 32) (ValueError ''Decoded checksum must be 32 bytes (SHA-256)'')) (\<lambda>_.
                  Inr (hex_of_bytes bs))) of
                  Inr h \<Rightarrow> Inr h
                | Inl e \<Rightarrow> if is_ValueError e
                    then Inl (ValueError (''Invalid checksum format - must be 64-char hex or base64: '' @ exn_str e))
                    else Inl e)
      | None \<Rightarrow> Inl (ValueError (''Invalid checksum format - must start with '' @ quoted ''sha256 '')))"

definition checksum_header :: "string \<Rightarrow> exn + string" where
  "checksum_header header =
     (let s = strip header in
      case parse_checksum s of
        Inr h \<Rightarrow> Inr h
      | Inl e \<Rightarrow> if is_ValueError e
          then Inl (HTTPException 422 (api_error ''INVALID_CHECKSUM_FORMAT''
                 (''Upload-Checksum header must be in format '' @ quoted ''sha256 {base64|hex}'')
                 [(''provided_checksum'', JStr s), (''required_format'', JStr ''sha256 {base64_or_hex_encoded_hash}'')]) [])
          else Inl e)"

definition check_content_length :: "string option \<Rightarrow> exn + unit" where
  "check_content_length header =
     (case header of
        Some t \<Rightarrow> if t = [] then Inr () else
          (case to_int t of
             Inr n \<Rightarrow> check (n \<le> MAX_CHUNK_SIZE) (HTTPException 413 (api_error ''REQUEST_BODY_TOO_LARGE''
               (''Request body exceeds maximum chunk size of '' @ str_int MAX_CHUNK_SIZE @ '' bytes'')
               [(''content_length'', JInt n), (''max_chunk_size'', JInt MAX_CHUNK_SIZE)]) [])
           | Inl _ \<Rightarrow> Inr ())
      | None \<Rightarrow> Inr ())"

definition read_body :: "('w, bytes) io \<Rightarrow> ('w, bytes) io" where
  "read_body body = catch body
     (\<lambda>e. if is_Exception e
          then raise (HTTPException 500 (api_error ''READ_BODY_FAILED'' ''Failed to read request body'' []) [])
          else raise e)"

definition chunk_error :: "bytes \<Rightarrow> exn \<Rightarrow> exn" where
  "chunk_error chunk_data e = (case e of
     OffsetMismatchError expected received sid \<Rightarrow>
       HTTPException 409 (api_error ''OFFSET_MISMATCH'' (exn_str e)
         [(''expected_offset'', JInt expected), (''received_offset'', JInt received),
          (''suggestion'', JStr ''Query HEAD /v1/uploads/{id} to get current offset before retrying'')]) []
   | ChecksumMismatchError expected computed index n \<Rightarrow>
       HTTPException 460 (api_error ''CHECKSUM_MISMATCH'' (exn_str e)
         [(''expected_checksum'', JStr expected), (''computed_checksum'', JStr computed),
          (''chunk_index'', case index of None \<Rightarrow> JNull | Some i \<Rightarrow> JInt i),
          (''chunk_size'', JInt (int (length chunk_data))),
          (''suggestion'', JStr ''Retry uploading this chunk only (do not restart full upload)'')]) []
   | _ \<Rightarrow>
       if is_InfrastructureError e
         then HTTPException 503 (api_error ''INFRASTRUCTURE_ERROR'' (exn_str e) retry_guidance) []
       else if is_ValueError e then HTTPException 422 (api_error ''VALIDATION_ERROR'' (exn_str e) []) []
       else if is_Exception e then unexpected else e)"

definition chunk_dto :: "JWTClaims \<Rightarrow> chunk_request \<Rightarrow> bytes \<Rightarrow> string \<Rightarrow> ProcessChunkRequest" where
  "chunk_dto c q chunk_data chunk_checksum = \<lparr>pcr_workspace_id = jwt_workspace_id c, pcr_session_id = cq_upload_id q,
     pcr_chunk_data = chunk_data, pcr_chunk_offset = cq_upload_offset q, pcr_chunk_checksum = chunk_checksum\<rparr>"

text \<open>The second \<open>try\<close>, with its \<open>except\<close> clauses.\<close>

definition run_chunk :: "'w ISessionStore \<Rightarrow> 'w redis_client \<Rightarrow> 'w environment \<Rightarrow> ProcessChunkRequest \<Rightarrow> ('w, Response) io" where
  "run_chunk S R Env req =
     catch
       (bnd (process_chunk S R req) (\<lambda>d.
        ret \<lparr>rs_status = 204, rs_headers = [(''Upload-Offset'', str_int (pcres_new_offset d))], rs_body = None\<rparr>))
       (\<lambda>e. if is_SessionNotFoundError e
            then bnd (get_session_with_expiry_info S (pcr_workspace_id req) (pcr_session_id req)) (\<lambda>(_, meta).
                 gone Env (pcr_session_id req) [] meta
                   (not_found_error (pcr_session_id req) (exn_str e) ''Start a new upload session via POST /v1/uploads''))
            else raise (chunk_error (pcr_chunk_data req) e))"

definition check_headers :: "chunk_request \<Rightarrow> exn + string" where
  "check_headers q =
     andThen (check (0 < cq_upload_length q)
       (HTTPException 422 (api_error ''INVALID_UPLOAD_LENGTH'' ''Upload-Length must be greater than 0''
         [(''provided_upload_length'', JInt (cq_upload_length q))]) [])) (\<lambda>_.
     andThen (check (cq_content_type q = ''application/offset+octet-stream'')
       (HTTPException 415 (api_error ''UNSUPPORTED_CONTENT_TYPE'' ''Content-Type must be application/offset+octet-stream''
         [(''provided_content_type'', JStr (cq_content_type q)),
          (''required_content_type'', JStr ''application/offset+octet-stream'')]) [])) (\<lambda>_.
     andThen (checksum_header (cq_upload_checksum q)) (\<lambda>chunk_checksum.
     andThen (check_content_length (cq_content_length q)) (\<lambda>_.
     Inr chunk_checksum))))"

definition upload_chunk_handler :: "'w ISessionStore \<Rightarrow> 'w redis_client \<Rightarrow> 'w environment \<Rightarrow> ('w, bytes) io \<Rightarrow> JWTClaims
    \<Rightarrow> chunk_request \<Rightarrow> ('w, Response) io" where
  "upload_chunk_handler S R Env body c q =
     bnd (lift (check_headers q)) (\<lambda>chunk_checksum.
     bnd (read_body body) (\<lambda>chunk_data.
     bnd (lift (ProcessChunkRequest_post_init (chunk_dto c q chunk_data chunk_checksum))) (\<lambda>req.
     run_chunk S R Env req)))"

section \<open>HEAD /v1/uploads/{upload_id}\<close>

text \<open>\<open>type(e).__name__\<close>; the name of a class outside the program is not known.\<close>

fun type_name :: "exn \<Rightarrow> string" where
  "type_name (ValueError m) = ''ValueError''"
| "type_name (TypeError m) = ''TypeError''"
| "type_name (KeyError m) = ''KeyError''"
| "type_name (AttributeError m) = ''AttributeError''"
| "type_name UnicodeDecodeError = ''UnicodeDecodeError''"
| "type_name JSONDecodeError = ''JSONDecodeError''"
| "type_name OverflowError = ''OverflowError''"
| "type_name e = ''Exception''"

definition query_error :: "exn \<Rightarrow> exn" where
  "query_error e =
     (if e = AsyncTimeoutError
      then HTTPException 503 (api_error ''INFRASTRUCTURE_ERROR''
             ''Storage system response timeout. Please retry.'' retry_guidance) []
      else if is_InfrastructureError e
        then HTTPException 503 (api_error ''INFRASTRUCTURE_ERROR'' (exn_str e) retry_guidance) []
      else if is_Exception e
        then HTTPException 500 (api_error ''INTERNAL_ERROR'' ''An unexpected error occurred''
               [(''error_type'', JStr (type_name e))]) []
      else e)"

definition terminated_error :: "uuid \<Rightarrow> UploadSession \<Rightarrow> exn" where
  "terminated_error upload_id s = HTTPException 410 (api_error ''SESSION_TERMINATED''
     (''Upload session '' @ uuid_str upload_id @ '' is '' @ status_value (status s) @ '' and cannot be resumed'')
     [(''session_id'', JStr (uuid_str upload_id)), (''status'', JStr (status_value (status s))),
      (''suggestion'', JStr ''Start a new upload session via POST /v1/uploads'')]) []"

definition corruption_error :: "uuid \<Rightarrow> exn" where
  "corruption_error upload_id = HTTPException 500 (api_error ''DATA_CORRUPTION'' ''Invalid session state detected''
     [(''session_id'', JStr (uuid_str upload_id)), (''suggestion'', JStr ''Contact support'')]) []"

definition offset_response :: "UploadSession \<Rightarrow> Response" where
  "offset_response s = \<lparr>rs_status = 200, rs_headers = [(''Upload-Offset'', str_int (offset s)),
     (''Upload-Length'', str_int (file_size s)), (''Cache-Control'', ''no-store, no-cache, must-revalidate'')],
     rs_body = None\<rparr>"

text \<open>From the pair the store returned to the answer.\<close>

definition answer_query :: "'w environment \<Rightarrow> uuid \<Rightarrow> UploadSession option \<times> ExpiryMetadata option \<Rightarrow> ('w, Response) io" where
  "answer_query Env upload_id found = (case found of (session, meta) \<Rightarrow>
     case session of
       None \<Rightarrow> gone Env upload_id [] meta
         (not_found_error upload_id (''Upload session '' @ uuid_str upload_id @ '' not found'')
            ''Start a new upload session via POST /v1/uploads'')
     | Some s \<Rightarrow>
         bnd (guard (status s \<notin> {COMPLETE, ABORTED, FAILED}) (terminated_error upload_id s)) (\<lambda>_.
         bnd (guard (\<not> (offset s < 0 \<or> offset s > file_size s)) (corruption_error upload_id)) (\<lambda>_.
         ret (offset_response s))))"

definition query_upload_offset_handler :: "'w ISessionStore \<Rightarrow> ('w, bool option) io \<Rightarrow> 'w environment \<Rightarrow> JWTClaims
    \<Rightarrow> uuid \<Rightarrow> ('w, Response) io" where
  "query_upload_offset_handler S timer Env c upload_id =
     bnd (catch (wait_for timer (get_session_with_expiry_info S (jwt_workspace_id c) upload_id))
            (\<lambda>e. raise (query_error e)))
       (answer_query Env upload_id)"

section \<open>DELETE /v1/uploads/{upload_id}\<close>

definition abort_error :: "JWTClaims \<Rightarrow> uuid \<Rightarrow> exn \<Rightarrow> exn" where
  "abort_error c upload_id e = (case e of
     WorkspaceMismatchError r t exp act \<Rightarrow>
       HTTPException 403 (api_error ''WORKSPACE_MISMATCH'' ''Upload session belongs to a different workspace''
         [(''session_id'', JStr (uuid_str upload_id)),
          (''your_workspace_id'', JStr (uuid_str (jwt_workspace_id c)))]) []
   | _ \<Rightarrow>
       if is_InfrastructureError e then HTTPException 503 (api_error ''INFRASTRUCTURE_ERROR''
         ''Storage system temporarily unavailable. Please retry.'' retry_guidance) []
       else if is_Exception e then unexpected else e)"

definition abort_upload_handler :: "'w ISessionStore \<Rightarrow> 'w IRateLimiter \<Rightarrow> 'w environment \<Rightarrow> JWTClaims \<Rightarrow> uuid
    \<Rightarrow> ('w, Response) io" where
  "abort_upload_handler S L Env c upload_id =
     catch
       (bnd (abort_upload S L (jwt_workspace_id c) upload_id) (\<lambda>_.
        ret \<lparr>rs_status = 204, rs_headers = [], rs_body = None\<rparr>))
       (\<lambda>e. if is_SessionNotFoundError e
            then bnd (get_session_with_expiry_info S (jwt_workspace_id c) upload_id) (\<lambda>(_, meta).
                 gone Env upload_id '' and was automatically cleaned up'' meta
                   (not_found_error upload_id (''Upload session '' @ uuid_str upload_id @ '' not found'')
                      ''Session does not exist''))
            else raise (abort_error c upload_id e))"

section \<open>Providers and routes\<close>

definition get_session_store :: "'w redis_client \<Rightarrow> 'w ISessionStore" where
  "get_session_store R = RedisSessionStore R"

definition get_rate_limiter :: "'w redis_client \<Rightarrow> AppSettings \<Rightarrow> exn + 'w IRateLimiter" where
  "get_rate_limiter R s = mk_RedisRateLimiter R (max_concurrent_uploads s)"

definition as_owner :: "'w jwt_lib \<Rightarrow> AppSettings \<Rightarrow> string option \<Rightarrow> (JWTClaims \<Rightarrow> ('w, Response) io) \<Rightarrow> ('w, Response) io" where
  "as_owner J s authorization handler =
     bnd (get_current_user J s authorization) (\<lambda>c. bnd (lift (require_role OWNER c)) handler)"

datatype http_request =
    PostUploads schema_InitiateUploadRequest
  | PatchUpload chunk_request
  | HeadUpload uuid
  | DeleteUpload uuid

text \<open>A request with its Authorization header and body, on the application's settings.\<close>

definition route :: "'w jwt_lib \<Rightarrow> AppSettings \<Rightarrow> 'w redis_client \<Rightarrow> ('w, bool option) io \<Rightarrow> 'w environment \<Rightarrow> ('w, bytes) io
    \<Rightarrow> string option \<Rightarrow> http_request \<Rightarrow> ('w, Response) io" where
  "route J s R timer Env body authorization rq =
     (case rq of
        PostUploads r \<Rightarrow> as_owner J s authorization (\<lambda>c.
          bnd (lift (get_rate_limiter R s)) (\<lambda>L.
          bnd (lift (validate_schema r)) (\<lambda>r.
          initiate_upload_handler L (get_session_store R) Env c r)))
      | PatchUpload q \<Rightarrow> as_owner J s authorization (\<lambda>c. upload_chunk_handler (get_session_store R) R Env body c q)
      | HeadUpload upload_id \<Rightarrow> bnd (get_current_user J s authorization) (\<lambda>c.
          query_upload_offset_handler (get_session_store R) timer Env c upload_id)
      | DeleteUpload upload_id \<Rightarrow> as_owner J s authorization (\<lambda>c.
          bnd (lift (get_rate_limiter R s)) (\<lambda>L.
          abort_upload_handler (get_session_store R) L Env c upload_id)))"

section \<open>The application\<close>

text \<open>\<open>src/presentation/main.py\<close>: the middleware in front of the routes, and the two public endpoints.\<close>

fun request_path :: "http_request \<Rightarrow> string" where
  "request_path (PostUploads r) = ''/v1/uploads''"
| "request_path (PatchUpload q) = ''/v1/uploads/'' @ uuid_str (cq_upload_id q)"
| "request_path (HeadUpload upload_id) = ''/v1/uploads/'' @ uuid_str upload_id"
| "request_path (DeleteUpload upload_id) = ''/v1/uploads/'' @ uuid_str upload_id"

definition application :: "'w jwt_lib \<Rightarrow> AppSettings \<Rightarrow> 'w redis_client \<Rightarrow> ('w, bool option) io \<Rightarrow> 'w environment
    \<Rightarrow> ('w, bytes) io \<Rightarrow> string option \<Rightarrow> http_request \<Rightarrow> ('w, Response) io" where
  "application J s R timer Env body authorization rq =
     jwt_validation_middleware J s (request_path rq) authorization (route J s R timer Env body authorization rq)"

definition app_root :: json where
  "app_root = JObj [(''service'', JStr ''rag-file-uploader''), (''status'', JStr ''healthy''), (''version'', JStr ''0.1.0'')]"

definition app_health :: json where
  "app_health = JObj [(''status'', JStr ''healthy'')]"

text \<open>No endpoint of the router is public.\<close>

lemma request_path_protected: "is_protected (request_path rq)"
  by (cases rq) (auto simp: is_protected_def starts_with_def)

end
