(* ===== verification/Router_Answers.thy ===== *)
theory Router_Answers
  imports Uploads_Router
begin

text \<open>
  The router without the world: what the headers of a chunk mean, and which answer every exception
  becomes. \<open>checksum_header_hex\<close> and \<open>checksum_header_base64\<close>: both notations of a digest are read back;
  \<open>checksum_header_valid\<close>: whatever is accepted is 64 lowercase hexadecimal digits.
  \<open>initiate_error_answer\<close> and its like give the status of every exception of a handler.
\<close>

section \<open>The Upload-Checksum header\<close>

lemma hex_lower_facts:
  "list_all (\<lambda>c. is_hex_digit c \<and> lower_char c = c \<and> \<not> is_space c) ''0123456789abcdef''"
  "list_all (\<lambda>c. is_hex_lower (lower_char c)) ''0123456789abcdefABCDEF''"
  by (simp_all add: is_hex_digit_def is_hex_lower_def lower_char_def is_space_def code_def char_of_def bit_iff_odd)

lemma hex_lowerD:
  "list_all is_hex_lower h \<Longrightarrow> c \<in> set h \<Longrightarrow> is_hex_digit c \<and> lower_char c = c \<and> \<not> is_space c"
  using hex_lower_facts(1) unfolding list_all_iff is_hex_lower_def by metis

lemma lower_hex [simp]: "list_all is_hex_lower h \<Longrightarrow> lower_str h = h"
  using hex_lowerD by (simp add: lower_str_def map_idI)

lemma hex_is_hex_digit: "list_all is_hex_lower h \<Longrightarrow> list_all is_hex_digit h"
  using hex_lowerD by (simp add: list_all_iff)

lemma lower_hex_digit: "is_hex_digit c \<Longrightarrow> is_hex_lower (lower_char c)"
  using hex_lower_facts(2) unfolding list_all_iff is_hex_digit_def by metis

lemma lower_hex_digits: "list_all is_hex_digit v \<Longrightarrow> list_all is_hex_lower (lower_str v)"
  by (simp add: lower_str_def list_all_iff lower_hex_digit)

lemma split_space_sha256: "split_space (''sha256 '' @ v) = Some (''sha256'', v)"
proof -
  have "takeWhile (\<lambda>c. c \<noteq> CHR '' '') (''sha256 '' @ v) = ''sha256''" by simp
  then show ?thesis unfolding split_space_def Let_def by simp
qed

lemma strip_header:
  assumes "v \<noteq> []" and "\<And>c. c \<in> set v \<Longrightarrow> \<not> is_space c"
  shows "strip (''sha256 '' @ v) = ''sha256 '' @ v"
  using assms by (intro strip_no_space) (simp_all add: is_space_def code_def)

lemma length_hex_of_bytes [simp]: "length (hex_of_bytes bs) = 2 * length bs"
  by (induction bs) (simp_all add: hex_of_bytes_def byte_hex_def)

lemma length_b64_encode: "length (b64_encode bs) = 4 * ((length bs + 2) div 3)"
proof (induction bs rule: b64_encode.induct)
  case (4 a b c bs)
  have "(length (a # b # c # bs) + 2) div 3 = Suc ((length bs + 2) div 3)"
    using div_add_self2 [of 3 "length bs + 2"] by (simp add: add.commute)
  with 4 show ?case by simp
qed simp_all

lemma b64_not_space: "v < 64 \<Longrightarrow> \<not> is_space (b64_char v)"
proof -
  have "list_all (\<lambda>c. \<not> is_space c) b64_alphabet" "length b64_alphabet = 64"
    by (simp_all add: b64_alphabet_def is_space_def code_def)
  then show "v < 64 \<Longrightarrow> \<not> is_space (b64_char v)"
    unfolding b64_char_def by (metis list_all_length)
qed

lemma b64_encode_not_space: "is_bytes bs \<Longrightarrow> c \<in> set (b64_encode bs) \<Longrightarrow> \<not> is_space c"
  using b64_not_space
  by (induction bs rule: b64_encode.induct)
    (auto simp: is_bytes_def b64_not_space, simp_all add: is_space_def code_def)

lemma checksum_header_hex:
  assumes "length h = 64" and "list_all is_hex_lower h"
  shows "checksum_header (''sha256 '' @ h) = Inr h"
proof -
  have "strip (''sha256 '' @ h) = ''sha256 '' @ h"
    using assms hex_lowerD by (intro strip_header) auto
  moreover have "parse_checksum (''sha256 '' @ h) = Inr h"
    using assms hex_is_hex_digit by (simp add: parse_checksum_def split_space_sha256 del: append.simps)
  ultimately show ?thesis by (simp add: checksum_header_def Let_def del: append.simps)
qed

lemma checksum_header_base64:
  assumes "length d = 32" and "is_bytes d"
  shows "checksum_header (''sha256 '' @ b64_encode d) = Inr (hex_of_bytes d)"
proof -
  have len: "length (b64_encode d) = 44" using assms(1) by (simp add: length_b64_encode)
  then have "strip (''sha256 '' @ b64_encode d) = ''sha256 '' @ b64_encode d"
    using b64_encode_not_space [OF assms(2)] by (intro strip_header) auto
  moreover have "parse_checksum (''sha256 '' @ b64_encode d) = Inr (hex_of_bytes d)"
    using assms len by (simp add: parse_checksum_def split_space_sha256 b64_decode_encode del: append.simps)
  ultimately show ?thesis by (simp add: checksum_header_def Let_def del: append.simps)
qed

lemma parse_checksum_valid:
  "parse_checksum s = Inr h \<Longrightarrow> length h = 64 \<and> list_all is_hex_lower h"
  by (auto simp: parse_checksum_def lower_str_def [of v for v] intro: lower_hex_digits [unfolded lower_str_def]
      split: option.splits if_splits sum.splits)

lemma checksum_header_valid:
  "checksum_header s = Inr h \<Longrightarrow> length h = 64 \<and> list_all is_hex_lower h"
  using parse_checksum_valid by (auto simp: checksum_header_def Let_def split: sum.splits if_splits)

lemma b64_scan_error: "b64_scan q p l cs = Inl e \<Longrightarrow> is_ValueError e"
  by (induction q p l cs arbitrary: e rule: b64_scan.induct)
    (auto simp: and_byte_def andThen_eq_Inl split: if_splits option.splits)

lemma parse_checksum_error: "parse_checksum s = Inl e \<Longrightarrow> is_ValueError e"
  using b64_scan_error
  by (auto simp: parse_checksum_def b64decode_def andThen_eq_Inl split: option.splits if_splits sum.splits)

section \<open>Answers\<close>

lemma answers_HTTP [simp]: "answers codes (HTTPException c d h) \<longleftrightarrow> c \<in> codes"
  by (simp add: answers_def)

lemma answers_mono: "answers A e \<Longrightarrow> A \<subseteq> B \<Longrightarrow> answers B e"
  by (auto simp: answers_def)

lemma answers_Exception: "answers codes e \<Longrightarrow> is_Exception e"
  by (auto simp: answers_def)

lemma answers_unexpected [simp]: "answers codes unexpected \<longleftrightarrow> 500 \<in> codes"
  by (simp add: unexpected_def)

lemma check_headers_error: "check_headers q = Inl e \<Longrightarrow> answers {413, 415, 422} e"
  using parse_checksum_error
  by (auto simp: check_headers_def checksum_header_def check_content_length_def andThen_eq_Inl Let_def
      split: sum.splits if_splits option.splits)

lemma check_headers_Inr:
  "check_headers q = Inr h \<longleftrightarrow> 0 < cq_upload_length q \<and> cq_content_type q = ''application/offset+octet-stream''
     \<and> checksum_header (cq_upload_checksum q) = Inr h \<and> check_content_length (cq_content_length q) = Inr ()"
  by (auto simp: check_headers_def)

lemma initiate_error_answer:
  assumes "is_Exception e"
  shows "answers {413, 415, 422, 429, 500, 503} (initiate_error e)"
    and "answers {429} (initiate_error e) \<longleftrightarrow> is_RateLimitExceededError e"
    and "is_InfrastructureError e \<Longrightarrow> answers {503} (initiate_error e)"
    and "is_ValueError e \<Longrightarrow> answers {422} (initiate_error e)"
  using assms by (cases e; simp add: initiate_error_def)+

lemma chunk_error_answer:
  assumes "is_Exception e"
  shows "answers {409, 422, 460, 500, 503} (chunk_error b e)"
    and "answers {503} (chunk_error b e) \<longleftrightarrow> is_InfrastructureError e"
    and "answers {409} (chunk_error b e) \<longleftrightarrow> (\<exists>x r sid. e = OffsetMismatchError x r sid)"
    and "answers {460} (chunk_error b e) \<longleftrightarrow> (\<exists>x c i n. e = ChecksumMismatchError x c i n)"
  using assms by (cases e; simp add: chunk_error_def)+

lemma abort_error_answer:
  assumes "is_Exception e"
  shows "answers {403, 500, 503} (abort_error c sid e)"
    and "is_InfrastructureError e \<Longrightarrow> answers {503} (abort_error c sid e)"
  using assms by (cases e; simp add: abort_error_def)+

lemma query_error_answer:
  assumes "is_Exception e"
  shows "answers {500, 503} (query_error e)"
    and "is_InfrastructureError e \<Longrightarrow> answers {503} (query_error e)"
  using assms by (cases e; simp add: query_error_def)+

lemma not_found_error_answer [simp]: "answers codes (not_found_error sid m sg) \<longleftrightarrow> 404 \<in> codes"
  by (simp add: not_found_error_def)

lemma expired_error_answer [simp]: "answers codes (expired_error sid m r h) \<longleftrightarrow> 404 \<in> codes"
  by (simp add: expired_error_def)

lemma query_state_answers [simp]:
  "answers codes (terminated_error sid s) \<longleftrightarrow> 410 \<in> codes"
  "answers codes (corruption_error sid) \<longleftrightarrow> 500 \<in> codes"
  by (simp_all add: terminated_error_def corruption_error_def)

text \<open>The access checks, decided.\<close>

lemma access_decided:
  "require_role r c = Inr c' \<longleftrightarrow> c' = c \<and> jwt_workspace_role c = r"
  "(\<exists>e. require_role r c = Inl e \<and> answers {403} e) \<longleftrightarrow> jwt_workspace_role c \<noteq> r"
  "(\<exists>e. validate_workspace_access c ws = Inl e \<and> answers {400} e) \<longleftrightarrow> ws = None"
  "(\<exists>e. validate_workspace_access c ws = Inl e \<and> answers {403} e) \<longleftrightarrow> (\<exists>x. ws = Some x \<and> x \<noteq> jwt_workspace_id c)"
  "(\<exists>e. validate_file_access c fid = Inl e \<and> answers {400} e) \<longleftrightarrow> fid = None"
  "(\<exists>e. validate_file_access c fid = Inl e \<and> answers {403} e) \<longleftrightarrow> (\<exists>f. fid = Some f \<and> \<not> has_access_to_file c f)"
       apply (rule require_role_iff)
      apply (simp add: require_role_def)
     apply (cases ws; simp add: validate_workspace_access_def refused_access_def check_def)
    apply (cases ws; auto simp add: validate_workspace_access_def refused_access_def check_def)
   apply (cases fid; simp add: validate_file_access_def refused_access_def check_def)
  apply (cases fid; auto simp add: validate_file_access_def refused_access_def check_def)
  done

text \<open>A request that passed the schema is refused by the use case with 422 at most.\<close>

lemma schema_valid:
  assumes "validate_schema r = Inr r'" and "validate_request (dto_request c r') = Inl e"
  shows "is_ValueError e"
  using assms
  by (auto simp: validate_schema_def dto_request_def validate_request_def validate_filename_def validate_checksum_def
      validate_size_def validate_mime_type_def MAX_FILE_SIZE_BYTES_def ALLOWED_MIME_TYPES_def lower_pdf andThen_eq_Inl Let_def
      split: if_splits)

text \<open>The same for the entity's own checks.\<close>

lemma new_session_refusal:
  assumes "new_session req sid created expires = Inl e" and "0 < iur_size req" "iur_size req \<le> MAX_FILE_SIZE_BYTES"
    and "iur_mime_type req = ''application/pdf''"
  shows "is_ValueError e"
  using assms
  by (auto simp: new_session_def UploadSession_post_init_def andThen_eq_Inl ALLOWED_MIME_TYPES_def
      dest: mk_SHA256Hash_error check_filename_error split: if_splits)

end
