(* ===== verification/Isolation.thy ===== *)
theory Isolation
  imports Upload_Service
begin

text \<open>
  What a use case leaves alone. \<open>confined A st st'\<close>: between the two stores time passed, and apart from
  expiry nothing changed for sessions and chunks outside \<open>A\<close>, nor for the counters and fingerprints of
  workspaces outside \<open>A\<close>. A chunk or an abort is confined to its session, an initiation to its
  workspace, whatever fails on the way. Expiry metadata is kept by session id alone and is not part
  of it.
\<close>

section \<open>Confined changes\<close>

definition confined :: "(uuid \<times> uuid) set \<Rightarrow> store \<Rightarrow> store \<Rightarrow> bool" where
  "confined A st st' = (st_now st \<le> st_now st'
     \<and> (\<forall>ws sid. (ws, sid) \<notin> A \<longrightarrow>
          st_sessions st' ws sid = tick_value (st_now st') (st_sessions st ws sid)
          \<and> (\<forall>i. st_chunks st' ws sid i = tick_value (st_now st') (st_chunks st ws sid i)))
     \<and> (\<forall>ws. ws \<notin> fst ` A \<longrightarrow>
          st_counters st' ws = tick_value (st_now st') (st_counters st ws)
          \<and> (\<forall>h. st_files st' ws h = tick_value (st_now st') (st_files st ws h))))"

named_theorems confined_intros "changes confined to a set of sessions"

lemma confined_passes [confined_intros]: "passes st st' \<Longrightarrow> confined A st st'"
  by (simp add: confined_def passesD)

lemma confined_trans: "confined A a b \<Longrightarrow> confined A b c \<Longrightarrow> confined A a c"
  by (auto simp: confined_def)

lemma confined_mono: "confined A st st' \<Longrightarrow> A \<subseteq> B \<Longrightarrow> confined B st st'"
  unfolding confined_def by blast

text \<open>One update of a store whose clock has moved on.\<close>

lemma confined_updates [confined_intros]:
  "passes st st1 \<Longrightarrow> (ws, sid) \<in> A \<Longrightarrow> confined A st (put_chunk ws sid i x st1)"
  "passes st st1 \<Longrightarrow> (ws, sid) \<in> A \<Longrightarrow> confined A st (drop_session ws sid st1)"
  "passes st st1 \<Longrightarrow> (workspace_id s, session_id s) \<in> A \<Longrightarrow> confined A st (put_session s e st1)"
  "passes st st1 \<Longrightarrow> ws \<in> fst ` A \<Longrightarrow> confined A st (put_count ws n st1)"
  by (auto simp: confined_def passesD store_updates)

lemma confined_put_expired [simp]: "confined A st (put_expired sid m st1) = confined A st st1"
  by (simp add: confined_def put_expired_def)

lemma confined_updated:
  "passes st st1 \<Longrightarrow> updated_session s st1 st' \<Longrightarrow> (workspace_id s, session_id s) \<in> A \<Longrightarrow> confined A st st'"
  by (auto simp: updated_session_def intro: confined_intros)

lemma confined_interrupted:
  assumes "passes st st1" and "create_interrupted s st1 st'" and A: "(workspace_id s, session_id s) \<in> A"
  shows "confined A st st'"
proof -
  have "confined A st (st1\<lparr>st_sessions := (st_sessions st1)(workspace_id s :=
      (st_sessions st1 (workspace_id s))(session_id s := a))\<rparr>)" for a
    using assms(1) A by (auto simp: confined_def passesD)
  with assms show ?thesis
    by (auto simp: create_interrupted_def same_but_session_def intro: confined_intros)
qed

text \<open>The postcondition for a return and for an exception.\<close>

abbreviation stays where
  "stays view A w \<equiv> (\<lambda>_ w'. confined A (view w) (view w'))"

lemma wp_guardI:
  "(\<not> p \<Longrightarrow> E e w) \<Longrightarrow> (p \<Longrightarrow> wp (f ()) Q E w) \<Longrightarrow> wp (bnd (guard p e) f) Q E w"
  by (simp add: wp_rules)

lemma wp_liftI:
  "(\<And>e. r = Inl e \<Longrightarrow> E e w) \<Longrightarrow> (\<And>x. r = Inr x \<Longrightarrow> wp (f x) Q E w) \<Longrightarrow> wp (bnd (lift r) f) Q E w"
  by (simp add: wp_rules split: sum.splits)

section \<open>Each use case\<close>

context process_services
begin

lemma chunk_step_confined:
  assumes now: "confined {(pcr_workspace_id req, pcr_session_id req)} st0 (view w1)"
    and inv: "entry_inv (view w1) (pcr_workspace_id req) (pcr_session_id req) s e"
  shows "wp (chunk_step S R req s) (\<lambda>_ w'. confined {(pcr_workspace_id req, pcr_session_id req)} st0 (view w'))
     (\<lambda>_ w'. confined {(pcr_workspace_id req, pcr_session_id req)} st0 (view w')) w1"
proof -
  let ?ws = "pcr_workspace_id req" and ?sid = "pcr_session_id req" and ?data = "pcr_chunk_data req"
  obtain cs where cs: "manifest_of s cs" and s: "storable s" "workspace_id s = ?ws" "session_id s = ?sid"
    using inv by (auto simp: entry_inv_def)
  show ?thesis
    unfolding Let_def chunk_step_def store_chunk_def
  proof (intro wp_guardI wp_liftI now, unfold wp_bnd [of "catch _ _"] wp_catch, goal_cases)
    case c: (1 u)
    show ?case
    proof (rule wp_use [OF performsD [OF set_chunk]], goal_cases)
      case 1
      then show ?case by (simp add: chunk_ttl_seconds_def)
    next
      case (2 _ w2)
      then have now2: "confined {(?ws, ?sid)} st0 (view w2)"
        using confined_trans [OF now] confined_intros(2) by (auto simp: chunk_ttl_seconds_def)
      have "pcr_chunk_checksum req = sha256_hex ?data" "session_ok s" "?data \<noteq> []"
        using c(3,5) s(1) by (cases u; auto simp: verify_chunk_iff storable_def)+
      then have r: "s' = appended s ?data \<and> storable s'"
        if "record_chunk (int (length (chunk_manifest s))) (int (length ?data)) (pcr_chunk_checksum req)
          (offset s + int (length ?data)) s = Inr s'" for s'
        using that record_chunk_result [OF cs _ c(1), of ?data] storable_appended [OF s(1), of ?data]
        by (simp split: if_splits)
      show ?case
      proof (intro wp_liftI now2, goal_cases)
        case (1 s')
        then have s': "s' = appended s ?data" "storable s'" using r by (blast, metis)
        then have A: "(workspace_id s', session_id s') \<in> {(?ws, ?sid)}" using s by simp
        show ?case
          unfolding wp_bnd wp_fun
          by (rule wp_use [OF performsD [OF update [OF s'(2)]]])
            (auto intro: confined_trans [OF now2] confined_intros confined_updated [OF _ _ A])
      qed
    next
      case (3 e w2)
      then show ?case
        by (auto simp: wp_rules intro: confined_trans [OF now confined_passes] confined_trans [OF now confined_updates(1)])
    qed
  qed
qed

lemma process_confined:
  assumes ids: "pcr_workspace_id req \<noteq> 0" "pcr_session_id req \<noteq> 0" and ok: "store_ok (view w)"
  shows "wp (process_chunk S R req) (stays view {(pcr_workspace_id req, pcr_session_id req)} w)
     (stays view {(pcr_workspace_id req, pcr_session_id req)} w) w"
    (is "wp _ ?Q ?E w")
  unfolding process_chunk_def wp_bnd [of "get_session _ _ _"]
proof (rule wp_use [OF performsD [OF get [OF ids]]], goal_cases)
  case w1: (1 found w1)
  let ?ws = "pcr_workspace_id req" and ?sid = "pcr_session_id req"
  have p1: "passes (view w) (view w1)" using w1 by simp
  note now = confined_passes [OF p1]
  show ?case
  proof (cases found)
    case None
    then show ?thesis using now by (simp add: wp_raise)
  next
    case (Some s)
    then obtain e where inv: "entry_inv (view w1) ?ws ?sid s e"
      using session_in_ok [of "view w1" ?ws ?sid s] store_ok_passes [OF ok p1] w1 by (auto simp: store_ok_def)
    then show ?thesis
      unfolding Some option.case by (intro chunk_step_confined now)
  qed
qed (auto intro: confined_intros)

end

context abort_services
begin

lemma abort_confined:
  assumes ids: "ws \<noteq> 0" "sid \<noteq> 0" and ok: "store_ok (view w)"
  shows "wp (abort_upload S L ws sid) (stays view {(ws, sid)} w) (stays view {(ws, sid)} w) w"
  unfolding abort_upload_def wp_bnd [of "get_session _ _ _"]
proof (rule wp_use [OF performsD [OF get [OF ids]]], goal_cases)
  case w1: (1 found w1)
  have p1: "passes (view w) (view w1)" using w1 by simp
  note now = confined_passes [OF p1]
  show ?case
  proof (cases found)
    case None
    then show ?thesis using now by (simp add: wp_raise)
  next
    case (Some s)
    then obtain e where inv: "entry_inv (view w1) ws sid s e"
      using session_in_ok [of "view w1" ws sid s] store_ok_passes [OF ok p1] w1 by (auto simp: store_ok_def)
    let ?s = "s\<lparr>status := ABORTED\<rparr>"
    have s: "storable ?s" "(workspace_id ?s, session_id ?s) \<in> {(ws, sid)}"
      using inv storable_status by (simp_all add: entry_inv_def)
    show ?thesis
      unfolding Some option.case Let_def
    proof (intro wp_guardI now, unfold wp_bnd [of "update_session _ _"], goal_cases)
      case 1
      show ?case
      proof (rule wp_use [OF performsD [OF update [OF s(1)]]], goal_cases)
        case (1 _ w2)
        then have now2: "confined {(ws, sid)} (view w) (view w2)"
          using confined_trans [OF now] confined_updated [OF _ _ s(2)] by auto
        have A: "ws \<in> fst ` {(ws, sid)}" by simp
        show ?case
          unfolding wp_bnd
        proof (rule wp_use [OF performsD [OF delete [OF ids]]], goal_cases)
          case (1 _ w3)
          then have now3: "confined {(ws, sid)} (view w) (view w3)"
            by (auto intro: confined_trans [OF now2 confined_updates(2)])
          show ?case
            unfolding wp_catch
            by (rule wp_use [OF performsD [OF decr [OF ids(1)]]])
              (auto simp: wp_rules intro!: confined_trans [OF now3] confined_updates(4) [OF _ A]
                intro: confined_passes)
        qed (auto intro: confined_trans [OF now2 confined_passes] confined_trans [OF now2 confined_updates(2)])
      qed (auto intro: confined_trans [OF now] confined_intros confined_updated [OF _ _ s(2)])
    qed
  qed
qed (auto intro: confined_intros)

end

context initiate_services
begin

lemma initiate_confined:
  assumes ws: "iur_workspace_id req \<noteq> 0" and calm: "passes (view w) (view w)"
  shows "wp (initiate_upload L S Env req) (stays view ({iur_workspace_id req} \<times> UNIV) w)
     (stays view ({iur_workspace_id req} \<times> UNIV) w) w"
    (is "wp _ (stays view ?A w) _ w")
proof (cases "request_ok req")
  case False
  then obtain e where "validate_request req = Inl e"
    using validate_request_iff [of req] by (cases "validate_request req") auto
  then show ?thesis using confined_passes [OF calm] by (simp add: wp_def initiate_invalid_run)
next
  case True
  have A: "iur_workspace_id req \<in> fst ` ?A" by force
  have ends: "confined ?A (view w) st'" if "confined ?A (view w) st1" "passes st1 st2"
      "st' = st2 \<or> (\<exists>n. st' = put_count (iur_workspace_id req) n st2)" for st1 st2 st'
    using that confined_trans confined_passes confined_updates(4) [OF _ A] by blast
  show ?thesis
    unfolding initiate_valid [OF True] wp_bnd [of "check_and_increment _ _"]
  proof (rule wp_use [OF performsD [OF check [OF ws]]], goal_cases)
    case (1 _ w1)
    then have now1: "confined ?A (view w) (view w1)"
      using confined_updates(4) [OF _ A] by auto
    show ?case
      unfolding wp_catch
    proof (rule wp_use [OF create_part_wp [OF ws]], goal_cases)
      case (1 res w2)
      then show ?case
        by (auto simp: session_made_def intro!: confined_trans [OF now1] confined_updates(3))
    next
      case (2 e w2)
      then have now2: "confined ?A (view w) (view w2)"
        by (auto simp: session_tried_def intro!: confined_trans [OF now1] intro: confined_passes confined_interrupted)
      show ?case
        unfolding wp_if wp_bnd wp_catch wp_fun
        using 2 by (auto simp: wp_rules intro!: wp_use [OF performsD [OF decr [OF ws]]] intro: ends [OF now2])
    qed
  next
    case (2 e w1)
    then show ?case using confined_updates(4) [OF _ A] by (auto intro: confined_passes)
  qed
qed

end

end
