(* ===== verification/Upload_API.thy ===== *)
theory Upload_API
  imports Router_Answers Isolation
begin

text \<open>
  The endpoints on the Redis-backed stores. \<open>upload_api\<close> is the configuration: a server that behaves
  like Redis, a token verifier, the timer of \<open>asyncio.wait_for\<close> and the reading of a request body.
  Each handler has one lemma that says what an answer means for the stored data and what every
  failure leaves behind; \<open>route_wp\<close> puts authentication in front. Identifiers that are NIL
  are refused before any command is sent.
\<close>

section \<open>What the answers mean\<close>

definition keeps :: "('w \<Rightarrow> store) \<Rightarrow> ('w \<Rightarrow> 'o) \<Rightarrow> (uuid \<times> uuid) set \<Rightarrow> 'w \<Rightarrow> 'w \<Rightarrow> bool" where
  "keeps view rest A w w' = (rest w' = rest w \<and> store_ok (view w') \<and> confined A (view w) (view w'))"

lemma keeps_trans: "keeps view rest A w w1 \<Longrightarrow> keeps view rest A w1 w2 \<Longrightarrow> keeps view rest A w w2"
  unfolding keeps_def by (elim conjE, intro conjI) (simp, assumption, rule confined_trans)

definition created :: "JWTClaims \<Rightarrow> schema_InitiateUploadRequest \<Rightarrow> int \<Rightarrow> Response \<Rightarrow> store \<Rightarrow> bool" where
  "created c r n resp st = (\<exists>d. initiated (dto_request c r) d st
     \<and> resp = \<lparr>rs_status = 201, rs_headers = [], rs_body = Some (schema_json
          \<lparr>sr_upload_id = ires_session_id d, sr_offset = 0, sr_expires_at = ires_expires_at d\<rparr>)\<rparr>
     \<and> count_in st (jwt_workspace_id c) = Some (n + 1))"

definition chunk_accepted :: "JWTClaims \<Rightarrow> chunk_request \<Rightarrow> Response \<Rightarrow> store \<Rightarrow> store \<Rightarrow> bool" where
  "chunk_accepted c q resp st st' = (\<exists>data h d. check_headers q = Inr h
     \<and> process_spec (chunk_dto c q data h) st d st'
     \<and> resp = \<lparr>rs_status = 204, rs_headers = [(''Upload-Offset'', str_int (pcres_new_offset d))], rs_body = None\<rparr>)"

text \<open>What leaves a handler other than as an answer: the naive expiry time that cannot be
  subtracted, and the error of the lookup that an \<open>except\<close> clause makes.\<close>

definition escapes :: "exn \<Rightarrow> bool" where
  "escapes e = (is_TypeError e \<or> is_InfrastructureError e)"

definition gone_in :: "uuid \<Rightarrow> uuid \<Rightarrow> store \<Rightarrow> store \<Rightarrow> bool" where
  "gone_in ws sid st st' = (sessions_aged st st' \<and> session_in st' ws sid = None)"

definition chunk_rejected :: "ProcessChunkRequest \<Rightarrow> store \<Rightarrow> exn \<Rightarrow> store \<Rightarrow> bool" where
  "chunk_rejected req st e st' =
     ((answers {404, 409, 422, 460, 500, 503} e \<or> escapes e)
      \<and> (sessions_aged st st' \<or> answers {503} e)
      \<and> (answers {404} e \<longrightarrow> gone_in (pcr_workspace_id req) (pcr_session_id req) st st')
      \<and> (answers {409} e \<longrightarrow> (\<exists>s. session_in st (pcr_workspace_id req) (pcr_session_id req) = Some s
            \<and> pcr_chunk_offset req \<noteq> offset s))
      \<and> (answers {460} e \<longrightarrow> pcr_chunk_checksum req \<noteq> sha256_hex (pcr_chunk_data req)))"

text \<open>The same for the request as it arrived; the last case is the object that is built outside the \<open>try\<close>.\<close>

definition chunk_failed :: "JWTClaims \<Rightarrow> chunk_request \<Rightarrow> store \<Rightarrow> exn \<Rightarrow> store \<Rightarrow> bool" where
  "chunk_failed c q st e st' =
     ((\<exists>data h. check_headers q = Inr h \<and> data \<noteq> [] \<and> chunk_rejected (chunk_dto c q data h) st e st')
      \<or> passes st st' \<and> (check_headers q = Inl e
          \<or> (\<exists>h. check_headers q = Inr h \<and> (answers {500} e \<or> is_ValueError e \<or> \<not> is_Exception e))))"

lemma gone_in_passes: "passes st st1 \<Longrightarrow> gone_in ws sid st1 st' \<Longrightarrow> gone_in ws sid st st'"
  unfolding gone_in_def using sessions_aged_passes by blast

lemma gone_in_later: "gone_in ws sid st st1 \<Longrightarrow> passes st1 st2 \<Longrightarrow> gone_in ws sid st st2"
  by (cases "session_in st2 ws sid") (auto simp: gone_in_def intro: sessions_aged_trans dest: passes_session)

lemma chunk_rejected_passes: "passes st st1 \<Longrightarrow> chunk_rejected req st1 e st' \<Longrightarrow> chunk_rejected req st e st'"
  unfolding chunk_rejected_def using sessions_aged_passes passes_session gone_in_passes by blast

text \<open>The exceptions of the use case, as answers.\<close>

lemma rejection_answer:
  assumes "rejection req s = Some e"
  shows "answers {409, 422, 460, 500} (chunk_error b e)" and "\<not> is_SessionNotFoundError e" and "is_Exception e"
    and "answers {409} (chunk_error b e) \<Longrightarrow> pcr_chunk_offset req \<noteq> offset s"
    and "answers {460} (chunk_error b e) \<Longrightarrow> pcr_chunk_checksum req \<noteq> sha256_hex (pcr_chunk_data req)"
proof -
  obtain m where v: "verify_chunk (pcr_chunk_data req) (pcr_chunk_checksum req) (Some (int (length (chunk_manifest s))))
      = (if pcr_chunk_checksum req = sha256_hex (pcr_chunk_data req) then Inr ()
         else if valid_hash (SHA256Hash (pcr_chunk_checksum req))
           then Inl (ChecksumMismatchError (pcr_chunk_checksum req) (sha256_hex (pcr_chunk_data req))
             (Some (int (length (chunk_manifest s)))) (int (length (pcr_chunk_data req))))
         else Inl (ValueError m))"
  proof -
    have "index_ok (Some (int (length (chunk_manifest s)))) = True" by (simp add: index_ok_def)
    then show thesis
      using that verify_chunk_outcome [of "pcr_chunk_data req" "pcr_chunk_checksum req"
          "Some (int (length (chunk_manifest s)))"] unfolding simp_thms by metis
  qed
  note r = assms [unfolded rejection_def Let_def v]
  have "is_ValueError e \<or> (\<exists>a b c. e = InvalidSessionStateError a b c)
    \<or> pcr_chunk_offset req \<noteq> offset s \<and> (\<exists>a b c. e = OffsetMismatchError a b c)
    \<or> pcr_chunk_checksum req \<noteq> sha256_hex (pcr_chunk_data req) \<and> (\<exists>a b c d. e = ChecksumMismatchError a b c d)"
    using r by (auto simp: new_OffsetMismatchError_def split: if_splits)
  then show "answers {409, 422, 460, 500} (chunk_error b e)" "\<not> is_SessionNotFoundError e" "is_Exception e"
    "answers {409} (chunk_error b e) \<Longrightarrow> pcr_chunk_offset req \<noteq> offset s"
    "answers {460} (chunk_error b e) \<Longrightarrow> pcr_chunk_checksum req \<noteq> sha256_hex (pcr_chunk_data req)"
    by (cases e; auto simp: chunk_error_def)+
qed

text \<open>A query answers with the offset and size of a live session of the caller's workspace.\<close>

definition offset_told :: "JWTClaims \<Rightarrow> uuid \<Rightarrow> Response \<Rightarrow> store \<Rightarrow> store \<Rightarrow> bool" where
  "offset_told c sid resp st st' = (passes st st' \<and> (\<exists>s. session_in st (jwt_workspace_id c) sid = Some s
     \<and> \<not> is_terminal (status s) \<and> resp = offset_response s))"

definition query_failed :: "JWTClaims \<Rightarrow> uuid \<Rightarrow> store \<Rightarrow> exn \<Rightarrow> store \<Rightarrow> bool" where
  "query_failed c sid st e st' = (passes st st' \<and> (answers {404, 410, 503} e \<or> is_TypeError e)
     \<and> (answers {404} e \<longrightarrow> gone_in (jwt_workspace_id c) sid st st')
     \<and> (answers {410} e \<longrightarrow> (\<exists>s. session_in st (jwt_workspace_id c) sid = Some s \<and> is_terminal (status s))))"

definition abort_failed :: "JWTClaims \<Rightarrow> uuid \<Rightarrow> store \<Rightarrow> exn \<Rightarrow> store \<Rightarrow> bool" where
  "abort_failed c sid st e st' = ((answers {404, 503} e \<or> escapes e) \<and> st_counters st' = st_counters st
     \<and> (sessions_aged st st' \<or> answers {503} e)
     \<and> (answers {404} e \<longrightarrow> (\<forall>s. session_in st' (jwt_workspace_id c) sid = Some s \<longrightarrow> is_terminal (status s))))"

text \<open>Statuses exclude each other.\<close>

lemma answers_both: "answers A e \<Longrightarrow> answers B e \<Longrightarrow> A \<inter> B \<noteq> {}"
  by (auto simp: answers_def)

lemma escapes_answers: "escapes e \<Longrightarrow> \<not> answers codes e" "escapes e \<Longrightarrow> is_Exception e"
  by (auto simp: escapes_def answers_def)

lemma not_found_rejected:
  assumes "answers {404} e \<or> escapes e" and "sessions_aged st st'"
    and "gone_in (pcr_workspace_id req) (pcr_session_id req) st st'"
  shows "chunk_rejected req st e st'"
  using assms escapes_answers(1) answers_both [of "{404}" e "{409}"] answers_both [of "{404}" e "{460}"]
    answers_mono [of "{404}" e "{404, 409, 422, 460, 500, 503}"]
  by (auto simp: chunk_rejected_def)

lemma failure_rejected:
  assumes "process_failure req st e st'" and "\<not> is_SessionNotFoundError e"
  shows "chunk_rejected req st (chunk_error (pcr_chunk_data req) e) st'"
proof (cases "is_InfrastructureError e")
  case True
  then have "answers {503} (chunk_error (pcr_chunk_data req) e)" by (simp add: chunk_error_answer(2))
  then show ?thesis
    using answers_both [of "{503}" _ "{404}"] answers_both [of "{503}" _ "{409}"] answers_both [of "{503}" _ "{460}"]
      answers_mono [of "{503}" _ "{404, 409, 422, 460, 500, 503}"]
    by (auto simp: chunk_rejected_def)
next
  case False
  with assms obtain s where s: "session_in st (pcr_workspace_id req) (pcr_session_id req) = Some s" "rejection req s = Some e"
    "sessions_aged st st'" by (auto simp: process_failure_def refused_def)
  note r = rejection_answer [OF s(2)]
  show ?thesis
    using s(1,3) r(4,5) answers_mono [OF r(1) [of "pcr_chunk_data req"], of "{404, 409, 422, 460, 500, 503}"]
      answers_both [OF r(1) [of "pcr_chunk_data req"], of "{404}"]
    by (auto simp: chunk_rejected_def)
qed

lemma process_failure_gone:
  "process_failure req st e st' \<Longrightarrow> is_SessionNotFoundError e \<Longrightarrow>
    gone_in (pcr_workspace_id req) (pcr_session_id req) st st'"
  by (cases e) (auto simp: process_failure_def refused_def gone_in_def dest: rejection_answer(2))

section \<open>The configuration\<close>

locale upload_api = upload_service R now db rest Env limit + token_verifier J genuine "redis_view now db" rest
  for R :: "'w redis_client" and now :: "'w \<Rightarrow> nat" and db :: "'w \<Rightarrow> redis_db" and rest :: "'w \<Rightarrow> 'o"
    and Env :: "'w environment" and limit :: int and J :: "'w jwt_lib"
    and genuine :: "string \<Rightarrow> string \<Rightarrow> string list \<Rightarrow> payload \<Rightarrow> bool" +
  fixes timer :: "('w, bool option) io" and body :: "('w, bytes) io"
  assumes idle_timer: "idle now db rest timer"
    and body: "performs (redis_view now db) rest (\<lambda>st _ st'. passes st st') (\<lambda>st _ st'. passes st st') body"
begin

lemma keeps_passes:
  "store_ok (redis_view now db w) \<Longrightarrow> passes (redis_view now db w) (redis_view now db w') \<Longrightarrow> rest w' = rest w
    \<Longrightarrow> keeps (redis_view now db) rest A w w'"
  by (simp add: keeps_def store_ok_passes confined_passes)

lemma readable:
  "store_ok (redis_view now db w) \<Longrightarrow> passes (redis_view now db w) (redis_view now db w')
    \<Longrightarrow> st_sessions (redis_view now db w') ws sid \<noteq> Some (None, x)"
  using store_ok_passes [of "redis_view now db w" "redis_view now db w'"] by (auto simp: store_ok_def dest: sessions_okD)

subsection \<open>Behind a 404\<close>

lemma gone_wp:
  assumes "answers {404} nf"
  shows "wp (gone Env sid remark meta nf) (\<lambda>_ _. False)
     (\<lambda>e w'. rest w' = rest w \<and> passes (redis_view now db w) (redis_view now db w')
        \<and> (answers {404} e \<or> is_TypeError e)) w"
    (is "wp _ _ ?E w")
proof (cases meta)
  case None
  then show ?thesis using assms calm by (simp add: gone_def wp_raise)
next
  case (Some m)
  have nf: "?E nf w'" if "rest w' = rest w" "passes (redis_view now db w) (redis_view now db w')" for w'
    using that assms by simp
  show ?thesis
  proof (cases "to_datetime (em_expires_at m)")
    case (Inl e)
    then have "is_ValueError e" by (auto simp: to_datetime_def opt_raise_def split: option.splits)
    then show ?thesis using nf calm Inl by (simp add: gone_def Some wp_rules)
  next
    case (Inr d)
    show ?thesis
      unfolding gone_def Some option.case wp_catch Inr bnd_lift_Inr wp_bnd [of "now_utc Env"]
    proof (rule wp_use [OF performsD [OF now_utc]], goal_cases)
      case (1 n w')
      then show ?case
        by (simp add: hours_since_def wp_rules expired_error_def)
    qed simp
  qed
qed

lemma lookup_wp:
  assumes ids: "ws \<noteq> 0" "sid \<noteq> 0" and ok: "store_ok (redis_view now db w)" and nf: "answers {404} nf"
  shows "wp (bnd (get_session_with_expiry_info (RedisSessionStore R) ws sid) (\<lambda>(_, meta). gone Env sid remark meta nf))
     (\<lambda>_ _. False)
     (\<lambda>e w'. keeps (redis_view now db) rest A w w' \<and> passes (redis_view now db w) (redis_view now db w')
        \<and> (answers {404} e \<or> escapes e)) w"
  unfolding wp_bnd
proof (rule wp_use [OF performsD [OF sessions.get_with_expiry [OF ids]]], goal_cases)
  case w1: (1 found w1)
  then have p1: "rest w1 = rest w" "passes (redis_view now db w) (redis_view now db w1)"
    using passes_trans by blast+
  obtain x meta where found: "found = (x, meta)" by fastforce
  show ?case
    unfolding found prod.case
    by (rule wp_use [OF gone_wp [OF nf]])
      (use p1 keeps_passes [OF ok] passes_trans [OF p1(2)] in \<open>auto simp: escapes_def\<close>)
next
  case (2 e w')
  then have "is_InfrastructureError e" using readable [OF ok] by blast
  with 2 show ?case using keeps_passes [OF ok] by (simp add: escapes_def)
qed

subsection \<open>PATCH\<close>

lemma run_chunk_wp:
  assumes ids: "pcr_workspace_id req \<noteq> 0" "pcr_session_id req \<noteq> 0" and ok: "store_ok (redis_view now db w)"
  shows "wp (run_chunk (RedisSessionStore R) R Env req)
     (\<lambda>resp w'. keeps (redis_view now db) rest {(pcr_workspace_id req, pcr_session_id req)} w w'
        \<and> (\<exists>d. process_spec req (redis_view now db w) d (redis_view now db w')
            \<and> resp = \<lparr>rs_status = 204, rs_headers = [(''Upload-Offset'', str_int (pcres_new_offset d))], rs_body = None\<rparr>))
     (\<lambda>e w'. keeps (redis_view now db) rest {(pcr_workspace_id req, pcr_session_id req)} w w'
        \<and> chunk_rejected req (redis_view now db w) e (redis_view now db w')) w"
  unfolding run_chunk_def wp_catch wp_bnd [of "process_chunk _ _ _"]
proof (rule wp_use [OF wp_conj [OF process_service [OF ids ok] process.process_confined [OF ids ok]]], goal_cases)
  case (1 d w')
  then show ?case by (auto simp: wp_ret keeps_def)
next
  case (2 e w1)
  then have k1: "keeps (redis_view now db) rest {(pcr_workspace_id req, pcr_session_id req)} w w1"
    and ok1: "store_ok (redis_view now db w1)" by (simp_all add: keeps_def)
  from 2 have f: "process_failure req (redis_view now db w) e (redis_view now db w1)" by simp
  show ?case
  proof (cases "is_SessionNotFoundError e")
    case True
    note g = process_failure_gone [OF f True]
    show ?thesis
      unfolding if_P [OF True]
      by (rule wp_use [OF lookup_wp [OF ids ok1, where A = "{(pcr_workspace_id req, pcr_session_id req)}"]])
        (use gone_in_later [OF g] k1 keeps_trans not_found_rejected in \<open>auto simp: gone_in_def\<close>)
  next
    case False
    then show ?thesis using failure_rejected [OF f] k1 by (simp add: wp_raise)
  qed
qed

lemma upload_chunk_wp:
  assumes ids: "jwt_workspace_id c \<noteq> 0" "cq_upload_id q \<noteq> 0" and ok: "store_ok (redis_view now db w)"
  shows "wp (upload_chunk_handler (RedisSessionStore R) R Env body c q)
     (\<lambda>resp w'. keeps (redis_view now db) rest {(jwt_workspace_id c, cq_upload_id q)} w w'
        \<and> chunk_accepted c q resp (redis_view now db w) (redis_view now db w'))
     (\<lambda>e w'. keeps (redis_view now db) rest {(jwt_workspace_id c, cq_upload_id q)} w w'
        \<and> chunk_failed c q (redis_view now db w) e (redis_view now db w')) w"
  unfolding upload_chunk_handler_def
proof (rule wp_liftI, goal_cases)
  case (1 e)
  then show ?case using keeps_passes [OF ok calm] calm by (simp add: chunk_failed_def)
next
  case h: (2 h)
  show ?case
    unfolding read_body_def wp_bnd [of "catch _ _"] wp_catch
  proof (rule wp_use [OF performsD [OF body]], goal_cases)
    case w1: (1 data w1)
    then have p1: "rest w1 = rest w" "passes (redis_view now db w) (redis_view now db w1)" by simp_all
    note k1 = keeps_passes [OF ok p1(2,1)]
    show ?case
    proof (rule wp_liftI, goal_cases)
      case (1 e)
      then have "is_ValueError e" by (auto simp: ProcessChunkRequest_post_init_def andThen_eq_Inl)
      then show ?case using k1 p1 h by (auto simp: chunk_failed_def)
    next
      case (2 req)
      then have req: "req = chunk_dto c q data h" "data \<noteq> []"
        by (auto simp: ProcessChunkRequest_post_init_iff chunk_dto_def)
      have r: "pcr_workspace_id req = jwt_workspace_id c" "pcr_session_id req = cq_upload_id q"
        by (simp_all add: req(1) chunk_dto_def)
      have ok1: "store_ok (redis_view now db w1)" by (rule store_ok_passes [OF ok p1(2)])
      show ?case
      proof (rule wp_use [OF run_chunk_wp [of req, unfolded r, OF ids ok1]], goal_cases)
        case (1 resp w')
        then show ?case
          using process_spec_passes [OF p1(2) ok] keeps_trans [OF k1] h req(1) unfolding chunk_accepted_def by blast
      next
        case (2 e w')
        then show ?case
          using chunk_rejected_passes [OF p1(2)] keeps_trans [OF k1] h req unfolding chunk_failed_def by blast
      qed
    qed
  next
    case (2 e w1)
    then show ?case
      using keeps_passes [OF ok] h by (cases "is_Exception e") (auto simp: chunk_failed_def wp_rules)
  qed
qed

subsection \<open>HEAD\<close>

lemma answer_query_wp:
  assumes "case x of Some s \<Rightarrow> storable s | None \<Rightarrow> True"
  shows "wp (answer_query Env sid (x, meta))
     (\<lambda>resp w'. w' = w \<and> (\<exists>s. x = Some s \<and> \<not> is_terminal (status s) \<and> resp = offset_response s))
     (\<lambda>e w'. rest w' = rest w \<and> passes (redis_view now db w) (redis_view now db w')
        \<and> (answers {404, 410} e \<or> is_TypeError e) \<and> (answers {404} e \<longrightarrow> x = None)
        \<and> (answers {410} e \<longrightarrow> (\<exists>s. x = Some s \<and> is_terminal (status s)))) w"
proof (cases x)
  case None
  let ?nf = "not_found_error sid (''Upload session '' @ uuid_str sid @ '' not found'')
      ''Start a new upload session via POST /v1/uploads''"
  have nf: "answers {404} ?nf" by simp
  show ?thesis
    unfolding answer_query_def None prod.case option.case
    by (rule wp_use [OF gone_wp [OF nf]])
      (use answers_both [of "{404}" _ "{410}"] answers_mono [of "{404}" _ "{404, 410}"] in
        \<open>auto simp: answers_def elim: is_TypeError.elims\<close>)
next
  case (Some s)
  then have s: "0 \<le> offset s" "offset s \<le> file_size s" using assms by (simp_all add: storable_def session_ok_def)
  have t: "status s \<notin> {COMPLETE, ABORTED, FAILED} \<longleftrightarrow> \<not> is_terminal (status s)" by (auto simp: is_terminal_iff)
  show ?thesis
    unfolding answer_query_def Some prod.case option.case t
    using s calm by (cases "is_terminal (status s)") (simp_all add: wp_rules)
qed

text \<open>The lookup of a session and of its expiry metadata, with a time limit.\<close>

abbreviation (input) info_found :: "uuid \<Rightarrow> uuid \<Rightarrow> 'w \<Rightarrow> UploadSession option \<times> ExpiryMetadata option \<Rightarrow> 'w \<Rightarrow> bool" where
  "info_found ws sid w r w' \<equiv> rest w' = rest w
     \<and> (\<exists>st1. passes (redis_view now db w) st1 \<and> passes st1 (redis_view now db w') \<and>
          (case session_in st1 ws sid of
             Some s \<Rightarrow> r = (Some s, None)
           | None \<Rightarrow> r = (None, expired_in (redis_view now db w') ws sid)))"

abbreviation (input) info_failed :: "uuid \<Rightarrow> uuid \<Rightarrow> 'w \<Rightarrow> exn \<Rightarrow> 'w \<Rightarrow> bool" where
  "info_failed ws sid w e w' \<equiv> rest w' = rest w \<and> passes (redis_view now db w) (redis_view now db w')
     \<and> (is_InfrastructureError e \<or> e = AsyncTimeoutError \<or> (\<exists>x. st_sessions (redis_view now db w') ws sid = Some (None, x)))"

lemma timed_info_wp:
  assumes ids: "ws \<noteq> 0" "sid \<noteq> 0"
  shows "wp (wait_for timer (get_session_with_expiry_info (RedisSessionStore R) ws sid)) (info_found ws sid w) (info_failed ws sid w) w"
proof (rule wait_for_wp [OF idle_timer], goal_cases)
  case (1 w)
  show ?case by (rule wp_use [OF performsD [OF sessions.get_with_expiry [OF ids]]]) auto
next
  case (2 w w1 x w')
  then obtain st1 where "passes (redis_view now db w1) st1" "passes st1 (redis_view now db w')"
    "case session_in st1 ws sid of Some s \<Rightarrow> x = (Some s, None) | None \<Rightarrow> x = (None, expired_in (redis_view now db w') ws sid)"
    by blast
  with 2 passes_trans [OF 2(2)] show ?case by metis
next
  case (3 w w1 e w')
  then show ?case using passes_trans [OF 3(2)] by metis
next
  case (4 x w')
  then show ?case using passes_trans by blast
qed simp

lemma query_wp:
  assumes ids: "jwt_workspace_id c \<noteq> 0" "sid \<noteq> 0" and ok: "store_ok (redis_view now db w)"
  shows "wp (query_upload_offset_handler (RedisSessionStore R) timer Env c sid)
     (\<lambda>resp w'. rest w' = rest w \<and> offset_told c sid resp (redis_view now db w) (redis_view now db w'))
     (\<lambda>e w'. rest w' = rest w \<and> query_failed c sid (redis_view now db w) e (redis_view now db w')) w"
proof -
  let ?v = "redis_view now db" and ?ws = "jwt_workspace_id c"
  show ?thesis
    unfolding query_upload_offset_handler_def wp_bnd wp_catch wp_fun(2)
  proof (rule wp_use [OF timed_info_wp [OF ids]], goal_cases)
    case w1: (1 found w1)
    then obtain st1 where st1: "rest w1 = rest w" "passes (?v w) st1" "passes st1 (?v w1)"
      "fst found = session_in st1 ?ws sid" by (auto split: option.splits)
    obtain x meta where found: "found = (x, meta)" by fastforce
    with st1 have x: "x = session_in st1 ?ws sid" by simp
    have st: "case x of Some s \<Rightarrow> storable s | None \<Rightarrow> True"
      using session_in_ok [of st1 ?ws sid] store_ok_passes [OF ok st1(2)]
      by (auto simp: x store_ok_def entry_inv_def split: option.splits)
    have p: "passes (?v w) (?v w1)" using passes_trans st1(2,3) by blast
    show ?case
      unfolding found
    proof (rule wp_use [OF answer_query_wp [OF st]], goal_cases)
      case (1 resp w')
      then show ?case using st1 x p passes_session [OF st1(2)] by (auto simp: offset_told_def)
    next
      case (2 e w')
      then have "passes (?v w) (?v w')" using p passes_trans by blast
      moreover have "gone_in ?ws sid (?v w) (?v w')" if "answers {404} e"
      proof -
        have "gone_in ?ws sid (?v w) st1" using that 2 st1(2) x by (simp add: gone_in_def sessions_aged_refl)
        moreover have "passes st1 (?v w')" using st1(3) 2 passes_trans by blast
        ultimately show ?thesis by (rule gone_in_later)
      qed
      moreover have "\<exists>s. session_in (?v w) ?ws sid = Some s \<and> is_terminal (status s)" if "answers {410} e"
        using that 2 x passes_session [OF st1(2)] by auto
      moreover have "answers {404, 410} e \<Longrightarrow> answers {404, 410, 503} e" by (rule answers_mono) auto
      ultimately show ?case using 2 st1(1) unfolding query_failed_def by simp blast
    qed
  next
    case (2 e w')
    then have "is_InfrastructureError e \<or> e = AsyncTimeoutError" using readable [OF ok] by blast
    then have a: "answers {503} (query_error e)"
    proof
      assume "e = AsyncTimeoutError"
      then show ?thesis by (simp add: query_error_def)
    qed (simp add: query_error_answer(2))
    then have "answers {404, 410, 503} (query_error e)" "\<not> answers {404} (query_error e)" "\<not> answers {410} (query_error e)"
      using answers_mono [OF a] answers_both [OF a, of "{404}"] answers_both [OF a, of "{410}"] by auto
    with 2 show ?case unfolding query_failed_def by blast
  qed
qed

subsection \<open>DELETE\<close>

lemma abort_handler_wp:
  assumes ids: "jwt_workspace_id c \<noteq> 0" "sid \<noteq> 0" and ok: "store_ok (redis_view now db w)"
  shows "wp (abort_upload_handler (RedisSessionStore R) (RedisRateLimiter R limit) Env c sid)
     (\<lambda>resp w'. keeps (redis_view now db) rest {(jwt_workspace_id c, sid)} w w'
        \<and> resp = \<lparr>rs_status = 204, rs_headers = [], rs_body = None\<rparr>
        \<and> aborted (jwt_workspace_id c) sid (redis_view now db w) (redis_view now db w'))
     (\<lambda>e w'. keeps (redis_view now db) rest {(jwt_workspace_id c, sid)} w w'
        \<and> abort_failed c sid (redis_view now db w) e (redis_view now db w')) w"
proof -
  let ?v = "redis_view now db" and ?ws = "jwt_workspace_id c"
  obtain n where n: "count_in (?v w) ?ws = Some n" using ok count_ok by (auto simp: store_ok_def)
  show ?thesis
    unfolding abort_upload_handler_def wp_catch wp_bnd [of "abort_upload _ _ _ _"]
  proof (rule wp_use [OF wp_conj [OF abort_service [OF ids ok n] abort.abort_confined [OF ids ok]]], goal_cases)
    case (1 u w')
    then show ?case by (simp add: wp_ret keeps_def)
  next
    case (2 e w1)
    then have k1: "keeps ?v rest {(?ws, sid)} w w1" and ok1: "store_ok (?v w1)" by (simp_all add: keeps_def)
    from 2 have f: "abort_failure ?ws sid (?v w) e (?v w1)" by simp
    show ?case
    proof (cases "is_SessionNotFoundError e")
      case True
      then have "\<not> is_InfrastructureError e" by (cases e) simp_all
      with f have g: "sessions_aged (?v w) (?v w1)" "st_counters (?v w1) = st_counters (?v w)"
        "\<And>s. session_in (?v w1) ?ws sid = Some s \<Longrightarrow> is_terminal (status s)"
        by (auto simp: abort_failure_def abort_refused_def)
      show ?thesis
        unfolding if_P [OF True]
      proof (rule wp_use [OF lookup_wp [OF ids ok1, where A = "{(?ws, sid)}"]], goal_cases)
        case (3 e' w')
        then have "st_counters (?v w') = st_counters (?v w1)"
          using counters_ok_passes(1) [of "?v w1"] ok1 by (simp add: store_ok_def)
        then show ?case
          using 3 g k1 keeps_trans sessions_aged_trans [OF g(1)] passes_session answers_mono [of "{404}" e' "{404, 503}"]
          by (auto simp: abort_failed_def)
      qed simp_all
    next
      case False
      then have "is_InfrastructureError e" using f by (auto simp: abort_failure_def abort_refused_def)
      then have "answers {503} (abort_error c sid e)" by (simp add: abort_error_answer(2))
      then show ?thesis
        using False k1 f answers_mono [of "{503}" _ "{404, 503}"] answers_both [of "{503}" _ "{404}"]
        by (auto simp: wp_raise abort_failed_def abort_failure_def)
    qed
  qed
qed

subsection \<open>POST\<close>

lemma schema_request:
  "validate_schema r = Inr r' \<Longrightarrow> r' = r \<and> 0 < sq_size r \<and> sq_size r \<le> MAX_FILE_SIZE_BYTES \<and> sq_mime_type r = ''application/pdf''"
  by (simp add: validate_schema_def MAX_FILE_SIZE_BYTES_def split: if_splits)

lemma init_failure_answer:
  assumes "validate_schema r = Inr r'" and "init_failure (dto_request c r) e"
  shows "answers {422, 500, 503} (initiate_error e)"
proof -
  note r = schema_request [OF assms(1)]
  from assms(2) consider "is_InfrastructureError e" | "e = OverflowError" | "is_ValueError e"
    using r new_session_refusal [of "dto_request c r" _ _ _ e] unfolding init_failure_def dto_request_def by auto
  then show ?thesis
  proof cases
    case 1
    then show ?thesis using answers_mono [OF initiate_error_answer(3)] by simp
  next
    case 2
    then show ?thesis by (simp add: initiate_error_def)
  next
    case 3
    then show ?thesis using answers_mono [OF initiate_error_answer(4)] by simp
  qed
qed

lemma initiate_handler_wp:
  assumes schema: "validate_schema r = Inr r'" and ws: "jwt_workspace_id c \<noteq> 0"
    and ok: "store_ok (redis_view now db w)" and n: "count_in (redis_view now db w) (jwt_workspace_id c) = Some n"
  shows "wp (initiate_upload_handler (RedisRateLimiter R limit) (RedisSessionStore R) Env c r)
     (\<lambda>resp w'. keeps (redis_view now db) rest ({jwt_workspace_id c} \<times> UNIV) w w'
        \<and> created c r n resp (redis_view now db w') \<and> n < limit)
     (\<lambda>e w'. keeps (redis_view now db) rest ({jwt_workspace_id c} \<times> UNIV) w w'
        \<and> (answers {422, 500, 503} e \<or> answers {429} e \<and> limit \<le> n)) w"
    (is "wp _ ?Q ?E w")
proof (cases "request_ok (dto_request c r)")
  case False
  then obtain e where e: "validate_request (dto_request c r) = Inl e"
    using validate_request_iff [of "dto_request c r"] by (cases "validate_request (dto_request c r)") auto
  then have "is_ValueError e" using schema_valid [OF schema, of c] schema_request [OF schema] by simp
  then have "answers {422, 500, 503} (initiate_error e)" using answers_mono [OF initiate_error_answer(4)] by simp
  with e show ?thesis
    using keeps_passes [OF ok calm]
    by (simp add: wp_def initiate_upload_handler_def catch_def bnd_def initiate_invalid_run)
next
  case True
  have id: "iur_workspace_id (dto_request c r) = jwt_workspace_id c" by (simp add: dto_request_def)
  show ?thesis
    unfolding initiate_upload_handler_def wp_catch wp_bnd [of "initiate_upload _ _ _ _"]
  proof (rule wp_use [OF wp_conj [OF initiate_service [OF True _ ok] initiate.initiate_confined [OF _ calm]], unfolded id, OF ws n ws],
      goal_cases)
    case (1 d w')
    then have "initiated (dto_request c r) d (redis_view now db w')" "ires_offset d = 0" by (auto simp: initiated_def)
    moreover from this have "schema_response d
        = Inr \<lparr>sr_upload_id = ires_session_id d, sr_offset = 0, sr_expires_at = ires_expires_at d\<rparr>"
      by (simp add: schema_response_def)
    ultimately show ?case using 1 by (auto simp: wp_ret keeps_def created_def id)
  next
    case (2 e w')
    then have "init_failure (dto_request c r) e \<or> is_RateLimitExceededError e \<and> limit \<le> n" by blast
    then have "answers {422, 500, 503} (initiate_error e) \<or> answers {429} (initiate_error e) \<and> limit \<le> n"
    proof
      assume "is_RateLimitExceededError e \<and> limit \<le> n"
      then show ?thesis by (cases e) (simp_all add: initiate_error_def)
    qed (simp add: init_failure_answer [OF schema])
    with 2 show ?case by (simp add: wp_raise keeps_def)
  qed
qed

end

end
