(* ===== verification/Upload_Routes.thy ===== *)
theory Upload_Routes
  imports Upload_API
begin

text \<open>
  The four routes, for any request: identifiers that are NIL are refused before any command is sent,
  authentication and the OWNER role stand in front of the handlers. \<open>route_wp\<close>: an answer means that a
  genuine token was presented and that the \<open>effect\<close> of the request took place; whatever else happens,
  nothing outside the \<open>scope\<close> of the token's workspace changes, and nothing at all without a token.
\<close>

section \<open>NIL identifiers\<close>

lemma get_nil:
  assumes "ws = 0 \<or> sid = 0"
  shows "\<exists>e. is_ValueError e \<and> get_session (RedisSessionStore R) ws sid w = (Inl e, w)
     \<and> get_session_with_expiry_info (RedisSessionStore R) ws sid w = (Inl e, w)"
  using assms
  by (cases "ws = 0") (auto simp: rss_get_session_def rss_get_session_with_expiry_info_def session_key_def
      validate_workspace_id_def validate_document_id_def bnd_def)

lemma process_nil:
  assumes "pcr_workspace_id req = 0 \<or> pcr_session_id req = 0"
  shows "\<exists>e. is_ValueError e \<and> process_chunk (RedisSessionStore R) R req w = (Inl e, w)"
  using get_nil [OF assms, of R w] by (auto simp: process_chunk_def bnd_Inl simp del: RedisSessionStore_sel)

lemma abort_nil:
  assumes "ws = 0 \<or> sid = 0"
  shows "\<exists>e. is_ValueError e \<and> abort_upload (RedisSessionStore R) L ws sid w = (Inl e, w)"
  using get_nil [OF assms, of R w] by (auto simp: abort_upload_def bnd_Inl simp del: RedisSessionStore_sel)

lemma initiate_nil:
  assumes "iur_workspace_id req = 0" and "\<And>e. validate_request req = Inl e \<Longrightarrow> is_ValueError e"
  shows "\<exists>e. is_ValueError e \<and> initiate_upload (RedisRateLimiter R limit) S Env req w = (Inl e, w)"
proof (cases "validate_request req")
  case (Inl e)
  then show ?thesis using assms(2) by (auto simp: initiate_invalid_run)
next
  case (Inr u)
  then show ?thesis
    using assms(1) by (simp add: initiate_valid validate_request_iff [symmetric] rrl_check_and_increment_def
        rate_limit_key_def validate_workspace_id_def bnd_def)
qed

lemma initiate_handler_nil:
  assumes "validate_schema r = Inr r'" and "jwt_workspace_id c = 0"
  shows "\<exists>e. answers {422} e \<and> initiate_upload_handler (RedisRateLimiter R limit) S Env c r w = (Inl e, w)"
proof -
  have "r' = r" using assms(1) by (simp add: validate_schema_def split: if_splits)
  then obtain e where "is_ValueError e" "initiate_upload (RedisRateLimiter R limit) S Env (dto_request c r) w = (Inl e, w)"
    using initiate_nil [of "dto_request c r" R limit S Env w] assms(2) schema_valid [OF assms(1), of c]
    by (auto simp: dto_request_def)
  then show ?thesis
    using initiate_error_answer(4) [of e] by (auto simp: initiate_upload_handler_def catch_def bnd_def)
qed

lemma abort_handler_nil:
  assumes "jwt_workspace_id c = 0 \<or> sid = 0"
  shows "\<exists>e. answers {500} e \<and> abort_upload_handler (RedisSessionStore R) L Env c sid w = (Inl e, w)"
proof -
  obtain e where e: "is_ValueError e" "abort_upload (RedisSessionStore R) L (jwt_workspace_id c) sid w = (Inl e, w)"
    using abort_nil [OF assms, of R L w] by blast
  then have "\<not> is_SessionNotFoundError e" "answers {500} (abort_error c sid e)"
    by (cases e; simp add: abort_error_def)+
  with e(2) show ?thesis by (auto simp: abort_upload_handler_def catch_def bnd_def)
qed

section \<open>What a request may do\<close>

fun needs_owner :: "http_request \<Rightarrow> bool" where
  "needs_owner (HeadUpload sid) = False"
| "needs_owner _ = True"

fun scope :: "JWTClaims \<Rightarrow> http_request \<Rightarrow> (uuid \<times> uuid) set" where
  "scope c (PostUploads r) = {jwt_workspace_id c} \<times> UNIV"
| "scope c (PatchUpload q) = {(jwt_workspace_id c, cq_upload_id q)}"
| "scope c (HeadUpload sid) = {}"
| "scope c (DeleteUpload sid) = {(jwt_workspace_id c, sid)}"

fun effect :: "JWTClaims \<Rightarrow> http_request \<Rightarrow> Response \<Rightarrow> store \<Rightarrow> store \<Rightarrow> bool" where
  "effect c (PostUploads r) resp st st' = (\<exists>n. count_in st (jwt_workspace_id c) = Some n \<and> created c r n resp st')"
| "effect c (PatchUpload q) resp st st' = chunk_accepted c q resp st st'"
| "effect c (HeadUpload sid) resp st st' = offset_told c sid resp st st'"
| "effect c (DeleteUpload sid) resp st st' = (resp = \<lparr>rs_status = 204, rs_headers = [], rs_body = None\<rparr>
     \<and> aborted (jwt_workspace_id c) sid st st')"

definition entitled :: "(string \<Rightarrow> string \<Rightarrow> string list \<Rightarrow> payload \<Rightarrow> bool) \<Rightarrow> 'w jwt_lib \<Rightarrow> AppSettings
    \<Rightarrow> string option \<Rightarrow> http_request \<Rightarrow> JWTClaims \<Rightarrow> bool" where
  "entitled genuine J s authorization rq c = (authentic genuine J s authorization c
     \<and> (needs_owner rq \<longrightarrow> jwt_workspace_role c = OWNER))"

definition handled :: "('w \<Rightarrow> store) \<Rightarrow> ('w \<Rightarrow> 'o) \<Rightarrow> JWTClaims \<Rightarrow> http_request \<Rightarrow> 'w \<Rightarrow> ('w, Response) io \<Rightarrow> bool" where
  "handled view rest c rq w m = wp m
     (\<lambda>resp w'. keeps view rest (scope c rq) w w' \<and> effect c rq resp (view w) (view w'))
     (\<lambda>_. keeps view rest (scope c rq) w) w"

lemma handled_weaken:
  "wp m (\<lambda>resp w'. keeps view rest (scope c rq) w w' \<and> effect c rq resp (view w) (view w'))
     (\<lambda>e w'. keeps view rest (scope c rq) w w' \<and> F e w') w \<Longrightarrow> handled view rest c rq w m"
  unfolding handled_def by (erule wp_use) simp_all

lemma handled_never: "wp m (\<lambda>_ _. False) (\<lambda>_. keeps view rest (scope c rq) w) w \<Longrightarrow> handled view rest c rq w m"
  unfolding handled_def by (erule wp_use) simp_all

text \<open>Authentication takes time; what the handler did counts from before it.\<close>

lemma aborted_passes:
  assumes p: "passes st st1" and a: "aborted ws sid st1 st'" and now: "st_now st1 \<le> st_now st'"
  shows "aborted ws sid st st'"
proof -
  have "tick_value (st_now st') (st_sessions st1 ws' sid') = tick_value (st_now st') (st_sessions st ws' sid')" for ws' sid'
    using now by (simp add: passesD(2) [OF p])
  with a passes_session [OF p] show ?thesis unfolding aborted_def by metis
qed

lemma effect_passes:
  assumes p: "passes st st1" and ok: "store_ok st" and e: "effect c rq resp st1 st'" and now: "st_now st1 \<le> st_now st'"
  shows "effect c rq resp st st'"
proof (cases rq)
  case (PostUploads r)
  then show ?thesis using e counters_ok_passes(3) [OF _ p] ok by (simp add: store_ok_def)
next
  case (PatchUpload q)
  with e process_spec_passes [OF p ok] show ?thesis by (simp add: chunk_accepted_def) blast
next
  case (HeadUpload sid)
  then show ?thesis using e passes_session [OF p] passes_trans [OF p] by (auto simp: offset_told_def)
next
  case (DeleteUpload sid)
  then show ?thesis using e aborted_passes [OF p _ now] by simp
qed

context upload_api
begin

subsection \<open>The routes\<close>

lemma upload_chunk_nil:
  assumes "jwt_workspace_id c = 0 \<or> cq_upload_id q = 0" and ok: "store_ok (redis_view now db w)"
  shows "wp (upload_chunk_handler (RedisSessionStore R) R Env body c q) (\<lambda>_ _. False)
     (\<lambda>_. keeps (redis_view now db) rest A w) w"
  unfolding upload_chunk_handler_def
proof (rule wp_liftI, goal_cases)
  case 1
  then show ?case using keeps_passes [OF ok calm] by simp
next
  case (2 h)
  show ?case
    unfolding read_body_def wp_bnd [of "catch _ _"] wp_catch
  proof (rule wp_use [OF performsD [OF body]], goal_cases)
    case (1 data w1)
    then have k1: "keeps (redis_view now db) rest A w w1" using keeps_passes [OF ok] by simp
    show ?case
    proof (rule wp_liftI, goal_cases)
      case (2 req)
      then have "pcr_workspace_id req = 0 \<or> pcr_session_id req = 0"
        using assms(1) by (auto simp: ProcessChunkRequest_post_init_iff chunk_dto_def)
      then obtain e where "is_ValueError e" "process_chunk (RedisSessionStore R) R req w1 = (Inl e, w1)"
        using process_nil [of req R w1] by blast
      then show ?case
        using k1 by (cases e) (simp_all add: wp_def run_chunk_def catch_def bnd_def)
    qed (simp add: k1)
  qed (use keeps_passes [OF ok] in \<open>auto simp: wp_rules\<close>)
qed

lemma query_nil:
  assumes "jwt_workspace_id c = 0 \<or> sid = 0" and ok: "store_ok (redis_view now db w)"
  shows "wp (query_upload_offset_handler (RedisSessionStore R) timer Env c sid) (\<lambda>_ _. False)
     (\<lambda>_. keeps (redis_view now db) rest A w) w"
proof -
  have "wp (wait_for timer (get_session_with_expiry_info (RedisSessionStore R) (jwt_workspace_id c) sid)) (\<lambda>_ _. False)
     (\<lambda>_. keeps (redis_view now db) rest A w) w"
    unfolding wait_for_def wp_bnd
  proof (rule wp_use [OF idleD [OF idle_timer]], goal_cases)
    case (1 t w1)
    obtain e where "get_session_with_expiry_info (RedisSessionStore R) (jwt_workspace_id c) sid w1 = (Inl e, w1)"
      using get_nil [OF assms(1), of R w1] by blast
    then show ?case
      using keeps_passes [OF ok] 1 by (auto simp: wp_def bnd_def split: option.splits)
  qed simp
  then show ?thesis
    unfolding query_upload_offset_handler_def wp_bnd wp_catch wp_fun(2) by (rule wp_use) simp_all
qed

lemma rate_limiter_built:
  "max_concurrent_uploads s = limit \<Longrightarrow> get_rate_limiter R s = Inr (RedisRateLimiter R limit)"
  using positive_limit by (simp add: get_rate_limiter_def mk_RedisRateLimiter_def)

text \<open>The handlers, for any identifiers.\<close>

lemma handled_raises: "m w = (Inl e, w) \<Longrightarrow> store_ok (redis_view now db w) \<Longrightarrow> handled (redis_view now db) rest c rq w m"
  using keeps_passes [OF _ calm] by (intro handled_never) (simp add: wp_def)

lemma post_handled:
  assumes "max_concurrent_uploads s = limit" and ok: "store_ok (redis_view now db w)"
  shows "handled (redis_view now db) rest c (PostUploads r) w (bnd (lift (get_rate_limiter R s)) (\<lambda>L. bnd (lift (validate_schema r)) (\<lambda>r.
     initiate_upload_handler L (get_session_store R) Env c r)))"
proof (cases "validate_schema r")
  case (Inl e)
  then show ?thesis
    using rate_limiter_built [OF assms(1)] by (intro handled_raises [OF _ ok, of _ e]) simp
next
  case (Inr r')
  then have r': "r' = r" using schema_request by blast
  note run = rate_limiter_built [OF assms(1)] Inr bnd_lift_Inr r' get_session_store_def
  show ?thesis
  proof (cases "jwt_workspace_id c = 0")
    case True
    with initiate_handler_nil [OF Inr, of c R limit "RedisSessionStore R" Env w] obtain e where
      "initiate_upload_handler (RedisRateLimiter R limit) (RedisSessionStore R) Env c r w = (Inl e, w)" by blast
    then show ?thesis unfolding run by (rule handled_raises [OF _ ok])
  next
    case False
    obtain n where n: "count_in (redis_view now db w) (jwt_workspace_id c) = Some n"
      using ok count_ok by (auto simp: store_ok_def)
    show ?thesis
      unfolding run handled_def
      by (rule wp_use [OF initiate_handler_wp [OF Inr False ok n]]) (use n in auto)
  qed
qed

lemma patch_handled:
  assumes ok: "store_ok (redis_view now db w)"
  shows "handled (redis_view now db) rest c (PatchUpload q) w (upload_chunk_handler (get_session_store R) R Env body c q)"
proof (cases "jwt_workspace_id c = 0 \<or> cq_upload_id q = 0")
  case True
  then show ?thesis unfolding get_session_store_def by (intro handled_never upload_chunk_nil ok)
next
  case False
  then show ?thesis unfolding get_session_store_def by (intro handled_weaken [where F = "\<lambda>e w'. chunk_failed c q (redis_view now db w) e (redis_view now db w')"])
      (simp add: upload_chunk_wp ok)
qed

lemma head_handled:
  assumes ok: "store_ok (redis_view now db w)"
  shows "handled (redis_view now db) rest c (HeadUpload sid) w (query_upload_offset_handler (get_session_store R) timer Env c sid)"
proof (cases "jwt_workspace_id c = 0 \<or> sid = 0")
  case True
  then show ?thesis unfolding get_session_store_def by (intro handled_never query_nil ok)
next
  case False
  then have ids: "jwt_workspace_id c \<noteq> 0" "sid \<noteq> 0" by simp_all
  show ?thesis
    unfolding get_session_store_def handled_def
    by (rule wp_use [OF query_wp [OF ids ok]]) (auto simp: offset_told_def query_failed_def intro: keeps_passes [OF ok])
qed

lemma delete_handled:
  assumes "max_concurrent_uploads s = limit" and ok: "store_ok (redis_view now db w)"
  shows "handled (redis_view now db) rest c (DeleteUpload sid) w (bnd (lift (get_rate_limiter R s)) (\<lambda>L.
     abort_upload_handler (get_session_store R) L Env c sid))"
proof -
  note run = rate_limiter_built [OF assms(1)] bnd_lift_Inr get_session_store_def
  show ?thesis
  proof (cases "jwt_workspace_id c = 0 \<or> sid = 0")
    case True
    then obtain e where "abort_upload_handler (RedisSessionStore R) (RedisRateLimiter R limit) Env c sid w = (Inl e, w)"
      using abort_handler_nil [of c sid R "RedisRateLimiter R limit" Env w] by blast
    then show ?thesis unfolding run by (rule handled_raises [OF _ ok])
  next
    case False
    then show ?thesis unfolding run by (intro handled_weaken [where F = "\<lambda>e w'. abort_failed c sid (redis_view now db w) e (redis_view now db w')"])
      (simp add: abort_handler_wp ok)
  qed
qed

subsection \<open>Authentication in front\<close>

lemma as_owner_wp:
  assumes h: "\<And>c w1. authentic genuine J s authorization c \<Longrightarrow> jwt_workspace_role c = OWNER \<Longrightarrow> rest w1 = rest w
      \<Longrightarrow> passes (redis_view now db w) (redis_view now db w1) \<Longrightarrow> wp (handler c) Q E w1"
    and refused: "\<And>e w1. rest w1 = rest w \<Longrightarrow> passes (redis_view now db w) (redis_view now db w1)
      \<Longrightarrow> answers {401, 403} e \<or> \<not> is_Exception e \<Longrightarrow> E e w1"
  shows "wp (as_owner J s authorization handler) Q E w"
  unfolding as_owner_def wp_bnd [of "get_current_user _ _ _"]
proof (rule wp_use [OF user_wp], goal_cases)
  case (1 c w1)
  show ?case
  proof (rule wp_liftI, goal_cases)
    case (1 e)
    then have "answers {401, 403} e" using access_refused(1) answers_mono by blast
    with \<open>rest w1 = rest w \<and> _\<close> show ?case using refused by blast
  next
    case (2 c')
    then have "c' = c" "jwt_workspace_role c = OWNER" by (auto simp: require_role_iff)
    with \<open>rest w1 = rest w \<and> _\<close> show ?case using h by blast
  qed
next
  case (2 e w1)
  then have "answers {401, 403} e \<or> \<not> is_Exception e" by (auto simp: is_unauthorized_def unauthorized_def)
  with 2 show ?case using refused by blast
qed

lemma handled_later:
  assumes "handled (redis_view now db) rest c rq w1 m" and ok: "store_ok (redis_view now db w)"
    and w1: "rest w1 = rest w" "passes (redis_view now db w) (redis_view now db w1)"
    and c: "entitled genuine J s authorization rq c"
  shows "wp m
     (\<lambda>resp w'. \<exists>c. entitled genuine J s authorization rq c \<and> keeps (redis_view now db) rest (scope c rq) w w'
        \<and> effect c rq resp (redis_view now db w) (redis_view now db w'))
     (\<lambda>e w'. keeps (redis_view now db) rest {} w w' \<and> (answers {401, 403} e \<or> \<not> is_Exception e)
        \<or> (\<exists>c. entitled genuine J s authorization rq c \<and> keeps (redis_view now db) rest (scope c rq) w w')) w1"
  using assms(1) unfolding handled_def
proof (rule wp_use, goal_cases)
  case (1 resp w')
  then have "st_now (redis_view now db w1) \<le> st_now (redis_view now db w')" by (simp add: keeps_def confined_def)
  then have "effect c rq resp (redis_view now db w) (redis_view now db w')" using effect_passes [OF w1(2) ok] 1 by blast
  moreover have "keeps (redis_view now db) rest (scope c rq) w w'"
    using 1 keeps_trans [OF keeps_passes [OF ok w1(2,1)]] by blast
  ultimately show ?case using c by blast
next
  case (2 e w')
  then show ?case using c keeps_trans [OF keeps_passes [OF ok w1(2,1)]] by blast
qed

lemma route_wp:
  assumes limit: "max_concurrent_uploads s = limit" and ok: "store_ok (redis_view now db w)"
  shows "wp (route J s R timer Env body authorization rq)
     (\<lambda>resp w'. \<exists>c. entitled genuine J s authorization rq c \<and> keeps (redis_view now db) rest (scope c rq) w w'
        \<and> effect c rq resp (redis_view now db w) (redis_view now db w'))
     (\<lambda>e w'. keeps (redis_view now db) rest {} w w' \<and> (answers {401, 403} e \<or> \<not> is_Exception e)
        \<or> (\<exists>c. entitled genuine J s authorization rq c \<and> keeps (redis_view now db) rest (scope c rq) w w')) w"
    (is "wp _ ?Q ?E w")
proof -
  have refused: "?E e w1" if "rest w1 = rest w" "passes (redis_view now db w) (redis_view now db w1)"
      "answers {401, 403} e \<or> \<not> is_Exception e" for e w1
    using that keeps_passes [OF ok] by blast
  have later: "store_ok (redis_view now db w1)" if "passes (redis_view now db w) (redis_view now db w1)" for w1
    using store_ok_passes [OF ok that] .
  show ?thesis
  proof (cases rq)
    case (PostUploads r)
    show ?thesis
      unfolding route_def PostUploads http_request.case
      by (rule as_owner_wp, rule handled_later [OF post_handled [OF limit later] ok], unfold PostUploads [symmetric])
        (use refused in \<open>auto simp: entitled_def\<close>)
  next
    case (PatchUpload q)
    show ?thesis
      unfolding route_def PatchUpload http_request.case
      by (rule as_owner_wp, rule handled_later [OF patch_handled [OF later] ok], unfold PatchUpload [symmetric])
        (use refused in \<open>auto simp: entitled_def\<close>)
  next
    case (HeadUpload sid)
    show ?thesis
      unfolding route_def HeadUpload http_request.case wp_bnd [of "get_current_user _ _ _"]
    proof (rule wp_use [OF user_wp], goal_cases)
      case (1 c w1)
      then have "entitled genuine J s authorization (HeadUpload sid) c" by (simp add: entitled_def)
      with 1 show ?case by (intro handled_later [OF head_handled [OF later] ok]) simp_all
    next
      case (2 e w1)
      then have "answers {401, 403} e \<or> \<not> is_Exception e" by (auto simp: is_unauthorized_def unauthorized_def)
      with 2 show ?case using refused unfolding HeadUpload by blast
    qed
  next
    case (DeleteUpload sid)
    show ?thesis
      unfolding route_def DeleteUpload http_request.case
      by (rule as_owner_wp, rule handled_later [OF delete_handled [OF limit later] ok], unfold DeleteUpload [symmetric])
        (use refused in \<open>auto simp: entitled_def\<close>)
  qed
qed

text \<open>The whole application: the middleware in front.\<close>

lemma application_wp:
  assumes limit: "max_concurrent_uploads s = limit" and ok: "store_ok (redis_view now db w)"
  shows "wp (application J s R timer Env body authorization rq)
     (\<lambda>resp w'. keeps (redis_view now db) rest {} w w' \<and> (\<exists>d. resp = refusal d)
        \<or> (\<exists>c. entitled genuine J s authorization rq c \<and> keeps (redis_view now db) rest (scope c rq) w w'
             \<and> effect c rq resp (redis_view now db w) (redis_view now db w')))
     (\<lambda>e w'. keeps (redis_view now db) rest {} w w' \<and> (answers {401, 403} e \<or> \<not> is_Exception e)
        \<or> (\<exists>c. entitled genuine J s authorization rq c \<and> keeps (redis_view now db) rest (scope c rq) w w')) w"
    (is "wp _ ?Q ?E w")
proof (cases "authorization \<in> {None, Some []}")
  case True
  have "keeps (redis_view now db) rest {} w w" by (rule keeps_passes [OF ok calm]) simp
  with True show ?thesis
    by (simp add: application_def jwt_validation_middleware_def request_path_protected wp_ret del: ret_run) blast
next
  case False
  then have run: "application J s R timer Env body authorization rq
      = bnd (admit J s (the authorization)) (\<lambda>answer. case answer of Some r \<Rightarrow> ret r
          | None \<Rightarrow> route J s R timer Env body authorization rq)"
    by (auto simp: application_def jwt_validation_middleware_def request_path_protected)
  show ?thesis
    unfolding run wp_bnd
  proof (rule wp_use [OF admit_wp], goal_cases)
    case (1 answer w1)
    then have p: "passes (redis_view now db w) (redis_view now db w1)" and k: "keeps (redis_view now db) rest {} w w1"
      using keeps_passes [OF ok] by blast+
    show ?case
    proof (cases answer)
      case (Some r)
      with 1 k show ?thesis by (simp add: wp_ret del: ret_run)
    next
      case None
      have wide: "keeps (redis_view now db) rest A w w'" if "keeps (redis_view now db) rest A w1 w'" for A w'
        using keeps_passes [OF ok p] 1 that by (blast intro: keeps_trans)
      show ?thesis
        unfolding None option.case
      proof (rule wp_use [OF route_wp [OF limit store_ok_passes [OF ok p]]], goal_cases)
        case (1 resp w')
        then obtain c where c: "entitled genuine J s authorization rq c" "keeps (redis_view now db) rest (scope c rq) w1 w'"
          "effect c rq resp (redis_view now db w1) (redis_view now db w')" by blast
        then have "st_now (redis_view now db w1) \<le> st_now (redis_view now db w')" by (simp add: keeps_def confined_def)
        with c wide effect_passes [OF p ok] show ?case by blast
      next
        case (2 e w')
        then show ?case using wide by blast
      qed
    qed
  next
    case (2 e w1)
    then show ?case using keeps_passes [OF ok] by blast
  qed
qed

end

section \<open>Sequences of requests\<close>

text \<open>Each request has its body and its Authorization header; the world after them, in order.\<close>

record 'w api_request =
  rq_body :: "('w, bytes) io"
  rq_authorization :: "string option"
  rq_request :: http_request

definition serve :: "'w jwt_lib \<Rightarrow> AppSettings \<Rightarrow> 'w redis_client \<Rightarrow> ('w, bool option) io \<Rightarrow> 'w environment \<Rightarrow> 'w api_request
    \<Rightarrow> ('w, Response) io" where
  "serve J s R timer Env x = application J s R timer Env (rq_body x) (rq_authorization x) (rq_request x)"

definition after_requests :: "'w jwt_lib \<Rightarrow> AppSettings \<Rightarrow> 'w redis_client \<Rightarrow> ('w, bool option) io \<Rightarrow> 'w environment \<Rightarrow> 'w api_request list
    \<Rightarrow> 'w \<Rightarrow> 'w" where
  "after_requests J s R timer Env xs w = foldl (\<lambda>w x. snd (serve J s R timer Env x w)) w xs"

text \<open>The workspace has no entitled caller among the requests.\<close>

definition absent :: "(string \<Rightarrow> string \<Rightarrow> string list \<Rightarrow> payload \<Rightarrow> bool) \<Rightarrow> 'w jwt_lib \<Rightarrow> AppSettings \<Rightarrow> uuid
    \<Rightarrow> 'w api_request list \<Rightarrow> bool" where
  "absent genuine J s ws xs = (\<forall>x \<in> set xs. \<forall>c.
     entitled genuine J s (rq_authorization x) (rq_request x) c \<longrightarrow> jwt_workspace_id c \<noteq> ws)"

lemma absent_append: "absent genuine J s ws (xs @ ys) \<longleftrightarrow> absent genuine J s ws xs \<and> absent genuine J s ws ys"
  unfolding absent_def by auto

lemma scope_workspace: "scope c rq \<subseteq> {jwt_workspace_id c} \<times> UNIV"
  by (cases rq) auto

context upload_service
begin

text \<open>What one request does to a workspace that has no entitled caller.\<close>

lemma serve_isolated:
  assumes api: "upload_api R now db rest Env limit J genuine timer (rq_body x)"
    and limit: "max_concurrent_uploads s = limit" and ok: "store_ok (redis_view now db w)"
    and absent: "absent genuine J s ws [x]"
  shows "keeps (redis_view now db) rest (- ({ws} \<times> UNIV)) w (snd (serve J s R timer Env x w))"
proof -
  have grow: "keeps (redis_view now db) rest (- ({ws} \<times> UNIV)) w w'"
    if "keeps (redis_view now db) rest A w w'" "A \<subseteq> - ({ws} \<times> UNIV)" for A w'
    using that(1) confined_mono [OF _ that(2)] by (simp add: keeps_def)
  have other: "scope c (rq_request x) \<subseteq> - ({ws} \<times> UNIV)"
    if c: "entitled genuine J s (rq_authorization x) (rq_request x) c" for c
  proof -
    have "jwt_workspace_id c \<noteq> ws" using c absent by (simp add: absent_def)
    then have "{jwt_workspace_id c} \<times> UNIV \<subseteq> - ({ws} \<times> UNIV)" by auto
    with scope_workspace show ?thesis by (rule order_trans)
  qed
  show ?thesis
    unfolding serve_def
  proof (rule wp_snd, rule wp_use [OF upload_api.application_wp [OF api limit ok]], goal_cases)
    case (1 resp w')
    then consider "keeps (redis_view now db) rest {} w w'"
      | c where "entitled genuine J s (rq_authorization x) (rq_request x) c"
          "keeps (redis_view now db) rest (scope c (rq_request x)) w w'" by blast
    then show ?case by cases (metis empty_subsetI grow, metis grow other)
  next
    case (2 e w')
    then consider "keeps (redis_view now db) rest {} w w'"
      | c where "entitled genuine J s (rq_authorization x) (rq_request x) c"
          "keeps (redis_view now db) rest (scope c (rq_request x)) w w'" by blast
    then show ?case by cases (metis empty_subsetI grow, metis grow other)
  qed
qed

lemma requests_isolated:
  assumes api: "\<And>x. x \<in> set xs \<Longrightarrow> upload_api R now db rest Env limit J genuine timer (rq_body x)"
    and limit: "max_concurrent_uploads s = limit" and ok: "store_ok (redis_view now db w)"
    and calm: "passes (redis_view now db w) (redis_view now db w)" and absent: "absent genuine J s ws xs"
  shows "keeps (redis_view now db) rest (- ({ws} \<times> UNIV)) w (after_requests J s R timer Env xs w)"
  using api absent
proof (induction xs rule: rev_induct)
  case Nil
  then show ?case using ok calm by (simp add: after_requests_def keeps_def confined_passes)
next
  case (snoc x xs)
  let ?w = "after_requests J s R timer Env xs w"
  have xs: "keeps (redis_view now db) rest (- ({ws} \<times> UNIV)) w ?w"
    using snoc.prems by (intro snoc.IH) (simp_all add: absent_append)
  moreover have "store_ok (redis_view now db ?w)" using xs by (simp add: keeps_def)
  then have "keeps (redis_view now db) rest (- ({ws} \<times> UNIV)) ?w (snd (serve J s R timer Env x ?w))"
    using snoc.prems by (intro serve_isolated [OF _ limit, where genuine = genuine]) (simp_all add: absent_append)
  ultimately have "keeps (redis_view now db) rest (- ({ws} \<times> UNIV)) w (snd (serve J s R timer Env x ?w))"
    by (rule keeps_trans)
  then show ?case by (simp add: after_requests_def)
qed

end

text \<open>The application in memory.\<close>

definition mem_body :: "bytes \<Rightarrow> ('z mem_world_scheme, bytes) io" where
  "mem_body b = ret b"

lemma mem_body_idle: "performs (redis_view mw_now mem_live) mem_world.more (\<lambda>st _ st'. passes st st') E (mem_body b)"
  by (simp add: performs_def mem_body_def wp_ret mem_view_refl)

interpretation mem_api: upload_api mem_redis mw_now mem_live mem_world.more mem_environment 10 mem_jwt mem_genuine
    mem_timer "mem_body b" for b
proof (intro upload_api.intro upload_api_axioms.intro mem_service.upload_service_axioms mem_tokens.token_verifier_axioms
    mem_body_idle)
  show "idle mw_now mem_live mem_world.more mem_timer"
    by (rule mem_timed.timer)
qed

end
