(* ===== verification/Sample_World.thy ===== *)
theory Sample_World
  imports Upload_Service
begin

text \<open>
  A small world on the server in memory, at which the properties are instantiated: one workspace
  with one pending session of five bytes, and nothing else.
\<close>

definition sample_time :: datetime where
  "sample_time = \<lparr>wall = 63902908800000000, utcoff = Some 0\<rparr>"

definition sample_session :: UploadSession where
  "sample_session = \<lparr>session_id = 2, workspace_id = 1, filename = ''a.pdf'', file_size = 5,
     mime_type = ''application/pdf'', sha256_checksum = SHA256Hash (replicate 64 (CHR ''a'')),
     offset = 0, status = PENDING, created_at = sample_time,
     expires_at = sample_time\<lparr>wall := 63902995200000000\<rparr>, chunk_manifest = []\<rparr>"

definition sample_world :: "unit mem_world_scheme" where
  "sample_world = \<lparr>mw_now = 0,
     mw_db = [session_key_text 1 2 \<mapsto> (RHash (serialize_session sample_session), Some 86400000)],
     mw_faults = []\<rparr>"

abbreviation sample_view :: "unit mem_world_scheme \<Rightarrow> store" where
  "sample_view \<equiv> redis_view mw_now mem_live"

definition sample_request :: InitiateUploadRequest where
  "sample_request = \<lparr>iur_workspace_id = 1, iur_filename = ''b.pdf'', iur_size = 7,
     iur_mime_type = ''application/pdf'', iur_sha256_checksum = replicate 64 (CHR ''b'')\<rparr>"

definition sample_chunk :: ProcessChunkRequest where
  "sample_chunk = \<lparr>pcr_workspace_id = 1, pcr_session_id = 2,
     pcr_chunk_data = [1, 2, 3], pcr_chunk_offset = 0, pcr_chunk_checksum = sha256_hex [1, 2, 3]\<rparr>"

definition sample_metadata :: FileMetadata where
  "sample_metadata = \<lparr>fm_file_id = 3, fm_s3_path = ''1/2'', fm_size = 5, fm_uploaded_at = sample_time\<rparr>"

lemma storable_metadata: "metadata_storable sample_metadata"
  by (simp add: metadata_storable_def sample_metadata_def metadata_ok_def sample_time_def is_aware_def
      valid_datetime_def max_wall_def days_before_year_def usec_day_def strip_def lstrip_def rstrip_def
      is_space_def code_def)

lemma session_ok_sample: "session_ok sample_session"
  by (simp add: session_ok_def sample_session_def sample_time_def filename_ok_def strip_def lstrip_def
      rstrip_def is_space_def code_def MAX_FILE_SIZE_BYTES_def ALLOWED_MIME_TYPES_def is_aware_def instant_def)

lemma storable_sample: "storable sample_session"
proof -
  have "valid_datetime sample_time" "valid_datetime (sample_time\<lparr>wall := 63902995200000000\<rparr>)"
    by (simp_all add: sample_time_def valid_datetime_def max_wall_def days_before_year_def usec_day_def)
  moreover have "valid_hash (SHA256Hash (replicate 64 (CHR ''a'')))"
    by (simp add: valid_hash_def is_hex_lower_def list_all_iff)
  ultimately show ?thesis
    using session_ok_sample by (simp add: storable_def sample_session_def)
qed

lemma empty_store:
  "st_sessions (store_of t Map.empty) ws sid = None" "st_counters (store_of t Map.empty) ws = None"
  "st_expired (store_of t Map.empty) sid = None" "st_chunks (store_of t Map.empty) ws sid i = None"
  "st_files (store_of t Map.empty) ws h = None"
  by (simp_all add: store_of_def timed_at_def timed_val_def)

lemma store_ok_empty: "store_ok (store_of t Map.empty)"
  by (simp add: store_ok_def counters_ok_def sessions_ok_def empty_store)

lemma sample_view: "sample_view sample_world = put_session sample_session (Some 86400000) (store_of 0 Map.empty)"
proof -
  have "session_value (RHash (serialize_session sample_session)) = Some (Some sample_session)"
    by (simp add: session_value_def deserialize_serialize [OF storable_sample])
  moreover have "mem_live sample_world = mw_db sample_world"
    by (auto simp: mem_live_def sample_world_def purge_def fun_eq_iff)
  moreover have "workspace_id sample_session = 1" "session_id sample_session = 2"
    by (simp_all add: sample_session_def)
  ultimately show ?thesis
    by (simp add: redis_view_def sample_world_def store_of_upd put_session_def)
qed

lemma sample_store_ok: "store_ok (sample_view sample_world)"
proof -
  have "manifest_of sample_session []" by (simp add: manifest_of_def sample_session_def total_size_def)
  then show ?thesis
    unfolding sample_view by (intro store_ok_put_session store_ok_empty entry_inv_new storable_sample) simp_all
qed

lemma sample_session_in:
  "st_sessions (sample_view sample_world) 1 2 = Some (Some sample_session, Some 86400000)"
  "count_in (sample_view sample_world) ws = Some 0"
  by (simp_all add: sample_view put_session_def count_in_def empty_store) (simp add: sample_session_def)

lemma sample_requests:
  "request_ok sample_request" "iur_workspace_id sample_request = 1"
  "accepts sample_chunk sample_session" "pcr_workspace_id sample_chunk = 1" "pcr_session_id sample_chunk = 2"
proof -
  show "request_ok sample_request"
    by (simp add: request_ok_def sample_request_def filename_ok_def strip_def lstrip_def rstrip_def
      is_space_def code_def MAX_FILE_SIZE_BYTES_def lower_pdf is_hex_lower_def list_all_iff)
qed (simp_all add: sample_request_def sample_chunk_def accepts_def sample_session_def is_terminal_def
      MAX_CHUNK_BYTES_def)

lemma sample_ids:
  "iur_workspace_id sample_request \<noteq> 0" "(1 :: uuid) \<noteq> 0" "(2 :: uuid) \<noteq> 0"
  by (simp_all add: sample_requests)

end
