(* ===== verification/S3_Client.thy ===== *)
theory S3_Client
  imports Serialization Sha256
begin

text \<open>
  The operations of the S3 client (aioboto3, a parameter of the model) that the program calls, and
  their documented behaviour as the locale \<open>s3_server\<close>: objects by bucket and key, multipart uploads
  by their id. A call may raise with or without having taken effect; no call touches Redis. The
  server in memory extends the world of \<open>Redis_Client\<close>.
\<close>

type_synonym s3_key = "string \<times> string"

record s3_state =
  s3_objects :: "s3_key \<Rightarrow> bytes option"
  s3_uploads :: "string \<Rightarrow> (s3_key \<times> (nat \<Rightarrow> (bytes \<times> string) option)) option"

text \<open>The parts of an answer the program reads: the upload id, the entity tag of a part.\<close>

record 'w s3_client =
  s3_open :: "string list \<Rightarrow> bool \<Rightarrow> ('w, unit) io"
  head_object :: "string \<Rightarrow> string \<Rightarrow> ('w, unit) io"
  create_multipart_upload :: "string \<Rightarrow> string \<Rightarrow> string option \<Rightarrow> ('w, string option) io"
  upload_part :: "string \<Rightarrow> string \<Rightarrow> string \<Rightarrow> nat \<Rightarrow> bytes \<Rightarrow> ('w, string option) io"
  complete_multipart_upload :: "string \<Rightarrow> string \<Rightarrow> string \<Rightarrow> (nat \<times> string) list \<Rightarrow> ('w, unit) io"
  delete_object :: "string \<Rightarrow> string \<Rightarrow> ('w, unit) io"
  s3_abort_multipart_upload :: "string \<Rightarrow> string \<Rightarrow> string \<Rightarrow> ('w, unit) io"

text \<open>The error codes of an absent object.\<close>

fun is_missing :: "exn \<Rightarrow> bool" where
  "is_missing (ClientError c m) = (c = ''404'' \<or> c = ''NoSuchKey'')"
| "is_missing _ = False"

text \<open>The uploaded parts a completion names, in its order.\<close>

definition named_parts :: "(nat \<Rightarrow> (bytes \<times> string) option) \<Rightarrow> (nat \<times> string) list \<Rightarrow> bytes list \<Rightarrow> bool" where
  "named_parts parts ps bs = list_all2 (\<lambda>p b. parts (fst p) = Some (b, snd p)) ps bs"

definition set_part :: "string \<Rightarrow> nat \<Rightarrow> bytes \<Rightarrow> string \<Rightarrow> s3_state \<Rightarrow> s3_state" where
  "set_part u n b etag st = (case s3_uploads st u of
     None \<Rightarrow> st
   | Some (k, parts) \<Rightarrow> st\<lparr>s3_uploads := (s3_uploads st)(u \<mapsto> (k, parts(n \<mapsto> (b, etag))))\<rparr>)"

lemma set_part_objects [simp]: "s3_objects (set_part u n b etag st) = s3_objects st"
  by (simp add: set_part_def split: option.splits)

locale s3_server =
  fixes C :: "'w s3_client"
    and s3 :: "'w \<Rightarrow> s3_state"
    and view :: "'w \<Rightarrow> store"
    and other :: "'w \<Rightarrow> 'o"
  assumes settled: "passes (view w) (view w)"
    and opens: "wp (s3_open C conf ssl)
      (\<lambda>_ w'. passes (view w) (view w') \<and> other w' = other w \<and> s3 w' = s3 w)
      (\<lambda>_ w'. passes (view w) (view w') \<and> other w' = other w \<and> s3 w' = s3 w) w"
    and head: "wp (head_object C b k)
      (\<lambda>_ w'. passes (view w) (view w') \<and> other w' = other w \<and> s3 w' = s3 w \<and> s3_objects (s3 w) (b, k) \<noteq> None)
      (\<lambda>e w'. passes (view w) (view w') \<and> other w' = other w \<and> s3 w' = s3 w
         \<and> (is_missing e \<longrightarrow> s3_objects (s3 w) (b, k) = None)) w"
    and create_upload: "wp (create_multipart_upload C b k sse)
      (\<lambda>r w'. passes (view w) (view w') \<and> other w' = other w \<and> s3_objects (s3 w') = s3_objects (s3 w)
         \<and> (\<forall>u. r = Some u \<longrightarrow> s3_uploads (s3 w') u = Some ((b, k), Map.empty)))
      (\<lambda>_ w'. passes (view w) (view w') \<and> other w' = other w \<and> s3_objects (s3 w') = s3_objects (s3 w)) w"
    and part: "wp (upload_part C b k u n body)
      (\<lambda>r w'. passes (view w) (view w') \<and> other w' = other w \<and> s3_objects (s3 w') = s3_objects (s3 w)
         \<and> (\<forall>etag. r = Some etag \<longrightarrow> s3 w' = set_part u n body etag (s3 w)))
      (\<lambda>_ w'. passes (view w) (view w') \<and> other w' = other w \<and> s3_objects (s3 w') = s3_objects (s3 w)) w"
    and complete: "s3_uploads (s3 w) u = Some ((b, k), parts) \<Longrightarrow> named_parts parts ps bs \<Longrightarrow>
      wp (complete_multipart_upload C b k u ps)
      (\<lambda>_ w'. passes (view w) (view w') \<and> other w' = other w
         \<and> s3_objects (s3 w') = (s3_objects (s3 w))((b, k) \<mapsto> concat bs))
      (\<lambda>_ w'. passes (view w) (view w') \<and> other w' = other w
         \<and> s3_objects (s3 w') \<in> {s3_objects (s3 w), (s3_objects (s3 w))((b, k) \<mapsto> concat bs)}) w"
    and delete_obj: "wp (delete_object C b k)
      (\<lambda>_ w'. passes (view w) (view w') \<and> other w' = other w
         \<and> s3_objects (s3 w') = (s3_objects (s3 w))((b, k) := None))
      (\<lambda>_ w'. passes (view w) (view w') \<and> other w' = other w
         \<and> s3_objects (s3 w') \<in> {s3_objects (s3 w), (s3_objects (s3 w))((b, k) := None)}) w"
    and abort_upload: "wp (s3_abort_multipart_upload C b k u)
      (\<lambda>_ w'. passes (view w) (view w') \<and> other w' = other w \<and> s3_objects (s3 w') = s3_objects (s3 w))
      (\<lambda>_ w'. passes (view w) (view w') \<and> other w' = other w \<and> s3_objects (s3 w') = s3_objects (s3 w)) w"

section \<open>A server in memory\<close>

record s3_world = mem_world +
  mw_s3 :: s3_state
  mw_uploads :: nat

definition run_s3 :: "(s3_state \<Rightarrow> nat \<Rightarrow> (exn + 'a) \<times> s3_state) \<Rightarrow> ('z s3_world_scheme, 'a) io" where
  "run_s3 f w = (let (r, st) = f (mw_s3 w) (mw_uploads w) in (r, w\<lparr>mw_s3 := st, mw_uploads := Suc (mw_uploads w)\<rparr>))"

definition missing_key :: exn where "missing_key = ClientError ''404'' ''Not Found''"
definition missing_upload :: exn where "missing_upload = ClientError ''NoSuchUpload'' ''Not Found''"

definition mem_s3 :: "'z s3_world_scheme s3_client" where
  "mem_s3 = \<lparr>s3_open = (\<lambda>_ _. ret ()),
     head_object = (\<lambda>b k. run_s3 (\<lambda>st _. (if s3_objects st (b, k) = None then Inl missing_key else Inr (), st))),
     create_multipart_upload = (\<lambda>b k _. run_s3 (\<lambda>st n. (Inr (Some (str_nat n)),
        st\<lparr>s3_uploads := (s3_uploads st)(str_nat n \<mapsto> ((b, k), Map.empty))\<rparr>))),
     upload_part = (\<lambda>b k u n body. run_s3 (\<lambda>st _. (Inr (Some (sha256_hex body)), set_part u n body (sha256_hex body) st))),
     complete_multipart_upload = (\<lambda>b k u ps. run_s3 (\<lambda>st _.
        case s3_uploads st u of
          None \<Rightarrow> (Inl missing_upload, st)
        | Some (k', parts) \<Rightarrow>
            if k' = (b, k) \<and> list_all (\<lambda>p. map_option snd (parts (fst p)) = Some (snd p)) ps
            then (Inr (), st\<lparr>s3_objects := (s3_objects st)((b, k) \<mapsto> concat (map (\<lambda>p. fst (the (parts (fst p)))) ps))\<rparr>)
            else (Inl missing_upload, st))),
     delete_object = (\<lambda>b k. run_s3 (\<lambda>st _. (Inr (), st\<lparr>s3_objects := (s3_objects st)((b, k) := None)\<rparr>))),
     s3_abort_multipart_upload = (\<lambda>b k u. run_s3 (\<lambda>st _. (Inr (), st\<lparr>s3_uploads := (s3_uploads st)(u := None)\<rparr>)))\<rparr>"

lemma named_parts_map:
  "named_parts parts ps bs \<Longrightarrow> map (\<lambda>p. fst (the (parts (fst p)))) ps = bs
    \<and> list_all (\<lambda>p. map_option snd (parts (fst p)) = Some (snd p)) ps"
  unfolding named_parts_def by (induction ps bs rule: list_all2_induct) auto

lemma wp_run_s3:
  "wp (run_s3 f) Q E w = (let (r, st) = f (mw_s3 w) (mw_uploads w); w' = w\<lparr>mw_s3 := st, mw_uploads := Suc (mw_uploads w)\<rparr>
     in case r of Inl e \<Rightarrow> E e w' | Inr x \<Rightarrow> Q x w')"
  by (simp add: wp_def run_s3_def Let_def split: prod.splits sum.splits)

lemma s3_world_view [simp]:
  "redis_view mw_now mem_live (w\<lparr>mw_s3 := st, mw_uploads := n\<rparr>) = redis_view mw_now mem_live w"
  "redis_view mw_now mem_live (w\<lparr>mw_uploads := n\<rparr>) = redis_view mw_now mem_live w"
  "redis_view mw_now mem_live (w\<lparr>mw_s3 := st\<rparr>) = redis_view mw_now mem_live w"
  by (simp_all add: redis_view_def mem_live_def)

lemma mem_refl: "passes (redis_view mw_now mem_live w) (redis_view mw_now mem_live w)"
  by (rule mem.view_refl)

interpretation mem_s3: s3_server mem_s3 mw_s3 "redis_view mw_now mem_live" s3_world.more
proof unfold_locales
  fix w :: "'z s3_world_scheme" and u b k parts ps bs
  assume "s3_uploads (mw_s3 w) u = Some ((b, k), parts)" and "named_parts parts ps bs"
  then show "wp (complete_multipart_upload mem_s3 b k u ps)
      (\<lambda>_ w'. passes (redis_view mw_now mem_live w) (redis_view mw_now mem_live w') \<and> s3_world.more w' = s3_world.more w
         \<and> s3_objects (mw_s3 w') = (s3_objects (mw_s3 w))((b, k) \<mapsto> concat bs))
      (\<lambda>_ w'. passes (redis_view mw_now mem_live w) (redis_view mw_now mem_live w') \<and> s3_world.more w' = s3_world.more w
         \<and> s3_objects (mw_s3 w') \<in> {s3_objects (mw_s3 w), (s3_objects (mw_s3 w))((b, k) \<mapsto> concat bs)}) w"
    using named_parts_map [of parts ps bs] by (simp add: mem_s3_def wp_run_s3 Let_def mem_refl)
qed (simp_all add: mem_s3_def wp_run_s3 wp_ret Let_def mem_refl missing_key_def)

end
