(* ===== verification/Storage_Client.thy ===== *)
theory Storage_Client
  imports S3_Client Settings
begin

text \<open>
  \<open>src/infrastructure/s3/storage_client.py\<close>: \<open>S3StorageClient\<close>. \<open>assemble\<close> is \<open>assemble_file\<close>; its \<open>try\<close>
  block is split where \<open>upload_id\<close> is assigned, so that the handlers know it. \<open>asyncio.gather\<close> of the
  part uploads is modelled as the uploads one after the other, in the order of the parts, stopping
  at the first that raises. The locale \<open>storage_client\<close> is the contract of \<open>IStorageClient\<close>:
  \<open>assemble_wp\<close> proves it for every S3 server that behaves as documented.
\<close>

section \<open>The class\<close>

record S3StorageClient =
  sc_endpoint :: string
  sc_bucket :: string
  sc_access_key :: string
  sc_secret_key :: string
  sc_use_ssl :: bool
  sc_region :: string
  sc_server_side_encryption :: bool

definition mk_S3StorageClient :: "AppSettings \<Rightarrow> exn + S3StorageClient" where
  "mk_S3StorageClient st =
     andThen (check (minio_endpoint st \<noteq> []) (ValueError ''minio_endpoint is required'')) (\<lambda>_.
     andThen (check (s3_bucket_name st \<noteq> []) (ValueError ''s3_bucket_name is required'')) (\<lambda>_.
     andThen (check (minio_root_user st \<noteq> []) (ValueError ''minio_root_user is required'')) (\<lambda>_.
     andThen (check (minio_root_password st \<noteq> []) (ValueError ''minio_root_password is required'')) (\<lambda>_.
     Inr \<lparr>sc_endpoint = minio_endpoint st, sc_bucket = s3_bucket_name st, sc_access_key = minio_root_user st,
       sc_secret_key = minio_root_password st, sc_use_ssl = s3_use_ssl st, sc_region = s3_region st,
       sc_server_side_encryption = s3_server_side_encryption st\<rparr>))))"

fun reply_len :: "reply \<Rightarrow> nat" where
  "reply_len (RBytes b) = length b"
| "reply_len (RStr s) = length s"

definition validate_chunk_data :: "reply list \<Rightarrow> exn + unit" where
  "validate_chunk_data chunks =
     andThen (check (chunks \<noteq> []) (ValueError ''chunk_data cannot be empty'')) (\<lambda>_.
     andThen (check (list_all (\<lambda>c. reply_len c \<noteq> 0) chunks)
       (ValueError ''chunk_data contains zero-length chunks'')) (\<lambda>_.
     check (length chunks \<le> 10000)
       (ValueError (''chunk_data has '' @ str_nat (length chunks)
          @ '' chunks, exceeds S3 multipart limit of 10,000 parts''))))"

definition validate_checksum_format :: "SHA256Hash \<Rightarrow> exn + unit" where
  "validate_checksum_format h =
     check (match_hex64 (hash_value h))
       (ValueError (''Invalid checksum format: expected 64-character lowercase hex, got '' @ hash_value h))"

text \<open>The single pass that hashes the chunks and adds up their lengths; \<open>hasher.update\<close> refuses text.\<close>

fun bytes_of :: "reply \<Rightarrow> exn + bytes" where
  "bytes_of (RBytes b) = Inr b"
| "bytes_of (RStr s) = Inl (TypeError ''Strings must be encoded before hashing'')"

definition s3_object_key :: "uuid \<Rightarrow> uuid \<Rightarrow> string" where
  "s3_object_key ws fid = ''workspace_'' @ uuid_str ws @ ''/'' @ uuid_str fid @ ''.pdf''"

definition check_file_exists :: "'w s3_client \<Rightarrow> S3StorageClient \<Rightarrow> string \<Rightarrow> uuid \<Rightarrow> ('w, unit) io" where
  "check_file_exists C c key fid =
     catch
       (bnd (head_object C (sc_bucket c) key) (\<lambda>_.
        raise (IntegrityError (''File already exists at '' @ key) None None fid)))
       (\<lambda>e. if is_missing e then ret () else raise e)"

definition get_upload_id :: "string option \<Rightarrow> string \<Rightarrow> exn + string" where
  "get_upload_id r key = (case r of
     Some (c # u) \<Rightarrow> Inr (c # u)
   | _ \<Rightarrow> Inl (InfrastructureError (''S3 create_multipart_upload response missing UploadId for '' @ key)))"

definition upload_one_part ::
  "'w s3_client \<Rightarrow> S3StorageClient \<Rightarrow> string \<Rightarrow> string \<Rightarrow> nat \<times> bytes \<Rightarrow> ('w, nat \<times> string) io" where
  "upload_one_part C c key u = (\<lambda>(n, chunk).
     bnd (upload_part C (sc_bucket c) key u n chunk) (\<lambda>etag. case etag of
       Some (x # xs) \<Rightarrow> ret (n, x # xs)
     | _ \<Rightarrow> raise (InfrastructureError (''S3 upload_part response missing ETag for '' @ key @ '' part ''
              @ str_nat n))))"

definition abort_multipart ::
  "'w s3_client \<Rightarrow> S3StorageClient \<Rightarrow> string \<Rightarrow> string option \<Rightarrow> ('w, unit) io" where
  "abort_multipart C c key upload_id = (case upload_id of
     None \<Rightarrow> ret ()
   | Some u \<Rightarrow> catch (s3_abort_multipart_upload C (sc_bucket c) key u)
                (\<lambda>e. if is_Exception e then ret () else raise e))"

fun format_boto_error :: "S3StorageClient \<Rightarrow> exn \<Rightarrow> string" where
  "format_boto_error c (ClientError k m) =
     (if k = ''NoSuchBucket''
        then ''S3 bucket '' @ [CHR 0x27] @ sc_bucket c @ [CHR 0x27] @ '' does not exist. Please create it first.''
      else if k = ''InvalidAccessKeyId'' \<or> k = ''SignatureDoesNotMatch''
        then ''Invalid S3 credentials: '' @ k
      else k @ '': '' @ m)"
| "format_boto_error c e = exn_str e"

fun is_boto_error :: "exn \<Rightarrow> bool" where
  "is_boto_error (ClientError c m) = True"
| "is_boto_error (BotoCoreError m) = True"
| "is_boto_error _ = False"

fun is_IntegrityError :: "exn \<Rightarrow> bool" where
  "is_IntegrityError (IntegrityError m e c f) = True"
| "is_IntegrityError _ = False"

definition assembly_failed ::
  "'w s3_client \<Rightarrow> S3StorageClient \<Rightarrow> string \<Rightarrow> string option \<Rightarrow> exn \<Rightarrow> ('w, 'a) io" where
  "assembly_failed C c key upload_id e =
     (if is_IntegrityError e then raise e
      else if is_boto_error e
        then bnd (abort_multipart C c key upload_id) (\<lambda>_.
             raise (InfrastructureError (''S3 file assembly failed for '' @ key @ '': '' @ format_boto_error c e)))
      else if is_Exception e
        then bnd (abort_multipart C c key upload_id) (\<lambda>_.
             raise (InfrastructureError (''Unexpected error during file assembly for '' @ key @ '': '' @ exn_str e)))
      else raise e)"

definition reject_corrupt ::
  "'w s3_client \<Rightarrow> S3StorageClient \<Rightarrow> string \<Rightarrow> uuid \<Rightarrow> string \<Rightarrow> string \<Rightarrow> ('w, 'a) io" where
  "reject_corrupt C c key fid expected computed =
     bnd (catch (delete_object C (sc_bucket c) key) (\<lambda>e. if is_Exception e then ret () else raise e)) (\<lambda>_.
     raise (IntegrityError (''Assembled file checksum mismatch for '' @ key) (Some expected) (Some computed) fid))"

definition start_upload :: "'w s3_client \<Rightarrow> S3StorageClient \<Rightarrow> string \<Rightarrow> uuid \<Rightarrow> ('w, string) io" where
  "start_upload C c key fid =
     bnd (check_file_exists C c key fid) (\<lambda>_.
     bnd (create_multipart_upload C (sc_bucket c) key
            (if sc_server_side_encryption c then Some ''AES256'' else None)) (\<lambda>response.
     lift (get_upload_id response key)))"

definition upload_all ::
  "'w s3_client \<Rightarrow> S3StorageClient \<Rightarrow> string \<Rightarrow> uuid \<Rightarrow> string \<Rightarrow> bytes list \<Rightarrow> SHA256Hash \<Rightarrow> ('w, string \<times> int) io" where
  "upload_all C c key fid upload_id chunks expected =
     bnd (mapM (upload_one_part C c key upload_id) (zip [1..<Suc (length chunks)] chunks)) (\<lambda>parts.
     bnd (complete_multipart_upload C (sc_bucket c) key upload_id parts) (\<lambda>_.
     if sha256_hex (concat chunks) \<noteq> hash_value expected
     then reject_corrupt C c key fid (hash_value expected) (sha256_hex (concat chunks))
     else ret (''s3://'' @ sc_bucket c @ ''/'' @ key, int (length (concat chunks)))))"

definition assemble ::
  "'w s3_client \<Rightarrow> S3StorageClient \<Rightarrow> uuid \<Rightarrow> uuid \<Rightarrow> reply list \<Rightarrow> SHA256Hash \<Rightarrow> ('w, string \<times> int) io" where
  "assemble C c ws fid chunk_data expected =
     bnd (lift (validate_chunk_data chunk_data)) (\<lambda>_.
     bnd (lift (validate_checksum_format expected)) (\<lambda>_.
     let key = s3_object_key ws fid in
     bnd (lift (mapR bytes_of chunk_data)) (\<lambda>chunks.
     bnd (s3_open C [sc_endpoint c, sc_access_key c, sc_secret_key c, sc_region c] (sc_use_ssl c)) (\<lambda>_.
     bnd (catch (start_upload C c key fid) (assembly_failed C c key None)) (\<lambda>upload_id.
     catch (upload_all C c key fid upload_id chunks expected) (assembly_failed C c key (Some upload_id)))))))"

definition s3_path_of :: "S3StorageClient \<Rightarrow> uuid \<Rightarrow> uuid \<Rightarrow> string" where
  "s3_path_of c ws fid = ''s3://'' @ sc_bucket c @ ''/'' @ s3_object_key ws fid"

definition mk_storage_client :: "'w s3_client \<Rightarrow> S3StorageClient \<Rightarrow> 'w IStorageClient" where
  "mk_storage_client C c = \<lparr>assemble_file = assemble C c\<rparr>"

section \<open>The contract\<close>

text \<open>\<open>files\<close> are the objects of the store, \<open>loc\<close> where the file of a session belongs, \<open>path\<close> its name.\<close>

definition assembled :: "'k \<Rightarrow> string \<Rightarrow> reply list \<Rightarrow> SHA256Hash \<Rightarrow> string \<times> int \<Rightarrow> ('k \<Rightarrow> bytes option)
    \<Rightarrow> ('k \<Rightarrow> bytes option) \<Rightarrow> bool" where
  "assembled k p chunks h r f f' = (\<exists>bs. mapR bytes_of chunks = Inr bs \<and> bs \<noteq> [] \<and> [] \<notin> set bs \<and> f k = None
     \<and> f' = f(k \<mapsto> concat bs) \<and> sha256_hex (concat bs) = hash_value h \<and> r = (p, int (length (concat bs))))"

text \<open>A failed assembly never touches an existing file; it may leave the object it wrote.\<close>

definition not_assembled :: "'k \<Rightarrow> reply list \<Rightarrow> ('k \<Rightarrow> bytes option) \<Rightarrow> ('k \<Rightarrow> bytes option) \<Rightarrow> bool" where
  "not_assembled k chunks f f' = (f' = f \<or> f k = None \<and> (\<exists>bs. mapR bytes_of chunks = Inr bs \<and> f' = f(k \<mapsto> concat bs)))"

locale storage_client =
  fixes St :: "'w IStorageClient"
    and loc :: "uuid \<Rightarrow> uuid \<Rightarrow> 'k"
    and path :: "uuid \<Rightarrow> uuid \<Rightarrow> string"
    and files :: "'w \<Rightarrow> 'k \<Rightarrow> bytes option"
    and view :: "'w \<Rightarrow> store"
    and other :: "'w \<Rightarrow> 'o"
  assumes assembles: "wp (assemble_file St ws fid chunks h)
      (\<lambda>r w'. passes (view w) (view w') \<and> other w' = other w
         \<and> assembled (loc ws fid) (path ws fid) chunks h r (files w) (files w'))
      (\<lambda>e w'. passes (view w) (view w') \<and> other w' = other w \<and> not_assembled (loc ws fid) chunks (files w) (files w')) w"
    and path_scheme: "starts_with ''s3://'' (path ws fid)"
    and path_workspace: "str_contains (''/workspace_'' @ uuid_str ws @ ''/'') (path ws fid)"
    and path_file: "str_contains (uuid_str fid) (path ws fid)"

section \<open>On an S3 server\<close>

lemma is_Exception_boto [simp]: "is_boto_error e \<Longrightarrow> is_Exception e"
  by (cases e) simp_all

context s3_server
begin

definition quiet :: "'w \<Rightarrow> 'w \<Rightarrow> bool" where
  "quiet w w' = (passes (view w) (view w') \<and> other w' = other w)"

lemma quiet_refl [simp]: "quiet w w"
  by (simp add: quiet_def settled)

lemma quiet_trans [trans]: "quiet w w1 \<Longrightarrow> quiet w1 w2 \<Longrightarrow> quiet w w2"
  unfolding quiet_def using passes_trans by metis

lemma abort_part_wp: "wp (abort_multipart C c key uid)
    (\<lambda>_ w'. quiet w w' \<and> s3_objects (s3 w') = s3_objects (s3 w))
    (\<lambda>_ w'. quiet w w' \<and> s3_objects (s3 w') = s3_objects (s3 w)) w"
proof (cases uid)
  case (Some u)
  show ?thesis
    unfolding abort_multipart_def Some option.case wp_catch
    by (rule wp_use [OF abort_upload]) (auto simp: wp_if wp_ret wp_raise quiet_def)
qed (simp add: abort_multipart_def wp_ret)

lemma assembly_failed_wp: "wp (assembly_failed C c key uid e) (\<lambda>_ _. False)
    (\<lambda>_ w'. quiet w w' \<and> s3_objects (s3 w') = s3_objects (s3 w)) w"
  by (auto simp: assembly_failed_def wp_bnd wp_raise intro!: wp_use [OF abort_part_wp])

lemma one_part_wp:
  "wp (upload_one_part C c key u (n, ch))
     (\<lambda>p w'. quiet w w' \<and> s3_objects (s3 w') = s3_objects (s3 w)
        \<and> (\<exists>etag. p = (n, etag) \<and> s3 w' = set_part u n ch etag (s3 w)))
     (\<lambda>_ w'. quiet w w' \<and> s3_objects (s3 w') = s3_objects (s3 w)) w"
  unfolding upload_one_part_def prod.case wp_bnd
proof (rule wp_use [OF part], goal_cases)
  case (1 r w')
  then show ?case
    by (cases r rule: option.exhaust; cases "the r") (simp_all add: wp_ret wp_raise quiet_def)
next
  case (2 e w')
  then show ?case by (simp add: quiet_def)
qed

lemma parts_wp:
  assumes "s3_uploads (s3 w) u = Some ((sc_bucket c, key), parts0)" and "distinct (map fst xs)"
  shows "wp (mapM (upload_one_part C c key u) xs)
     (\<lambda>ps w'. quiet w w' \<and> s3_objects (s3 w') = s3_objects (s3 w) \<and> (\<exists>parts.
        s3_uploads (s3 w') u = Some ((sc_bucket c, key), parts) \<and> named_parts parts ps (map snd xs)
        \<and> (\<forall>n. n \<notin> fst ` set xs \<longrightarrow> parts n = parts0 n)))
     (\<lambda>_ w'. quiet w w' \<and> s3_objects (s3 w') = s3_objects (s3 w)) w"
  using assms
proof (induction xs arbitrary: w parts0)
  case Nil
  then show ?case by (simp add: wp_ret named_parts_def)
next
  case (Cons x xs)
  obtain n ch where x: "x = (n, ch)" by fastforce
  have rest: "distinct (map fst xs)" "n \<notin> fst ` set xs" using Cons.prems(2) x by auto
  show ?case
    unfolding mapM.simps wp_bnd x
  proof (rule wp_use [OF one_part_wp], goal_cases)
    case (1 p w1)
    then obtain etag where p: "p = (n, etag)" "s3 w1 = set_part u n ch etag (s3 w)" by blast
    have q: "quiet w w1" "s3_objects (s3 w1) = s3_objects (s3 w)" using 1 by blast+
    have up: "s3_uploads (s3 w1) u = Some ((sc_bucket c, key), parts0(n \<mapsto> (ch, etag)))"
      using Cons.prems(1) by (simp add: p(2) set_part_def)
    show ?case
    proof (rule wp_use [OF Cons.IH [OF up rest(1)]], goal_cases)
      case (1 ys w')
      then obtain parts where parts: "s3_uploads (s3 w') u = Some ((sc_bucket c, key), parts)"
        "named_parts parts ys (map snd xs)" "\<forall>m. m \<notin> fst ` set xs \<longrightarrow> parts m = (parts0(n \<mapsto> (ch, etag))) m" by blast
      then have "parts n = Some (ch, etag)" using rest(2) by simp
      then have "named_parts parts ((n, etag) # ys) (map snd (x # xs))"
        using parts(2) x by (simp add: named_parts_def)
      moreover have "\<forall>m. m \<notin> fst ` set (x # xs) \<longrightarrow> parts m = parts0 m" using parts(3) x by simp
      ultimately show ?case
        using 1 q(2) quiet_trans [OF q(1)] parts(1) x by (auto simp: wp_ret p)
    next
      case (2 e w')
      then show ?case using q(2) quiet_trans [OF q(1)] by auto
    qed
  next
    case (2 e w')
    then show ?case by blast
  qed
qed

lemma check_file_exists_wp:
  "wp (check_file_exists C c key fid)
     (\<lambda>_ w'. quiet w w' \<and> s3 w' = s3 w \<and> s3_objects (s3 w) (sc_bucket c, key) = None)
     (\<lambda>_ w'. quiet w w' \<and> s3 w' = s3 w) w"
  unfolding check_file_exists_def wp_catch wp_bnd
  by (rule wp_use [OF head]) (auto simp: wp_if wp_ret wp_raise quiet_def)

lemma start_wp:
  "wp (start_upload C c key fid)
     (\<lambda>u w'. quiet w w' \<and> s3_objects (s3 w') = s3_objects (s3 w) \<and> s3_objects (s3 w) (sc_bucket c, key) = None
        \<and> s3_uploads (s3 w') u = Some ((sc_bucket c, key), Map.empty))
     (\<lambda>_ w'. quiet w w' \<and> s3_objects (s3 w') = s3_objects (s3 w)) w"
  unfolding start_upload_def wp_bnd
proof (rule wp_use [OF check_file_exists_wp], goal_cases)
  case w1: (1 _ w1)
  show ?case
  proof (rule wp_use [OF create_upload], goal_cases)
    case (1 r w')
    then have "quiet w w'" using w1 quiet_trans [of w w1 w'] by (simp add: quiet_def)
    with 1 w1 show ?case by (auto simp: wp_lift get_upload_id_def split: option.splits list.splits sum.splits)
  next
    case (2 e w')
    then have "quiet w w'" using w1 quiet_trans [of w w1 w'] by (simp add: quiet_def)
    with 2 w1 show ?case by simp
  qed
qed simp

lemma reject_corrupt_wp:
  "wp (reject_corrupt C c key fid h1 h2) (\<lambda>_ _. False)
     (\<lambda>_ w'. quiet w w' \<and> s3_objects (s3 w') \<in> {s3_objects (s3 w), (s3_objects (s3 w))((sc_bucket c, key) := None)}) w"
  unfolding reject_corrupt_def wp_bnd wp_catch wp_fun(2)
  by (rule wp_use [OF delete_obj]) (auto simp: wp_if wp_ret wp_raise quiet_def)

lemma finish_wp:
  assumes up: "s3_uploads (s3 w) u = Some ((sc_bucket c, key), Map.empty)"
    and new: "s3_objects (s3 w) (sc_bucket c, key) = None"
  shows "wp (upload_all C c key fid u bs h)
     (\<lambda>x w'. quiet w w' \<and> x = (''s3://'' @ sc_bucket c @ ''/'' @ key, int (length (concat bs)))
        \<and> sha256_hex (concat bs) = hash_value h
        \<and> s3_objects (s3 w') = (s3_objects (s3 w))((sc_bucket c, key) \<mapsto> concat bs))
     (\<lambda>_ w'. quiet w w' \<and> s3_objects (s3 w') \<in> {s3_objects (s3 w), (s3_objects (s3 w))((sc_bucket c, key) \<mapsto> concat bs)}) w"
    (is "wp _ ?Q ?E w")
  unfolding upload_all_def wp_bnd
proof (rule wp_use [OF parts_wp [OF up]], goal_cases)
  case 1
  show ?case by simp
next
  case w1: (2 ps w1)
  have snds: "map snd (zip [1..<Suc (length bs)] bs) = bs" by (simp del: upt_Suc)
  from w1 obtain parts where parts: "s3_uploads (s3 w1) u = Some ((sc_bucket c, key), parts)" "named_parts parts ps bs"
    unfolding snds by blast
  have q: "quiet w w1" "s3_objects (s3 w1) = s3_objects (s3 w)" using w1 by blast+
  have undo: "f(k := None) = f" if "f k = None" for f :: "'k \<Rightarrow> 'v option" and k
    using that by auto
  show ?case
  proof (rule wp_use [OF complete [OF parts]], goal_cases)
    case (1 _ w2)
    then have w2: "quiet w w2" "s3_objects (s3 w2) = (s3_objects (s3 w))((sc_bucket c, key) \<mapsto> concat bs)"
      using q quiet_trans [of w w1 w2] by (simp_all add: quiet_def)
    show ?case
    proof (cases "sha256_hex (concat bs) = hash_value h")
      case True
      then show ?thesis using w2 by (simp add: wp_ret)
    next
      case False
      have "wp (reject_corrupt C c key fid (hash_value h) (sha256_hex (concat bs))) ?Q ?E w2"
        by (rule wp_use [OF reject_corrupt_wp])
          (use w2 quiet_trans [of w w2] undo [of "s3_objects (s3 w)", OF new] in auto)
      with False show ?thesis by simp
    qed
  next
    case (2 e w2)
    then show ?case using q quiet_trans [of w w1 w2] by (auto simp: quiet_def)
  qed
next
  case (3 e w')
  then show ?case by blast
qed

lemma mapR_bytes_of: "mapR bytes_of chunks = Inr bs \<Longrightarrow> chunks = map RBytes bs"
proof (induction chunks arbitrary: bs)
  case (Cons a chunks)
  then show ?case by (cases a) auto
qed simp

text \<open>After the checks.\<close>

lemma assemble_valid:
  assumes v: "validate_chunk_data chunks = Inr ()" "validate_checksum_format h = Inr ()" and bs: "mapR bytes_of chunks = Inr bs"
  shows "assemble C c ws fid chunks h =
      bnd (s3_open C [sc_endpoint c, sc_access_key c, sc_secret_key c, sc_region c] (sc_use_ssl c)) (\<lambda>_.
      bnd (catch (start_upload C c (s3_object_key ws fid) fid) (assembly_failed C c (s3_object_key ws fid) None)) (\<lambda>upload_id.
      catch (upload_all C c (s3_object_key ws fid) fid upload_id bs h) (assembly_failed C c (s3_object_key ws fid) (Some upload_id))))"
    and "bs \<noteq> []" and "[] \<notin> set bs"
  using assms mapR_bytes_of [OF bs] by (auto simp: assemble_def Let_def validate_chunk_data_def list_all_iff)

lemma assemble_wp:
  "wp (assemble C c ws fid chunks h)
     (\<lambda>r w'. quiet w w' \<and> assembled (sc_bucket c, s3_object_key ws fid)
        (''s3://'' @ sc_bucket c @ ''/'' @ s3_object_key ws fid) chunks h r (s3_objects (s3 w)) (s3_objects (s3 w')))
     (\<lambda>e w'. quiet w w' \<and> not_assembled (sc_bucket c, s3_object_key ws fid) chunks (s3_objects (s3 w)) (s3_objects (s3 w'))) w"
    (is "wp _ ?Q ?E w")
proof -
  let ?key = "s3_object_key ws fid" and ?f = "s3_objects (s3 w)"
  let ?k = "(sc_bucket c, ?key)"
  have unchanged: "?E e w'" if "quiet w w' \<and> s3_objects (s3 w') = ?f" for e w'
    using that by (simp add: not_assembled_def)
  show ?thesis
  proof (cases "validate_chunk_data chunks = Inr () \<and> validate_checksum_format h = Inr () \<and> (\<exists>bs. mapR bytes_of chunks = Inr bs)")
    case False
    then show ?thesis
      by (cases "validate_chunk_data chunks"; cases "validate_checksum_format h"; cases "mapR bytes_of chunks")
        (auto simp: assemble_def Let_def wp_rules not_assembled_def)
  next
    case True
    then obtain bs where v: "validate_chunk_data chunks = Inr ()" "validate_checksum_format h = Inr ()"
      and bs: "mapR bytes_of chunks = Inr bs" by blast
    note run = assemble_valid(1) [OF v bs] and bs_ok = assemble_valid(2,3) [OF v bs]
    have fail: "wp (assembly_failed C c ?key uid e) Q ?E w2"
      if "quiet w w2" "not_assembled ?k chunks ?f (s3_objects (s3 w2))" for uid e w2 and Q :: "'b \<Rightarrow> 'w \<Rightarrow> bool"
      by (rule wp_use [OF assembly_failed_wp]) (use that quiet_trans [of w w2] in auto)
    show ?thesis
      unfolding run wp_bnd
    proof (rule wp_use [OF opens], goal_cases)
      case w1: (1 _ w1)
      then have q1: "quiet w w1" "s3_objects (s3 w1) = ?f" by (simp_all add: quiet_def)
      show ?case
        unfolding wp_catch
      proof (rule wp_use [OF start_wp], goal_cases)
        case w2: (1 u w2)
        then have q2: "quiet w w2" "s3_objects (s3 w2) = ?f" "?f ?k = None" "s3_uploads (s3 w2) u = Some (?k, Map.empty)"
          using q1 quiet_trans [of w w1 w2] by auto
        have new: "s3_objects (s3 w2) ?k = None" using q2 by simp
        show ?case
        proof (rule wp_use [OF finish_wp [OF q2(4) new]], goal_cases)
          case (1 x w')
          then show ?case using q2 bs bs_ok quiet_trans [of w w2 w'] by (auto simp: assembled_def)
        next
          case (2 e w')
          then show ?case
            by (intro fail) (use q2 bs quiet_trans [of w w2 w'] in \<open>auto simp: not_assembled_def\<close>)
        qed
      next
        case (2 e w2)
        then show ?case
          by (intro fail) (use q1 quiet_trans [of w w1 w2] in \<open>auto simp: not_assembled_def\<close>)
      qed
    next
      case (2 e w1)
      then show ?case by (simp add: quiet_def not_assembled_def)
    qed
  qed
qed

end

text \<open>The client with its configuration is a storage client.\<close>

locale s3_storage = s3_server C s3 view other
  for C :: "'w s3_client" and s3 :: "'w \<Rightarrow> s3_state" and view :: "'w \<Rightarrow> store" and other :: "'w \<Rightarrow> 'o" +
  fixes config :: S3StorageClient

sublocale s3_storage \<subseteq> files: storage_client "mk_storage_client C config"
    "\<lambda>ws fid. (sc_bucket config, s3_object_key ws fid)" "s3_path_of config" "\<lambda>w. s3_objects (s3 w)" view other
proof unfold_locales
  fix ws fid :: uuid
  have "s3_path_of config ws fid = (''s3://'' @ sc_bucket config) @ (''/workspace_'' @ uuid_str ws @ ''/'') @ uuid_str fid @ ''.pdf''"
    by (simp add: s3_path_of_def s3_object_key_def)
  then show "str_contains (''/workspace_'' @ uuid_str ws @ ''/'') (s3_path_of config ws fid)" by (metis str_contains_middle)
  have "s3_path_of config ws fid
      = (''s3://'' @ sc_bucket config @ ''/workspace_'' @ uuid_str ws @ ''/'') @ uuid_str fid @ ''.pdf''"
    by (simp add: s3_path_of_def s3_object_key_def)
  then show "str_contains (uuid_str fid) (s3_path_of config ws fid)" by (metis str_contains_middle)
  show "starts_with ''s3://'' (s3_path_of config ws fid)" by (auto simp: s3_path_of_def starts_with_def)
next
  fix ws fid chunks h w
  show "wp (assemble_file (mk_storage_client C config) ws fid chunks h)
      (\<lambda>r w'. passes (view w) (view w') \<and> other w' = other w
         \<and> assembled (sc_bucket config, s3_object_key ws fid) (s3_path_of config ws fid) chunks h r
             (s3_objects (s3 w)) (s3_objects (s3 w')))
      (\<lambda>e w'. passes (view w) (view w') \<and> other w' = other w
         \<and> not_assembled (sc_bucket config, s3_object_key ws fid) chunks (s3_objects (s3 w)) (s3_objects (s3 w'))) w"
    unfolding mk_storage_client_def s3_path_of_def IStorageClient.simps
    by (rule wp_use [OF assemble_wp]) (auto simp: quiet_def)
qed

context s3_storage
begin

lemmas assembles = files.assembles

end

definition sample_s3_config :: S3StorageClient where
  "sample_s3_config = \<lparr>sc_endpoint = ''minio:9000'', sc_bucket = ''uploads'', sc_access_key = ''key'',
     sc_secret_key = ''secret'', sc_use_ssl = False, sc_region = ''us-east-1'', sc_server_side_encryption = True\<rparr>"

interpretation mem_storage: s3_storage mem_s3 mw_s3 "redis_view mw_now mem_live" s3_world.more sample_s3_config
  by unfold_locales

end
