(* ===== verification/Events.thy ===== *)
theory Events
  imports Serialization
begin

text \<open>
  \<open>src/domain/entities/events.py\<close>: \<open>FileLoadCompletedEvent\<close>, its checks and its JSON form, and
  \<open>src/domain/protocols/event_publisher.py\<close>: \<open>IEventPublisher\<close> with its contract, the locale
  \<open>event_publisher\<close>. The contract speaks about \<open>sent\<close>, the payloads the receiving side has accepted:
  a publication that returns was accepted at least once, one that raises may have been, and never more
  often than \<open>most\<close> times. The type checks of \<open>__post_init__\<close> are the static types of the record.
\<close>

section \<open>The event\<close>

record FileLoadCompletedEvent =
  ev_file_id :: uuid
  ev_workspace_id :: uuid
  ev_s3_path :: string
  ev_sha256_checksum :: SHA256Hash
  ev_size_bytes :: int
  ev_uploaded_at :: datetime
  ev_event_version :: string
  ev_event_type :: string
  ev_timestamp :: datetime

definition max_safe_json_integer :: int where
  "max_safe_json_integer = 9007199254740991"

definition workspace_segment :: "uuid \<Rightarrow> string" where
  "workspace_segment ws = ''/workspace_'' @ uuid_str ws @ ''/''"

definition FileLoadCompletedEvent_post_init :: "FileLoadCompletedEvent \<Rightarrow> exn + FileLoadCompletedEvent" where
  "FileLoadCompletedEvent_post_init ev =
     andThen (check (ev_event_version ev = ''1.0'')
       (ValueError (''event_version must be '' @ [CHR 0x27] @ ''1.0'' @ [CHR 0x27] @ '' for v1 events''))) (\<lambda>_.
     andThen (check (ev_event_type ev = ''FILE_LOAD_COMPLETED'')
       (ValueError (''event_type must be '' @ [CHR 0x27] @ ''FILE_LOAD_COMPLETED'' @ [CHR 0x27]))) (\<lambda>_.
     andThen (check (ev_file_id ev \<noteq> 0) (ValueError ''file_id cannot be nil UUID'')) (\<lambda>_.
     andThen (check (ev_workspace_id ev \<noteq> 0) (ValueError ''workspace_id cannot be nil UUID'')) (\<lambda>_.
     andThen (check (is_aware (ev_timestamp ev)) (ValueError ''timestamp must be timezone-aware'')) (\<lambda>_.
     andThen (check (is_aware (ev_uploaded_at ev)) (ValueError ''uploaded_at must be timezone-aware'')) (\<lambda>_.
     andThen (check (0 < ev_size_bytes ev) (ValueError ''size_bytes must be positive'')) (\<lambda>_.
     andThen (check (ev_size_bytes ev \<le> max_safe_json_integer)
       (ValueError (''size_bytes '' @ str_int (ev_size_bytes ev) @ '' exceeds safe JSON integer range''))) (\<lambda>_.
     andThen (check (match_hex64 (SHA256Hash_str (ev_sha256_checksum ev)))
       (ValueError (''sha256_checksum must be 64-character lowercase hex string, got: ''
          @ SHA256Hash_str (ev_sha256_checksum ev)))) (\<lambda>_.
     andThen (check (starts_with ''s3://'' (ev_s3_path ev))
       (ValueError (''s3_path must start with '' @ [CHR 0x27] @ ''s3://'' @ [CHR 0x27]))) (\<lambda>_.
     andThen (check (str_contains (workspace_segment (ev_workspace_id ev)) (ev_s3_path ev))
       (ValueError (''s3_path must contain workspace path segment: '' @ workspace_segment (ev_workspace_id ev)))) (\<lambda>_.
     andThen (check (str_contains (uuid_str (ev_file_id ev)) (ev_s3_path ev))
       (ValueError (''s3_path must contain file_id: '' @ uuid_str (ev_file_id ev)))) (\<lambda>_.
     andThen (check (instant (ev_uploaded_at ev) \<le> instant (ev_timestamp ev))
       (ValueError ''uploaded_at cannot be after timestamp (file cannot be uploaded in the future)'')) (\<lambda>_.
     Inr ev)))))))))))))"

text \<open>The class invariant.\<close>

definition event_ok :: "FileLoadCompletedEvent \<Rightarrow> bool" where
  "event_ok ev = (ev_event_version ev = ''1.0'' \<and> ev_event_type ev = ''FILE_LOAD_COMPLETED''
     \<and> ev_file_id ev \<noteq> 0 \<and> ev_workspace_id ev \<noteq> 0 \<and> is_aware (ev_timestamp ev) \<and> is_aware (ev_uploaded_at ev)
     \<and> 0 < ev_size_bytes ev \<and> ev_size_bytes ev \<le> max_safe_json_integer
     \<and> match_hex64 (hash_value (ev_sha256_checksum ev)) \<and> starts_with ''s3://'' (ev_s3_path ev)
     \<and> str_contains (workspace_segment (ev_workspace_id ev)) (ev_s3_path ev)
     \<and> str_contains (uuid_str (ev_file_id ev)) (ev_s3_path ev)
     \<and> instant (ev_uploaded_at ev) \<le> instant (ev_timestamp ev))"

lemma FileLoadCompletedEvent_post_init_iff:
  "FileLoadCompletedEvent_post_init ev = Inr ev' \<longleftrightarrow> ev' = ev \<and> event_ok ev"
  by (auto simp: FileLoadCompletedEvent_post_init_def event_ok_def SHA256Hash_str_def)

lemma FileLoadCompletedEvent_post_init_error:
  "FileLoadCompletedEvent_post_init ev = Inl e \<Longrightarrow> is_ValueError e"
  by (auto simp: FileLoadCompletedEvent_post_init_def andThen_eq_Inl)

definition subject_name :: "FileLoadCompletedEvent \<Rightarrow> string" where
  "subject_name ev = ''upload.file.load_completed''"

text \<open>\<open>d.astimezone(UTC)\<close> of an aware datetime; the others do not get past \<open>__post_init__\<close>.\<close>

definition astimezone_utc :: "datetime \<Rightarrow> exn + datetime" where
  "astimezone_utc d = (if 0 \<le> instant d \<and> instant d < int max_wall then Inr (to_utc d) else Inl OverflowError)"

definition event_to_dict :: "FileLoadCompletedEvent \<Rightarrow> exn + json" where
  "event_to_dict ev =
     andThen (astimezone_utc (ev_timestamp ev)) (\<lambda>timestamp_utc.
     andThen (astimezone_utc (ev_uploaded_at ev)) (\<lambda>uploaded_at_utc.
     Inr (JObj
       [(''eventVersion'', JStr (ev_event_version ev)),
        (''eventType'', JStr (ev_event_type ev)),
        (''timestamp'', JStr (isoformat timestamp_utc)),
        (''payload'', JObj
          [(''file_id'', JStr (uuid_str (ev_file_id ev))),
           (''workspace_id'', JStr (uuid_str (ev_workspace_id ev))),
           (''s3_path'', JStr (ev_s3_path ev)),
           (''sha256_checksum'', JStr (SHA256Hash_str (ev_sha256_checksum ev))),
           (''size_bytes'', JInt (ev_size_bytes ev)),
           (''uploaded_at'', JStr (isoformat uploaded_at_utc))])])))"

definition event_to_json :: "FileLoadCompletedEvent \<Rightarrow> exn + string" where
  "event_to_json ev = (case event_to_dict ev of
     Inr j \<Rightarrow> Inr (json_dumps j)
   | Inl e \<Rightarrow> Inl (SerializationError (''Failed to serialize FileLoadCompletedEvent to JSON: '' @ exn_str e)))"

text \<open>What a consumer reads back.\<close>

definition parse_event :: "json \<Rightarrow> exn + FileLoadCompletedEvent" where
  "parse_event j =
     andThen (andThen (json_item j ''eventVersion'') (json_str_method ''version'')) (\<lambda>version.
     andThen (andThen (json_item j ''eventType'') (json_str_method ''type'')) (\<lambda>type.
     andThen (andThen (andThen (json_item j ''timestamp'') (json_str_method ''timestamp'')) to_datetime) (\<lambda>timestamp.
     andThen (json_item j ''payload'') (\<lambda>p.
     andThen (andThen (json_item p ''file_id'') json_UUID) (\<lambda>fid.
     andThen (andThen (json_item p ''workspace_id'') json_UUID) (\<lambda>ws.
     andThen (andThen (json_item p ''s3_path'') (json_str_method ''s3_path'')) (\<lambda>path.
     andThen (andThen (andThen (json_item p ''sha256_checksum'') (json_str_method ''sha256'')) mk_SHA256Hash) (\<lambda>h.
     andThen (andThen (json_item p ''size_bytes'') json_number) (\<lambda>n.
     andThen (andThen (andThen (json_item p ''uploaded_at'') (json_str_method ''uploaded_at'')) to_datetime) (\<lambda>at.
     FileLoadCompletedEvent_post_init \<lparr>ev_file_id = fid, ev_workspace_id = ws, ev_s3_path = path,
       ev_sha256_checksum = h, ev_size_bytes = n, ev_uploaded_at = at, ev_event_version = version,
       ev_event_type = type, ev_timestamp = timestamp\<rparr>))))))))))"

section \<open>Round trip\<close>

text \<open>The event with its times in UTC.\<close>

definition event_in_utc :: "FileLoadCompletedEvent \<Rightarrow> FileLoadCompletedEvent" where
  "event_in_utc ev = ev\<lparr>ev_uploaded_at := to_utc (ev_uploaded_at ev), ev_timestamp := to_utc (ev_timestamp ev)\<rparr>"

lemma astimezone_utc_Inr:
  "astimezone_utc d = Inr d' \<Longrightarrow> d' = to_utc d \<and> valid_datetime d' \<and> instant d' = instant d"
  by (auto simp: astimezone_utc_def to_utc_def valid_datetime_def instant_def nat_less_iff split: if_splits)

lemma event_json_ok: "event_to_dict ev = Inr j \<Longrightarrow> json_ok j"
  by (auto simp: event_to_dict_def)

lemma event_roundtrip:
  assumes ok: "event_ok ev" and h: "valid_hash (ev_sha256_checksum ev)" and j: "event_to_json ev = Inr s"
  shows "andThen (to_json s) parse_event = Inr (event_in_utc ev)"
proof -
  from j obtain t u where t: "astimezone_utc (ev_timestamp ev) = Inr t" and u: "astimezone_utc (ev_uploaded_at ev) = Inr u"
    by (auto simp: event_to_json_def event_to_dict_def split: sum.splits)
  obtain d where d: "event_to_dict ev = Inr d" using t u by (simp add: event_to_dict_def)
  have s: "to_json s = Inr d"
    using j to_json_dumps [OF event_json_ok [OF d]] by (simp add: event_to_json_def d)
  note times = astimezone_utc_Inr [OF t] astimezone_utc_Inr [OF u]
  have "event_ok (event_in_utc ev)"
    using ok times by (auto simp: event_ok_def event_in_utc_def is_aware_def) (simp_all add: to_utc_def)
  moreover have "d = JObj
       [(''eventVersion'', JStr (ev_event_version ev)), (''eventType'', JStr (ev_event_type ev)),
        (''timestamp'', JStr (isoformat t)),
        (''payload'', JObj
          [(''file_id'', JStr (uuid_str (ev_file_id ev))), (''workspace_id'', JStr (uuid_str (ev_workspace_id ev))),
           (''s3_path'', JStr (ev_s3_path ev)), (''sha256_checksum'', JStr (SHA256Hash_str (ev_sha256_checksum ev))),
           (''size_bytes'', JInt (ev_size_bytes ev)), (''uploaded_at'', JStr (isoformat u))])]"
    using d by (simp add: event_to_dict_def t u)
  moreover have "to_datetime (isoformat (to_utc (ev_timestamp ev))) = Inr (to_utc (ev_timestamp ev))"
    "to_datetime (isoformat (to_utc (ev_uploaded_at ev))) = Inr (to_utc (ev_uploaded_at ev))"
    using times to_datetime_isoformat by auto
  ultimately show ?thesis
    using h times
    by (cases ev) (simp add: s parse_event_def json_item_def json_str_method_def json_UUID_def json_number_def
        SHA256Hash_str_def FileLoadCompletedEvent_post_init_iff event_in_utc_def)
qed

section \<open>The interface\<close>

record 'w IEventPublisher =
  publish :: "FileLoadCompletedEvent \<Rightarrow> ('w, unit) io"

text \<open>The bytes on the wire, and \<open>n\<close> more copies of them.\<close>

definition wire :: "FileLoadCompletedEvent \<Rightarrow> bytes" where
  "wire ev = (case event_to_json ev of Inr s \<Rightarrow> utf8_encode s | Inl _ \<Rightarrow> [])"

definition delivered :: "FileLoadCompletedEvent \<Rightarrow> nat \<Rightarrow> bytes list \<Rightarrow> bytes list \<Rightarrow> bool" where
  "delivered ev n l l' = (l' = l @ replicate n (wire ev) \<and> (n = 0 \<or> (\<exists>s. event_to_json ev = Inr s)))"

lemma delivered_0 [simp]: "delivered ev 0 l l' \<longleftrightarrow> l' = l"
  by (simp add: delivered_def)

lemma delivered_trans: "delivered ev n l l1 \<Longrightarrow> delivered ev m l1 l2 \<Longrightarrow> delivered ev (n + m) l l2"
  by (auto simp: delivered_def replicate_add)

locale event_publisher =
  fixes P :: "'w IEventPublisher"
    and most :: nat
    and sent :: "'w \<Rightarrow> bytes list"
    and view :: "'w \<Rightarrow> store"
    and other :: "'w \<Rightarrow> 'o"
  assumes publishes: "event_ok ev \<Longrightarrow> wp (publish P ev)
      (\<lambda>_ w'. passes (view w) (view w') \<and> other w' = other w
         \<and> (\<exists>n. 1 \<le> n \<and> n \<le> most \<and> delivered ev n (sent w) (sent w')))
      (\<lambda>e w'. passes (view w) (view w') \<and> other w' = other w
         \<and> (is_InfrastructureError e \<or> \<not> is_Exception e)
         \<and> (\<exists>n. n \<le> most \<and> delivered ev n (sent w) (sent w'))) w"

end
