(* ===== verification/Event_Retry.thy ===== *)
theory Event_Retry
  imports Events
begin

text \<open>
  \<open>src/infrastructure/nats/event_publisher_with_retry.py\<close>: \<open>EventPublisherWithRetry\<close> tries a publisher up to
  \<open>max_retry_attempts\<close> times with delays of 1, 2, 4, \<dots> seconds, then writes the event to a dead
  letter queue in Redis, with up to three attempts of its own, and raises. \<open>asyncio.sleep\<close> is the
  parameter \<open>sleep\<close>, in milliseconds: time passes, and the task may be cancelled. \<open>retry_wp\<close> shows that
  a publisher wrapped so keeps the contract, with \<open>max_retry_attempts\<close> times as many copies, and
  that it raises \<open>publish_failed\<close> only with the event in the dead letter queue.
\<close>

section \<open>The class\<close>

record EventPublisherWithRetry =
  rp_max_retry_attempts :: nat
  rp_dlq_ttl_seconds :: nat

definition mk_EventPublisherWithRetry :: "int \<Rightarrow> int \<Rightarrow> exn + EventPublisherWithRetry" where
  "mk_EventPublisherWithRetry max_retry_attempts dlq_ttl_seconds =
     andThen (check (1 \<le> max_retry_attempts) (ValueError ''max_retry_attempts must be >= 1'')) (\<lambda>_.
     andThen (check (max_retry_attempts \<le> 100) (ValueError ''max_retry_attempts must be <= 100 to prevent overflow'')) (\<lambda>_.
     andThen (check (1 \<le> dlq_ttl_seconds) (ValueError ''dlq_ttl_seconds must be >= 1'')) (\<lambda>_.
     Inr \<lparr>rp_max_retry_attempts = nat max_retry_attempts, rp_dlq_ttl_seconds = nat dlq_ttl_seconds\<rparr>)))"

definition retry_config_ok :: "EventPublisherWithRetry \<Rightarrow> bool" where
  "retry_config_ok c = (1 \<le> rp_max_retry_attempts c \<and> rp_max_retry_attempts c \<le> 100 \<and> 1 \<le> rp_dlq_ttl_seconds c)"

lemma mk_EventPublisherWithRetry_ok: "mk_EventPublisherWithRetry m t = Inr c \<Longrightarrow> retry_config_ok c"
  by (auto simp: mk_EventPublisherWithRetry_def retry_config_ok_def)

definition dlq_key :: "FileLoadCompletedEvent \<Rightarrow> string" where
  "dlq_key ev = ''dlq:file_load_completed:'' @ uuid_str (ev_file_id ev)"

definition dlq_entry :: "json \<Rightarrow> FileLoadCompletedEvent \<Rightarrow> nat \<Rightarrow> exn option \<Rightarrow> datetime \<Rightarrow> json" where
  "dlq_entry payload ev retry_count last_error now = JObj
     [(''event_payload'', payload),
      (''original_timestamp'', JStr (isoformat (ev_timestamp ev))),
      (''retry_count'', JInt (int retry_count)),
      (''last_error'', JStr (case last_error of Some e \<Rightarrow> exn_str e | None \<Rightarrow> ''Unknown error'')),
      (''failed_at'', JStr (isoformat now))]"

text \<open>The loop over the attempts \<open>dlq_attempt\<close>.\<close>

fun dlq_write :: "'w redis_client \<Rightarrow> (nat \<Rightarrow> ('w, unit) io) \<Rightarrow> string \<Rightarrow> nat \<Rightarrow> string \<Rightarrow> nat list \<Rightarrow> ('w, unit) io" where
  "dlq_write R sleep key secs body [] = ret ()"
| "dlq_write R sleep key secs body (k # ks) =
     catch (r_set R key (utf8_encode body) secs)
       (\<lambda>e. if \<not> is_Exception e then raise e
            else if k < 3 then bnd (sleep (500 * k)) (\<lambda>_. dlq_write R sleep key secs body ks)
            else raise (InfrastructureError (''Failed to write event to DLQ: '' @ exn_str e)))"

definition publish_failed :: "nat \<Rightarrow> FileLoadCompletedEvent \<Rightarrow> exn" where
  "publish_failed retry_count ev = InfrastructureError (''Event publish failed after '' @ str_nat retry_count
     @ '' retries. Event written to DLQ: '' @ dlq_key ev)"

definition write_to_dlq :: "'w redis_client \<Rightarrow> 'w environment \<Rightarrow> (nat \<Rightarrow> ('w, unit) io) \<Rightarrow> nat
    \<Rightarrow> FileLoadCompletedEvent \<Rightarrow> nat \<Rightarrow> exn option \<Rightarrow> ('w, unit) io" where
  "write_to_dlq R Env sleep secs ev retry_count last_error =
     bnd (lift (case andThen (event_to_json ev) to_json of
            Inr j \<Rightarrow> Inr j
          | Inl e \<Rightarrow> Inl (InfrastructureError (''Failed to serialize event for DLQ: '' @ exn_str e)))) (\<lambda>payload.
     bnd (now_utc Env) (\<lambda>failed_at.
     bnd (dlq_write R sleep (dlq_key ev) secs (json_dumps (dlq_entry payload ev retry_count last_error failed_at)) [1..<4]) (\<lambda>_.
     raise (publish_failed retry_count ev))))"

text \<open>The loop over \<open>attempt\<close>; \<open>None\<close> is the \<open>return\<close> in it.\<close>

definition attempt :: "'w IEventPublisher \<Rightarrow> FileLoadCompletedEvent \<Rightarrow> ('w, exn option) io" where
  "attempt P ev = catch (bnd (publish P ev) (\<lambda>_. ret None)) (\<lambda>e. if is_Exception e then ret (Some e) else raise e)"

datatype outcome = Published | Exhausted "exn option"

fun publish_attempts :: "'w IEventPublisher \<Rightarrow> (nat \<Rightarrow> ('w, unit) io) \<Rightarrow> nat \<Rightarrow> FileLoadCompletedEvent
    \<Rightarrow> nat list \<Rightarrow> exn option \<Rightarrow> ('w, outcome) io" where
  "publish_attempts P sleep mx ev [] prev = ret (Exhausted prev)"
| "publish_attempts P sleep mx ev (k # ks) prev =
     bnd (attempt P ev) (\<lambda>r. case r of
       None \<Rightarrow> ret Published
     | Some e \<Rightarrow>
         bnd (if k < mx then sleep (1000 * 2 ^ (k - 1)) else ret ()) (\<lambda>_.
         publish_attempts P sleep mx ev ks (Some e)))"

definition retry_publish :: "'w IEventPublisher \<Rightarrow> 'w redis_client \<Rightarrow> 'w environment \<Rightarrow> (nat \<Rightarrow> ('w, unit) io)
    \<Rightarrow> EventPublisherWithRetry \<Rightarrow> FileLoadCompletedEvent \<Rightarrow> ('w, unit) io" where
  "retry_publish P R Env sleep c ev =
     bnd (publish_attempts P sleep (rp_max_retry_attempts c) ev [1..<Suc (rp_max_retry_attempts c)] None) (\<lambda>r.
     case r of
       Published \<Rightarrow> ret ()
     | Exhausted last_error \<Rightarrow>
         write_to_dlq R Env sleep (rp_dlq_ttl_seconds c) ev (rp_max_retry_attempts c) last_error)"

definition with_retry :: "'w IEventPublisher \<Rightarrow> 'w redis_client \<Rightarrow> 'w environment \<Rightarrow> (nat \<Rightarrow> ('w, unit) io)
    \<Rightarrow> EventPublisherWithRetry \<Rightarrow> 'w IEventPublisher" where
  "with_retry P R Env sleep c = \<lparr>publish = retry_publish P R Env sleep c\<rparr>"

section \<open>The delays\<close>

text \<open>Reference: attempts with a delay that doubles.\<close>

fun backoff :: "'w IEventPublisher \<Rightarrow> (nat \<Rightarrow> ('w, unit) io) \<Rightarrow> FileLoadCompletedEvent \<Rightarrow> nat \<Rightarrow> nat \<Rightarrow> ('w, outcome) io" where
  "backoff P sleep ev delay 0 = ret (Exhausted None)"
| "backoff P sleep ev delay (Suc n) =
     bnd (attempt P ev) (\<lambda>r. case r of
       None \<Rightarrow> ret Published
     | Some e \<Rightarrow> if n = 0 then ret (Exhausted (Some e))
                else bnd (sleep delay) (\<lambda>_. backoff P sleep ev (2 * delay) n))"

lemma publish_attempts_backoff_from:
  assumes "1 \<le> k" and "n \<noteq> 0 \<or> prev = None"
  shows "publish_attempts P sleep (k + n - 1) ev [k..<k + n] prev = backoff P sleep ev (1000 * 2 ^ (k - 1)) n"
  using assms
proof (induction n arbitrary: k prev)
  case 0
  then show ?case by simp
next
  case (Suc n)
  obtain m where k: "k = Suc m" using Suc.prems by (cases k) auto
  have upt: "[k..<k + Suc n] = k # [Suc k..<Suc k + n]" by (simp add: upt_rec)
  show ?case
  proof (cases "n = 0")
    case True
    then show ?thesis by (simp add: k del: ret_run)
  next
    case False
    have "publish_attempts P sleep (k + n) ev [Suc k..<Suc k + n] (Some e) = backoff P sleep ev (1000 * 2 ^ k) n" for e
      using Suc.IH [of "Suc k" "Some e"] False by simp
    moreover have "(2 :: nat) ^ k = 2 * 2 ^ (k - 1)" by (simp add: k)
    ultimately show ?thesis
      unfolding upt publish_attempts.simps backoff.simps using False by simp
  qed
qed

lemma publish_attempts_backoff:
  "publish_attempts P sleep mx ev [1..<Suc mx] None = backoff P sleep ev 1000 mx"
  using publish_attempts_backoff_from [of 1 mx None P sleep ev] by simp

section \<open>The contract is kept\<close>

lemma store_of_dlq: "store_of t (d(dlq_key ev := x)) = store_of t d"
proof -
  have "dlq_key ev \<noteq> session_key_text ws sid" "dlq_key ev \<noteq> expiry_key sid" "dlq_key ev \<noteq> rate_limit_key_text ws"
    "dlq_key ev \<noteq> chunk_key ws sid i" "dlq_key ev \<noteq> dedup_key_text ws" for ws sid i
    by (simp_all add: dlq_key_def session_key_text_def expiry_key_def rate_limit_key_text_def chunk_key_def dedup_key_text_def)
  note this this [symmetric]
  then show ?thesis by (simp add: store_of_def timed_at_def fun_eq_iff)
qed

text \<open>The event lies in the dead letter queue for \<open>secs\<close> seconds from now.\<close>

definition in_dlq :: "nat \<Rightarrow> nat \<Rightarrow> FileLoadCompletedEvent \<Rightarrow> nat \<Rightarrow> redis_db \<Rightarrow> bool" where
  "in_dlq now secs ev retry_count d = (\<exists>payload e t. event_to_dict ev = Inr payload
     \<and> d (dlq_key ev) = Some (RBlob (utf8_encode (json_dumps (dlq_entry payload ev retry_count e t))), Some (now + secs * 1000)))"

locale sleeping =
  fixes sleep :: "nat \<Rightarrow> ('w, unit) io"
    and sent :: "'w \<Rightarrow> bytes list"
    and view :: "'w \<Rightarrow> store"
    and other :: "'w \<Rightarrow> 'o"
  assumes sleeps: "wp (sleep ms)
      (\<lambda>_ w'. passes (view w) (view w') \<and> other w' = other w \<and> sent w' = sent w)
      (\<lambda>e w'. passes (view w) (view w') \<and> other w' = other w \<and> sent w' = sent w \<and> \<not> is_Exception e) w"

locale retrying = inner: event_publisher P most sent "redis_view now db" other
    + redis_server R now db "\<lambda>w. (sent w, other w)"
    + environment Env "redis_view now db" "\<lambda>w. (sent w, other w)"
    + sleeping sleep sent "redis_view now db" other
  for P :: "'w IEventPublisher" and most :: nat and sent :: "'w \<Rightarrow> bytes list" and now :: "'w \<Rightarrow> nat"
    and db :: "'w \<Rightarrow> redis_db" and other :: "'w \<Rightarrow> 'o" and R :: "'w redis_client" and Env :: "'w environment"
    and sleep :: "nat \<Rightarrow> ('w, unit) io" +
  fixes config :: EventPublisherWithRetry
  assumes config_ok: "retry_config_ok config"
begin

definition still :: "'w \<Rightarrow> 'w \<Rightarrow> bool" where
  "still w w' = (passes (redis_view now db w) (redis_view now db w') \<and> other w' = other w)"

lemma still_refl [simp]: "still w w"
  using view_refl by (simp add: still_def)

lemma still_trans: "still w w1 \<Longrightarrow> still w1 w2 \<Longrightarrow> still w w2"
  unfolding still_def using passes_trans by metis

lemma sleep_wp: "wp (sleep ms) (\<lambda>_ w'. still w w' \<and> sent w' = sent w)
    (\<lambda>e w'. still w w' \<and> sent w' = sent w \<and> \<not> is_Exception e) w"
  by (rule wp_use [OF sleeps]) (simp_all add: still_def)

lemma attempt_wp:
  assumes "event_ok ev"
  shows "wp (attempt P ev)
     (\<lambda>r w'. still w w' \<and> (\<exists>n \<le> most. delivered ev n (sent w) (sent w') \<and> (r = None \<longrightarrow> 1 \<le> n)))
     (\<lambda>e w'. still w w' \<and> (\<exists>n \<le> most. delivered ev n (sent w) (sent w')) \<and> \<not> is_Exception e) w"
  unfolding attempt_def wp_catch wp_bnd wp_fun
  by (rule wp_use [OF inner.publishes [OF assms]]) (auto simp: wp_if wp_ret wp_raise still_def)

lemma delivered_more:
  assumes "n \<le> most" and "delivered ev n l l1"
    and "\<exists>m \<le> k * most. delivered ev m l1 l' \<and> (Q \<longrightarrow> 1 \<le> m)"
  shows "\<exists>m \<le> Suc k * most. delivered ev m l l' \<and> (Q \<longrightarrow> 1 \<le> m)"
proof -
  obtain m where m: "m \<le> k * most" "delivered ev m l1 l'" "Q \<longrightarrow> 1 \<le> m" using assms(3) by blast
  with delivered_trans [OF assms(2) m(2)] assms(1) show ?thesis by (intro exI [of _ "n + m"]) auto
qed

text \<open>The events sent by at most \<open>k\<close> attempts, and at least one if \<open>Q\<close>.\<close>

definition sends :: "FileLoadCompletedEvent \<Rightarrow> nat \<Rightarrow> bool \<Rightarrow> 'w \<Rightarrow> 'w \<Rightarrow> bool" where
  "sends ev k Q w w' = (still w w' \<and> (\<exists>n \<le> k * most. delivered ev n (sent w) (sent w') \<and> (Q \<longrightarrow> 1 \<le> n)))"

lemma sends_none: "still w w' \<Longrightarrow> sent w' = sent w \<Longrightarrow> sends ev k False w w'"
  by (auto simp: sends_def delivered_0 intro!: exI [of _ 0])

lemma sends_more: "sends ev 1 Q1 w w1 \<Longrightarrow> sends ev k Q w1 w' \<Longrightarrow> sends ev (Suc k) Q w w'"
  unfolding sends_def using delivered_more [of _ ev "sent w" "sent w1" k "sent w'" Q] still_trans by fastforce

lemma sends_mono: "sends ev k Q w w' \<Longrightarrow> k \<le> k' \<Longrightarrow> (Q' \<Longrightarrow> Q) \<Longrightarrow> sends ev k' Q' w w'"
  unfolding sends_def using mult_le_mono1 [of k k' most] le_trans by blast

lemma attempt_sends:
  assumes "event_ok ev"
  shows "wp (attempt P ev) (\<lambda>r. sends ev 1 (r = None) w) (\<lambda>e w'. sends ev 1 False w w' \<and> \<not> is_Exception e) w"
  by (rule wp_use [OF attempt_wp [OF assms]]) (auto simp: sends_def)

lemma attempts_wp:
  assumes "event_ok ev"
  shows "wp (publish_attempts P sleep mx ev ks prev) (\<lambda>r. sends ev (length ks) (r = Published) w)
     (\<lambda>e w'. sends ev (length ks) False w w' \<and> \<not> is_Exception e) w"
proof (induction ks arbitrary: prev w)
  case Nil
  show ?case by (simp add: wp_ret sends_none)
next
  case (Cons k ks)
  show ?case
    unfolding publish_attempts.simps wp_bnd
  proof (rule wp_use [OF attempt_sends [OF assms]], goal_cases)
    case w1: (1 r w1)
    show ?case
    proof (cases r)
      case None
      then show ?thesis using w1 by (auto simp: wp_ret intro: sends_mono)
    next
      case (Some e)
      have go_on: "wp (publish_attempts P sleep mx ev ks (Some e)) (\<lambda>r. sends ev (length (k # ks)) (r = Published) w)
          (\<lambda>e w'. sends ev (length (k # ks)) False w w' \<and> \<not> is_Exception e) w2"
        if "still w1 w2" "sent w2 = sent w1" for w2
      proof -
        have "sends ev 1 (r = None) w w2" using w1 that still_trans by (auto simp: sends_def)
        then show ?thesis by (intro wp_use [OF Cons.IH]) (auto intro: sends_more)
      qed
      have "wp (sleep ms) (\<lambda>_. wp (publish_attempts P sleep mx ev ks (Some e)) (\<lambda>r. sends ev (length (k # ks)) (r = Published) w)
            (\<lambda>e w'. sends ev (length (k # ks)) False w w' \<and> \<not> is_Exception e))
          (\<lambda>e w'. sends ev (length (k # ks)) False w w' \<and> \<not> is_Exception e) w1" for ms
        by (rule wp_use [OF sleep_wp]) (use w1 go_on sends_more sends_none in \<open>fastforce+\<close>)
      then show ?thesis using Some go_on [of w1] by (simp add: wp_bnd wp_ret del: ret_run)
    qed
  qed (auto intro: sends_mono)
qed

text \<open>The write itself.\<close>

lemma set_dlq_wp:
  "wp (r_set R (dlq_key ev) (utf8_encode body) secs)
     (\<lambda>_ w'. still w w' \<and> sent w' = sent w
        \<and> db w' (dlq_key ev) = Some (RBlob (utf8_encode body), Some (now w' + secs * 1000)))
     (\<lambda>e w'. still w w' \<and> sent w' = sent w \<and> is_Exception e) w"
proof (rule wp_use [OF obeys_view [OF setex]], goal_cases)
  have set: "store_of (now w') (snd (cmd_set (dlq_key ev) (utf8_encode body) secs (now w') d)) = store_of (now w') d" for w' d
    by (simp add: cmd_set_def store_of_dlq)
  {
    case (1 _ w')
    then obtain d r where d: "passes (redis_view now db w) (store_of (now w') d)"
      "cmd_set (dlq_key ev) (utf8_encode body) secs (now w') d = (Some r, db w')" by blast
    then have "redis_view now db w' = store_of (now w') d"
      using set [of w' d] by (simp add: redis_view_def)
    moreover have "db w' = d(dlq_key ev \<mapsto> (RBlob (utf8_encode body), Some (now w' + secs * 1000)))"
      using d(2) by (simp add: cmd_set_def split: if_splits)
    ultimately show ?case using 1 d(1) by (simp add: still_def)
  next
    case (2 e w')
    then obtain d where "passes (redis_view now db w) (store_of (now w') d)"
      "db w' = d \<or> db w' = snd (cmd_set (dlq_key ev) (utf8_encode body) secs (now w') d)" by blast
    then show ?case using 2 set [of w' d] by (cases e; auto simp: still_def redis_view_def)
  }
qed

lemma dlq_write_wp:
  assumes "list_ex ((\<le>) 3) ks"
  shows "wp (dlq_write R sleep (dlq_key ev) secs body ks)
     (\<lambda>_ w'. still w w' \<and> sent w' = sent w
        \<and> db w' (dlq_key ev) = Some (RBlob (utf8_encode body), Some (now w' + secs * 1000)))
     (\<lambda>e w'. still w w' \<and> sent w' = sent w \<and> (is_InfrastructureError e \<or> \<not> is_Exception e)
        \<and> e \<noteq> publish_failed n ev) w"
    (is "wp _ (?Q w) (?E w) w")
  using assms
proof (induction ks arbitrary: w)
  case Nil
  then show ?case by simp
next
  case (Cons k ks)
  show ?case
    unfolding dlq_write.simps wp_catch
  proof (rule wp_use [OF set_dlq_wp], assumption)
    fix e w'
    assume w': "still w w' \<and> sent w' = sent w \<and> is_Exception e"
    show "wp (if \<not> is_Exception e then raise e
        else if k < 3 then bnd (sleep (500 * k)) (\<lambda>_. dlq_write R sleep (dlq_key ev) secs body ks)
        else raise (InfrastructureError (''Failed to write event to DLQ: '' @ exn_str e))) (?Q w) (?E w) w'"
    proof (cases "k < 3")
      case True
      then have ks: "list_ex ((\<le>) 3) ks" using Cons.prems by simp
      have again: "wp (dlq_write R sleep (dlq_key ev) secs body ks) (?Q w) (?E w) w2" if "still w' w2" "sent w2 = sent w'" for w2
        by (rule wp_use [OF Cons.IH [OF ks]])
          (use still_trans [OF still_trans [OF conjunct1 [OF w'] that(1)]] w' that(2) in auto)
      have "wp (bnd (sleep (500 * k)) (\<lambda>_. dlq_write R sleep (dlq_key ev) secs body ks)) (?Q w) (?E w) w'"
        unfolding wp_bnd
      proof (rule wp_use [OF sleep_wp], goal_cases)
        case (2 e w2)
        then show ?case using w' still_trans [of w w' w2] by (auto simp: publish_failed_def)
      qed (rule again; simp)
      with True w' show ?thesis by simp
    next
      case False
      then show ?thesis using w' by (simp add: wp_raise publish_failed_def)
    qed
  qed
qed

lemma write_to_dlq_wp:
  "wp (write_to_dlq R Env sleep secs ev n last_error) (\<lambda>_ _. False)
     (\<lambda>e w'. still w w' \<and> sent w' = sent w \<and> (is_InfrastructureError e \<or> \<not> is_Exception e)
        \<and> (e = publish_failed n ev \<longrightarrow> in_dlq (now w') secs ev n (db w'))) w"
proof (cases "andThen (event_to_json ev) to_json")
  case (Inl e)
  then show ?thesis by (simp add: write_to_dlq_def wp_rules publish_failed_def)
next
  case (Inr payload)
  have ex: "list_ex ((\<le>) 3) [1..<4 :: nat]" by (auto simp: list_ex_iff intro!: bexI [of _ 3])
  from Inr have payload: "event_to_dict ev = Inr payload"
    using event_json_ok by (auto simp: event_to_json_def split: sum.splits)
  show ?thesis
    unfolding write_to_dlq_def Inr sum.case bnd_lift_Inr wp_bnd
  proof (rule wp_use [OF performsD [OF now_utc]], goal_cases)
    case (1 t w1)
    then have w1: "still w w1" "sent w1 = sent w" by (simp_all add: still_def)
    show ?case
    proof (rule wp_use [OF dlq_write_wp [OF ex, where n = n]], goal_cases)
      case (1 _ w')
      then have "in_dlq (now w') secs ev n (db w')" using payload unfolding in_dlq_def by blast
      moreover have "still w w'" using 1 w1 still_trans by blast
      moreover have "is_InfrastructureError (publish_failed n ev)" by (simp add: publish_failed_def)
      ultimately show ?case using 1 w1 unfolding wp_raise by simp
    next
      case (2 e w')
      then have "still w w'" using w1 still_trans by blast
      with 2 w1 show ?case by simp
    qed
  qed simp
qed

lemma retry_wp:
  assumes "event_ok ev"
  shows "wp (retry_publish P R Env sleep config ev)
     (\<lambda>_ w'. still w w' \<and> (\<exists>n. 1 \<le> n \<and> n \<le> rp_max_retry_attempts config * most \<and> delivered ev n (sent w) (sent w')))
     (\<lambda>e w'. still w w' \<and> (\<exists>n \<le> rp_max_retry_attempts config * most. delivered ev n (sent w) (sent w'))
        \<and> (is_InfrastructureError e \<or> \<not> is_Exception e)
        \<and> (e = publish_failed (rp_max_retry_attempts config) ev
            \<longrightarrow> in_dlq (now w') (rp_dlq_ttl_seconds config) ev (rp_max_retry_attempts config) (db w'))) w"
  unfolding retry_publish_def wp_bnd
proof (rule wp_use [OF attempts_wp [OF assms]], goal_cases)
  case (1 r w1)
  then obtain n where w1: "still w w1" and n: "n \<le> rp_max_retry_attempts config * most"
    "delivered ev n (sent w) (sent w1)" "r = Published \<longrightarrow> 1 \<le> n"
    by (auto simp: sends_def simp del: upt_Suc)
  show ?case
  proof (cases r)
    case Published
    then show ?thesis using w1 n by (auto simp: wp_ret intro!: exI [of _ n])
  next
    case (Exhausted last_error)
    show ?thesis
      unfolding Exhausted outcome.case
      by (rule wp_use [OF write_to_dlq_wp]) (use w1 n still_trans in auto)
  qed
next
  case (2 e w1)
  then have "e \<noteq> publish_failed (rp_max_retry_attempts config) ev" by (auto simp: publish_failed_def)
  with 2 show ?case by (auto simp: sends_def simp del: upt_Suc)
qed

end

context retrying
begin

lemma with_retry_wp:
  assumes "event_ok ev"
  shows "wp (publish (with_retry P R Env sleep config) ev)
     (\<lambda>_ w'. passes (redis_view now db w) (redis_view now db w') \<and> other w' = other w
        \<and> (\<exists>n. 1 \<le> n \<and> n \<le> rp_max_retry_attempts config * most \<and> delivered ev n (sent w) (sent w')))
     (\<lambda>e w'. passes (redis_view now db w) (redis_view now db w') \<and> other w' = other w
        \<and> (\<exists>n \<le> rp_max_retry_attempts config * most. delivered ev n (sent w) (sent w'))
        \<and> (is_InfrastructureError e \<or> \<not> is_Exception e)
        \<and> (e \<noteq> publish_failed (rp_max_retry_attempts config) ev
           \<or> in_dlq (now w') (rp_dlq_ttl_seconds config) ev (rp_max_retry_attempts config) (db w'))) w"
  unfolding with_retry_def IEventPublisher.simps
  by (rule wp_use [OF retry_wp [OF assms]]) (auto simp: still_def)

end

sublocale retrying \<subseteq> outer: event_publisher "with_retry P R Env sleep config" "rp_max_retry_attempts config * most"
    sent "redis_view now db" other
  by unfold_locales (rule wp_use [OF with_retry_wp]; auto)

section \<open>The loops end\<close>

text \<open>
  \<open>tries\<close> counts the calls of the wrapped publisher, \<open>slept\<close> the milliseconds asked of \<open>sleep\<close>. Both are bounded by
  the configuration, so that a publication ends whenever the calls in it end.
\<close>

locale retry_counts =
  fixes P :: "'w IEventPublisher" and R :: "'w redis_client" and Env :: "'w environment"
    and sleep :: "nat \<Rightarrow> ('w, unit) io" and tries slept :: "'w \<Rightarrow> nat"
  assumes publish_counts: "wp (publish P ev) (\<lambda>_ w'. tries w' \<le> Suc (tries w) \<and> slept w' = slept w)
      (\<lambda>_ w'. tries w' \<le> Suc (tries w) \<and> slept w' = slept w) w"
    and sleep_counts: "wp (sleep ms) (\<lambda>_ w'. tries w' = tries w \<and> slept w' \<le> slept w + ms)
      (\<lambda>_ w'. tries w' = tries w \<and> slept w' \<le> slept w + ms) w"
    and set_counts: "wp (r_set R k b secs) (\<lambda>_ w'. tries w' = tries w \<and> slept w' = slept w)
      (\<lambda>_ w'. tries w' = tries w \<and> slept w' = slept w) w"
    and now_counts: "wp (now_utc Env) (\<lambda>_ w'. tries w' = tries w \<and> slept w' = slept w)
      (\<lambda>_ w'. tries w' = tries w \<and> slept w' = slept w) w"
begin

definition spent :: "nat \<Rightarrow> nat \<Rightarrow> 'w \<Rightarrow> 'w \<Rightarrow> bool" where
  "spent n ms w w' = (tries w' \<le> tries w + n \<and> slept w' \<le> slept w + ms)"

lemma spent_le: "spent n ms w w' \<Longrightarrow> n \<le> n' \<Longrightarrow> ms \<le> ms' \<Longrightarrow> spent n' ms' w w'"
  by (simp add: spent_def)

lemma spent_trans: "spent n ms w w1 \<Longrightarrow> spent n' ms' w1 w2 \<Longrightarrow> spent (n + n') (ms + ms') w w2"
  by (simp add: spent_def)

lemma spent_bnd:
  assumes "wp f (\<lambda>_. spent n ms w) (\<lambda>_. spent n ms w) w"
    and "\<And>x w1. wp (g x) (\<lambda>_. spent n' ms' w1) (\<lambda>_. spent n' ms' w1) w1"
  shows "wp (bnd f g) (\<lambda>_. spent (n + n') (ms + ms') w) (\<lambda>_. spent (n + n') (ms + ms') w) w"
  unfolding wp_bnd
  by (rule wp_use [OF assms(1)], rule wp_use [OF assms(2)]) (auto intro: spent_trans elim: spent_le)

lemma attempt_spends: "wp (attempt P ev) (\<lambda>_. spent 1 0 w) (\<lambda>_. spent 1 0 w) w"
  unfolding attempt_def wp_catch wp_bnd
  by (rule wp_use [OF publish_counts]) (auto simp: wp_ret wp_raise wp_if spent_def)

lemma sleep_spends: "wp (sleep ms) (\<lambda>_. spent 0 ms w) (\<lambda>_. spent 0 ms w) w"
  by (rule wp_use [OF sleep_counts]) (simp_all add: spent_def)

lemma backoff_spends:
  "wp (backoff P sleep ev delay n) (\<lambda>_. spent n (delay * (2 ^ (n - 1) - 1)) w)
     (\<lambda>_. spent n (delay * (2 ^ (n - 1) - 1)) w) w"
proof (induction n arbitrary: delay w)
  case 0
  show ?case by (simp add: wp_ret spent_def)
next
  case (Suc n)
  let ?g = "\<lambda>r. case r of None \<Rightarrow> ret Published
     | Some e \<Rightarrow> if n = 0 then ret (Exhausted (Some e)) else bnd (sleep delay) (\<lambda>_. backoff P sleep ev (2 * delay) n)"
  have pauses: "delay + 2 * delay * (2 ^ (n - 1) - 1) = delay * (2 ^ n - 1)" if "n \<noteq> 0"
  proof -
    obtain k where "n = Suc k" using \<open>n \<noteq> 0\<close> by (cases n) auto
    moreover obtain q where "(2 :: nat) ^ k = Suc q" by (cases "(2 :: nat) ^ k") auto
    ultimately show ?thesis by (simp add: algebra_simps)
  qed
  have "wp (?g r) (\<lambda>_. spent n (delay * (2 ^ n - 1)) w1) (\<lambda>_. spent n (delay * (2 ^ n - 1)) w1) w1" for r w1
  proof (cases "r = None \<or> n = 0")
    case True
    then show ?thesis by (auto simp: wp_ret spent_def split: option.split)
  next
    case False
    then show ?thesis
      using spent_bnd [OF sleep_spends Suc.IH, of delay "2 * delay" w1] pauses by auto
  qed
  from spent_bnd [OF attempt_spends [of ev w] this] show ?case by simp
qed

lemma dlq_write_spends:
  "wp (dlq_write R sleep key secs body ks) (\<lambda>_. spent 0 (\<Sum>k\<leftarrow>ks. if k < 3 then 500 * k else 0) w)
     (\<lambda>_. spent 0 (\<Sum>k\<leftarrow>ks. if k < 3 then 500 * k else 0) w) w"
proof (induction ks arbitrary: w)
  case Nil
  show ?case by (simp add: wp_ret spent_def)
next
  case (Cons k ks)
  have again: "wp (bnd (sleep (500 * k)) (\<lambda>_. dlq_write R sleep key secs body ks))
      (\<lambda>_. spent 0 (500 * k + (\<Sum>k\<leftarrow>ks. if k < 3 then 500 * k else 0)) w1)
      (\<lambda>_. spent 0 (500 * k + (\<Sum>k\<leftarrow>ks. if k < 3 then 500 * k else 0)) w1) w1" for w1
    using spent_bnd [OF sleep_spends Cons.IH, of "500 * k" w1] by simp
  show ?case
    unfolding dlq_write.simps wp_catch
  proof (rule wp_use [OF set_counts], goal_cases)
    case (1 _ w1)
    then show ?case by (simp add: spent_def)
  next
    case (2 e w1)
    then have "spent 0 0 w w1" by (simp add: spent_def)
    then show ?case
      using wp_use [OF again [of w1]] spent_trans [of 0 0 w w1]
      by (auto simp: wp_if wp_raise intro!: wp_use [OF again [of w1]] elim: spent_le)
  qed
qed

lemma write_to_dlq_spends:
  "wp (write_to_dlq R Env sleep secs ev n last_error) (\<lambda>_ _. False) (\<lambda>_. spent 0 1500 w) w"
proof (cases "andThen (event_to_json ev) to_json")
  case (Inl e)
  then show ?thesis by (simp add: write_to_dlq_def wp_rules spent_def)
next
  case (Inr payload)
  have sum: "(\<Sum>k\<leftarrow>[1..<4]. if k < 3 then 500 * k else 0) = (1500 :: nat)" by (simp add: upt_rec)
  show ?thesis
    unfolding write_to_dlq_def Inr sum.case bnd_lift_Inr wp_bnd
    by (rule wp_use [OF now_counts], rule wp_use [OF dlq_write_spends [where ks = "[1..<4]", unfolded sum]])
      (auto simp: wp_raise spent_def)
qed

lemma retry_spends:
  "wp (publish (with_retry P R Env sleep config) ev)
     (\<lambda>_. spent (rp_max_retry_attempts config) (1000 * (2 ^ (rp_max_retry_attempts config - 1) - 1)) w)
     (\<lambda>_. spent (rp_max_retry_attempts config) (1000 * (2 ^ (rp_max_retry_attempts config - 1) - 1) + 1500) w) w"
  unfolding with_retry_def IEventPublisher.simps retry_publish_def publish_attempts_backoff wp_bnd
proof (rule wp_use [OF backoff_spends], goal_cases)
  case (1 r w1)
  show ?case
  proof (cases r)
    case Published
    then show ?thesis using 1 by (simp add: wp_ret)
  next
    case (Exhausted e)
    show ?thesis
      unfolding Exhausted outcome.case
      by (rule wp_use [OF write_to_dlq_spends]) (use spent_trans [OF 1, of 0 1500] in auto)
  qed
qed (auto elim: spent_le)

end

end
