(* ===== verification/Complete_Upload.thy ===== *)
theory Complete_Upload
  imports Abort_Upload Storage_Client Event_Retry Dedup_Store
begin

text \<open>
  \<open>src/application/use_cases/complete_upload.py\<close>. \<open>complete_upload\<close> is \<open>execute\<close>: \<open>complete_steps\<close> the body of its
  \<open>try\<close> once the session is found, \<open>fail_session\<close> the \<open>except\<close> clauses (before that, the
  clauses find the variable \<open>session\<close> unbound, swallow that error and raise the original one again).
  The entity is mutable in the code; every field but the status keeps its value during the call, so
  \<open>mark_failed s\<close> of the session as read is what the clauses write. The sets of indices printed by
  one error message are cut.
\<close>

section \<open>The manifest\<close>

text \<open>\<open>chunk["index"]\<close> as an element of a set: \<open>True\<close> equals 1, lists and objects are unhashable.\<close>

fun hash_key :: "json \<Rightarrow> exn + json" where
  "hash_key (JBool b) = Inr (JInt (if b then 1 else 0))"
| "hash_key (JArr xs) = Inl (TypeError ''unhashable'')"
| "hash_key (JObj ms) = Inl (TypeError ''unhashable'')"
| "hash_key j = Inr j"

definition validate_chunk_manifest :: "UploadSession \<Rightarrow> exn + unit" where
  "validate_chunk_manifest s =
     andThen (check (chunk_manifest s \<noteq> [])
       (InvalidSessionStateError (session_id s) ''chunk_manifest is empty'' ''validate_completeness'')) (\<lambda>_.
     andThen (mapR (\<lambda>c. andThen (json_item c ''index'') hash_key) (chunk_manifest s)) (\<lambda>indices.
     andThen (check (set indices = set (map (\<lambda>i. JInt (int i)) [0..<length (chunk_manifest s)]))
       (InvalidSessionStateError (session_id s) ''chunk_manifest incomplete'' ''validate_completeness'')) (\<lambda>_.
     andThen (mapR (\<lambda>c. andThen (json_item c ''size'') json_number) (chunk_manifest s)) (\<lambda>sizes.
     check (sum_list sizes = file_size s)
       (InvalidSessionStateError (session_id s)
         (''chunk_manifest size mismatch: '' @ str_int (sum_list sizes) @ '' != '' @ str_int (file_size s))
         ''validate_completeness'')))))"

text \<open>\<open>f"{chunk['index']}"\<close>; after the validation it is a number or a truth value.\<close>

fun index_text :: "json \<Rightarrow> string" where
  "index_text (JInt i) = str_int i"
| "index_text (JBool b) = (if b then ''True'' else ''False'')"
| "index_text (JStr t) = t"
| "index_text JNull = ''None''"
| "index_text j = json_dumps j"

definition chunk_index_text :: "json \<Rightarrow> exn + string" where
  "chunk_index_text c = andThen (json_item c ''index'') (\<lambda>v. Inr (index_text v))"

text \<open>\<open>sorted(manifest, key=...)\<close>, for keys that are numbers.\<close>

definition sorted_manifest :: "json list \<Rightarrow> exn + json list" where
  "sorted_manifest cs =
     andThen (mapR (\<lambda>c. andThen (json_item c ''index'') json_number) cs) (\<lambda>ks.
     Inr (map snd (sort_key fst (zip ks cs))))"

definition retrieve_chunk :: "'w redis_client \<Rightarrow> uuid \<Rightarrow> uuid \<Rightarrow> json \<Rightarrow> ('w, reply) io" where
  "retrieve_chunk R ws sid c =
     bnd (lift (chunk_index_text c)) (\<lambda>i.
     bnd (catch (r_get R (chunk_key ws sid i))
            (\<lambda>e. if is_Exception e
                 then raise (InfrastructureError (''Failed to retrieve chunk '' @ i @ '' from Redis: '' @ exn_str e))
                 else raise e)) (\<lambda>r.
     case r of
       None \<Rightarrow> raise (InvalidSessionStateError sid (''chunk '' @ i @ '' not found in Redis'') ''retrieve_chunks'')
     | Some data \<Rightarrow> ret data))"

definition retrieve_chunks :: "'w redis_client \<Rightarrow> uuid \<Rightarrow> uuid \<Rightarrow> json list \<Rightarrow> ('w, reply list) io" where
  "retrieve_chunks R ws sid manifest = bnd (lift (sorted_manifest manifest)) (mapM (retrieve_chunk R ws sid))"

definition cleanup_chunk :: "'w redis_client \<Rightarrow> uuid \<Rightarrow> uuid \<Rightarrow> json \<Rightarrow> ('w, unit) io" where
  "cleanup_chunk R ws sid c =
     bnd (lift (chunk_index_text c)) (\<lambda>i.
     catch (bnd (r_delete R [chunk_key ws sid i]) (\<lambda>_. ret ()))
       (\<lambda>e. if is_Exception e then ret () else raise e))"

definition cleanup_chunks :: "'w redis_client \<Rightarrow> uuid \<Rightarrow> uuid \<Rightarrow> json list \<Rightarrow> ('w, unit) io" where
  "cleanup_chunks R ws sid manifest = bnd (mapM (cleanup_chunk R ws sid) manifest) (\<lambda>_. ret ())"

section \<open>The use case\<close>

fun is_refusal :: "exn \<Rightarrow> bool" where
  "is_refusal (SessionNotFoundError m) = True"
| "is_refusal (WorkspaceMismatchError r t e a) = True"
| "is_refusal (InvalidSessionStateError sid st op) = True"
| "is_refusal (DuplicateFileError h f p t) = True"
| "is_refusal e = False"

definition fail_session :: "'w ISessionStore \<Rightarrow> UploadSession \<Rightarrow> exn \<Rightarrow> ('w, 'a) io" where
  "fail_session S s e =
     (if is_refusal e \<or> \<not> is_Exception e then raise e
      else bnd (catch (update_session S (mark_failed s)) (\<lambda>e'. if is_Exception e' then ret () else raise e'))
             (\<lambda>_. raise e))"

definition check_completable :: "uuid \<Rightarrow> uuid \<Rightarrow> UploadSession \<Rightarrow> exn + unit" where
  "check_completable ws sid s =
     andThen (check (workspace_id s = ws) (new_WorkspaceMismatchError sid ''upload_session'' ws (workspace_id s))) (\<lambda>_.
     andThen (check (status s = IN_PROGRESS)
       (InvalidSessionStateError sid (status_value (status s)) ''complete_upload'')) (\<lambda>_.
     andThen (validate_chunk_manifest s) (\<lambda>_.
     check (offset s = file_size s)
       (InvalidSessionStateError sid (''offset='' @ str_int (offset s) @ '', size='' @ str_int (file_size s))
         ''complete_upload''))))"

text \<open>Steps 5 to 8, from the duplicate check to the committed session.\<close>

definition reject_duplicate :: "'w ISessionStore \<Rightarrow> UploadSession \<Rightarrow> FileMetadata \<Rightarrow> ('w, 'a) io" where
  "reject_duplicate S s m =
     bnd (update_session S (mark_failed s)) (\<lambda>_.
     raise (new_DuplicateFileError (SHA256Hash_str (sha256_checksum s)) (fm_file_id m) (fm_s3_path m) (fm_uploaded_at m)))"

definition completed_event :: "'w environment \<Rightarrow> UploadSession \<Rightarrow> uuid \<Rightarrow> uuid \<Rightarrow> string \<Rightarrow> int
    \<Rightarrow> ('w, FileLoadCompletedEvent) io" where
  "completed_event Env s ws sid s3_path final_size =
     bnd (now_utc Env) (\<lambda>uploaded_at.
     bnd (now_utc Env) (\<lambda>timestamp.
     lift (FileLoadCompletedEvent_post_init \<lparr>ev_file_id = sid, ev_workspace_id = ws, ev_s3_path = s3_path,
       ev_sha256_checksum = sha256_checksum s, ev_size_bytes = final_size, ev_uploaded_at = uploaded_at,
       ev_event_version = ''1.0'', ev_event_type = ''FILE_LOAD_COMPLETED'', ev_timestamp = timestamp\<rparr>)))"

definition publish_event :: "'w ISessionStore \<Rightarrow> 'w IEventPublisher \<Rightarrow> UploadSession \<Rightarrow> FileLoadCompletedEvent \<Rightarrow> ('w, unit) io" where
  "publish_event S P s event =
     catch (publish P event)
       (\<lambda>e. if is_InfrastructureError e then bnd (update_session S (mark_failed s)) (\<lambda>_. raise e) else raise e)"

definition commit_session :: "'w ISessionStore \<Rightarrow> UploadSession \<Rightarrow> ('w, unit) io" where
  "commit_session S s = bnd (lift (mark_complete s)) (\<lambda>s'. update_session S s')"

text \<open>Steps 9 to 11, which do not fail the completion any more.\<close>

definition release_slot :: "'w IRateLimiter \<Rightarrow> uuid \<Rightarrow> ('w, unit) io" where
  "release_slot L ws = catch (decrement L ws) (\<lambda>e. if is_InfrastructureError e then ret () else raise e)"

definition register_fingerprint :: "'w IDeduplicationStore \<Rightarrow> 'w environment \<Rightarrow> uuid \<Rightarrow> UploadSession \<Rightarrow> uuid
    \<Rightarrow> string \<Rightarrow> int \<Rightarrow> ('w, unit) io" where
  "register_fingerprint D Env ws s file_id s3_path final_size =
     catch
       (bnd (now_utc Env) (\<lambda>uploaded_at.
        bnd (lift (FileMetadata_post_init \<lparr>fm_file_id = file_id, fm_s3_path = s3_path, fm_size = final_size,
               fm_uploaded_at = uploaded_at\<rparr>)) (\<lambda>metadata.
        register_file D ws (sha256_checksum s) metadata)))
       (\<lambda>e. if is_Exception e then ret () else raise e)"

definition wrap_up :: "'w IRateLimiter \<Rightarrow> 'w IDeduplicationStore \<Rightarrow> 'w redis_client \<Rightarrow> 'w environment \<Rightarrow> uuid \<Rightarrow> uuid
    \<Rightarrow> UploadSession \<Rightarrow> string \<Rightarrow> int \<Rightarrow> ('w, CompleteUploadResponse) io" where
  "wrap_up L D R Env ws sid s s3_path final_size =
     bnd (release_slot L ws) (\<lambda>_.
     bnd (register_fingerprint D Env ws s sid s3_path final_size) (\<lambda>_.
     bnd (catch (cleanup_chunks R ws sid (chunk_manifest s)) (\<lambda>e. if is_Exception e then ret () else raise e)) (\<lambda>_.
     lift (CompleteUploadResponse_post_init
       \<lparr>cures_file_id = sid, cures_s3_path = s3_path, cures_size_bytes = final_size\<rparr>))))"

definition complete_steps :: "'w ISessionStore \<Rightarrow> 'w IStorageClient \<Rightarrow> 'w IDeduplicationStore \<Rightarrow> 'w IEventPublisher
    \<Rightarrow> 'w IRateLimiter \<Rightarrow> 'w redis_client \<Rightarrow> 'w environment \<Rightarrow> uuid \<Rightarrow> uuid \<Rightarrow> UploadSession
    \<Rightarrow> ('w, CompleteUploadResponse) io" where
  "complete_steps S St D P L R Env ws sid s =
     bnd (lift (check_completable ws sid s)) (\<lambda>_.
     bnd (retrieve_chunks R ws sid (chunk_manifest s)) (\<lambda>chunks.
     bnd (assemble_file St ws sid chunks (sha256_checksum s)) (\<lambda>(s3_path, final_size).
     bnd (check_duplicate D ws (sha256_checksum s)) (\<lambda>duplicate_metadata.
     case duplicate_metadata of
       Some m \<Rightarrow> reject_duplicate S s m
     | None \<Rightarrow>
         bnd (completed_event Env s ws sid s3_path final_size) (\<lambda>event.
         bnd (publish_event S P s event) (\<lambda>_.
         bnd (commit_session S s) (\<lambda>_.
         wrap_up L D R Env ws sid s s3_path final_size)))))))"

definition complete_upload :: "'w ISessionStore \<Rightarrow> 'w IStorageClient \<Rightarrow> 'w IDeduplicationStore \<Rightarrow> 'w IEventPublisher
    \<Rightarrow> 'w IRateLimiter \<Rightarrow> 'w redis_client \<Rightarrow> 'w environment \<Rightarrow> CompleteUploadRequest
    \<Rightarrow> ('w, CompleteUploadResponse) io" where
  "complete_upload S St D P L R Env req =
     bnd (get_session S (cur_workspace_id req) (cur_session_id req)) (\<lambda>found.
     case found of
       None \<Rightarrow> raise (not_found (cur_session_id req))
     | Some s \<Rightarrow>
         catch (complete_steps S St D P L R Env (cur_workspace_id req) (cur_session_id req) s) (fail_session S s))"

section \<open>Stored sessions\<close>

lemma chunk_entry_items [simp]:
  "json_item (chunk_entry i n c) ''index'' = Inr (JInt i)" "json_item (chunk_entry i n c) ''size'' = Inr (JInt n)"
  "json_number (JInt i) = Inr i"
  by (simp_all add: chunk_entry_def json_item_def json_number_def)

lemma manifest_from_values:
  "mapR (\<lambda>c. andThen (json_item c ''index'') hash_key) (manifest_from k cs) = Inr (map (\<lambda>i. JInt (k + int i)) [0..<length cs])"
  "mapR (\<lambda>c. andThen (json_item c ''index'') json_number) (manifest_from k cs) = Inr (map (\<lambda>i. k + int i) [0..<length cs])"
  "mapR (\<lambda>c. andThen (json_item c ''size'') json_number) (manifest_from k cs) = Inr (map fst cs)"
proof (induction k cs rule: manifest_from.induct)
  case (2 k n c cs)
  have "[0..<Suc (length cs)] = 0 # map Suc [0..<length cs]" by (simp add: map_Suc_upt upt_conv_Cons del: upt_Suc)
  then have shift: "map f [0..<length ((n, c) # cs)] = f 0 # map (\<lambda>i. f (Suc i)) [0..<length cs]" for f :: "nat \<Rightarrow> 'z"
    by (simp del: upt_Suc)
  note IH = 2
  case 1
  show ?case using IH unfolding shift by (simp add: algebra_simps)
  case 2
  show ?case using IH unfolding shift by (simp add: algebra_simps)
  case 3
  show ?case using IH by simp
qed simp_all

text \<open>For a session that satisfies the invariant, the manifest is complete when the offset says so.\<close>

definition completable :: "uuid \<Rightarrow> UploadSession \<Rightarrow> bool" where
  "completable ws s = (workspace_id s = ws \<and> status s = IN_PROGRESS \<and> offset s = file_size s)"

lemma validate_chunk_manifest_iff:
  assumes "manifest_of s cs" and "0 < file_size s"
  shows "validate_chunk_manifest s = Inr () \<longleftrightarrow> offset s = file_size s"
proof -
  have "cs \<noteq> []" if "total_size cs = file_size s" using that assms(2) by (auto simp: total_size_def)
  then show ?thesis
    using assms manifest_from_values [of 0 cs]
    by (auto simp: validate_chunk_manifest_def manifest_of_def total_size_def simp del: upt_Suc)
qed

lemma check_completable_iff:
  assumes "manifest_of s cs" and "0 < file_size s"
  shows "check_completable ws sid s = Inr () \<longleftrightarrow> completable ws s"
  using validate_chunk_manifest_iff [OF assms] by (auto simp: check_completable_def completable_def)

lemma check_stored_session:
  assumes "store_ok st" and "session_in st ws sid = Some s"
  shows "(check_completable ws sid s = Inr ()) = (status s = IN_PROGRESS \<and> offset s = file_size s)"
proof -
  obtain e where "entry_inv st ws sid s e"
    using assms session_in_ok [of st ws sid s] by (auto simp: store_ok_def)
  then obtain cs where "manifest_of s cs" "workspace_id s = ws" "0 < file_size s"
    by (auto simp: entry_inv_def storable_def session_ok_def)
  then show ?thesis using check_completable_iff by (simp add: completable_def)
qed

lemma sorted_manifest_from: "sorted_manifest (manifest_from k cs) = Inr (manifest_from k cs)"
proof -
  let ?ks = "map (\<lambda>i. k + int i) [0..<length cs]"
  have "map fst (zip ?ks (manifest_from k cs)) = ?ks" by simp
  moreover have "sorted ?ks" by (simp add: sorted_iff_nth_mono)
  ultimately have "sort_key fst (zip ?ks (manifest_from k cs)) = zip ?ks (manifest_from k cs)"
    by (intro sort_key_id_if_sorted) (simp del: map_fst_zip)
  then show ?thesis by (simp add: sorted_manifest_def manifest_from_values)
qed

lemma chunk_index_text_entry [simp]: "chunk_index_text (chunk_entry i n c) = Inr (str_int i)"
  by (simp add: chunk_index_text_def)

text \<open>The same for the fingerprints.\<close>

definition prints_kept :: "store \<Rightarrow> store \<Rightarrow> bool" where
  "prints_kept st st' = (st_now st \<le> st_now st'
     \<and> (\<forall>ws h. st_files st' ws h = tick_value (st_now st') (st_files st ws h)))"

lemma prints_kept_passes: "passes st st1 \<Longrightarrow> st_files st' = st_files st1 \<Longrightarrow> st_now st' = st_now st1 \<Longrightarrow> prints_kept st st'"
  by (auto simp: prints_kept_def passesD)

lemma prints_kept_trans: "prints_kept a b \<Longrightarrow> prints_kept b c \<Longrightarrow> prints_kept a c"
  by (auto simp: prints_kept_def)

lemma store_ok_put_file: "store_ok st \<Longrightarrow> store_ok (put_file ws h m st)"
  using entry_inv_cong [of "put_file ws h m st" st]
  by (auto simp: store_ok_def counters_ok_def sessions_ok_def put_file_def)

lemma strip_path: "starts_with ''s3://'' p \<Longrightarrow> strip p \<noteq> []"
  by (auto simp: starts_with_iff strip_def lstrip_def rstrip_def is_space_def code_def)

section \<open>What it promises\<close>

text \<open>The event announces this file.\<close>

definition announces :: "uuid \<Rightarrow> UploadSession \<Rightarrow> string \<Rightarrow> int \<Rightarrow> FileLoadCompletedEvent \<Rightarrow> bool" where
  "announces ws s p n ev = (event_ok ev \<and> ev_file_id ev = session_id s \<and> ev_workspace_id ev = ws \<and> ev_s3_path ev = p
     \<and> ev_size_bytes ev = n \<and> ev_sha256_checksum ev = sha256_checksum s)"

text \<open>The file is stored, with the announced hash, and the event announces it.\<close>

definition filed :: "uuid \<Rightarrow> UploadSession \<Rightarrow> string \<Rightarrow> 'k \<Rightarrow> ('k \<Rightarrow> bytes option) \<Rightarrow> FileLoadCompletedEvent \<Rightarrow> bool" where
  "filed ws s p k f ev = (\<exists>b. f k = Some b \<and> sha256_hex b = hash_value (sha256_checksum s)
     \<and> announces ws s p (int (length b)) ev)"

text \<open>The fingerprint is registered for this file, or has expired again.\<close>

definition fingerprint_stored :: "uuid \<Rightarrow> UploadSession \<Rightarrow> uuid \<Rightarrow> string \<Rightarrow> int \<Rightarrow> store \<Rightarrow> bool" where
  "fingerprint_stored ws s file_id p n st = (\<exists>m x. fm_file_id m = file_id \<and> fm_s3_path m = p \<and> fm_size m = n
     \<and> st_files st ws (hash_value (sha256_checksum s)) = tick_value (st_now st) (Some (Some m, x)))"

text \<open>
  A completion that returns: the session was in progress and complete; its bytes, whose SHA-256 is
  the announced one, are a new file; the event went out before the session was marked COMPLETE.
\<close>

definition completed :: "uuid \<Rightarrow> uuid \<Rightarrow> string \<Rightarrow> 'k \<Rightarrow> nat \<Rightarrow> store \<Rightarrow> ('k \<Rightarrow> bytes option) \<Rightarrow> bytes list
    \<Rightarrow> CompleteUploadResponse \<Rightarrow> store \<Rightarrow> ('k \<Rightarrow> bytes option) \<Rightarrow> bytes list \<Rightarrow> bool" where
  "completed ws sid p k most st f l r st' f' l' = (\<exists>s e ev n. let content = content_in st ws sid in
     st_sessions st ws sid = Some (Some s, e) \<and> completable ws s \<and> moved ws sid s e {COMPLETE} st st'
     \<and> content \<noteq> [] \<and> sha256_hex content = hash_value (sha256_checksum s)
     \<and> f k = None \<and> f' = f(k \<mapsto> content)
     \<and> announces ws s p (int (length content)) ev \<and> 1 \<le> n \<and> n \<le> most \<and> delivered ev n l l'
     \<and> r = \<lparr>cures_file_id = sid, cures_s3_path = p, cures_size_bytes = int (length content)\<rparr>)"

text \<open>
  A completion that raises: counters as before, no existing file touched, and the session is as it
  was, or marked FAILED; it can be found COMPLETE only if its file is stored and the event went out.
\<close>

definition not_completed :: "uuid \<Rightarrow> uuid \<Rightarrow> string \<Rightarrow> 'k \<Rightarrow> nat \<Rightarrow> store \<Rightarrow> ('k \<Rightarrow> bytes option) \<Rightarrow> bytes list
    \<Rightarrow> store \<Rightarrow> ('k \<Rightarrow> bytes option) \<Rightarrow> bytes list \<Rightarrow> bool" where
  "not_completed ws sid p k most st f l st' f' l' =
     (st_counters st' = st_counters st \<and> (f' = f \<or> f k = None \<and> (\<exists>b. f' = f(k \<mapsto> b)))
      \<and> (passes st st' \<and> l' = l
         \<or> (\<exists>s e ev n. st_sessions st ws sid = Some (Some s, e) \<and> n \<le> most \<and> delivered ev n l l'
              \<and> (n = 0 \<or> filed ws s p k f' ev)
              \<and> moved ws sid s e (if n = 0 then {status s, FAILED} else {status s, FAILED, COMPLETE}) st st')))"

lemma not_completedI:
  assumes "st_counters st' = st_counters st" and "f' = f \<or> f k = None \<and> (\<exists>b. f' = f(k \<mapsto> b))"
    and "st_sessions st ws sid = Some (Some s, e)" and "n \<le> most" and "delivered ev n l l'" and "n = 0 \<or> filed ws s p k f' ev"
    and "moved ws sid s e (if n = 0 then {status s, FAILED} else {status s, FAILED, COMPLETE}) st st'"
  shows "not_completed ws sid p k most st f l st' f' l'"
  using assms unfolding not_completed_def by blast

text \<open>The slot is free and the fingerprint registered, unless these last calls failed.\<close>

definition finish :: "'w IRateLimiter \<Rightarrow> 'w IDeduplicationStore \<Rightarrow> ('w \<Rightarrow> store) \<Rightarrow> uuid \<Rightarrow> UploadSession
    \<Rightarrow> string \<Rightarrow> int \<Rightarrow> int \<Rightarrow> store \<Rightarrow> bool" where
  "finish L D view ws s p n k st =
     ((count_in st ws = Some (max 0 (k - 1))
       \<or> (\<exists>e w1 w2. decrement L ws w1 = (Inl e, w2) \<and> count_in (view w1) ws = Some k
             \<and> st_counters (view w2) = st_counters st))
     \<and> (fingerprint_stored ws s (session_id s) p n st
        \<or> (\<exists>m e w1 w2. register_file D ws (sha256_checksum s) m w1 = (Inl e, w2) \<and> fm_file_id m = session_id s
             \<and> fm_s3_path m = p \<and> fm_size m = n \<and> prints_kept (view w2) st)))"

section \<open>The services\<close>

locale complete_services =
  abort_services S L limit view "\<lambda>w. (sent w, files w, other w)"
  + dedup_store D view "\<lambda>w. (sent w, files w, other w)"
  + chunk_cache "redis_set_chunk R" "redis_get_chunk R" "redis_delete_chunk R" view "\<lambda>w. (sent w, files w, other w)"
  + environment Env view "\<lambda>w. (sent w, files w, other w)"
  + storage_client St loc path files view "\<lambda>w. (sent w, other w)"
  + event_publisher P most sent view "\<lambda>w. (files w, other w)"
  for S :: "'w ISessionStore" and L :: "'w IRateLimiter" and limit :: int and D :: "'w IDeduplicationStore"
    and R :: "'w redis_client" and Env :: "'w environment" and St :: "'w IStorageClient"
    and P :: "'w IEventPublisher" and most :: nat
    and loc :: "uuid \<Rightarrow> uuid \<Rightarrow> 'k" and path :: "uuid \<Rightarrow> uuid \<Rightarrow> string"
    and view :: "'w \<Rightarrow> store" and files :: "'w \<Rightarrow> 'k \<Rightarrow> bytes option"
    and sent :: "'w \<Rightarrow> bytes list" and other :: "'w \<Rightarrow> 'o" +
  assumes settled: "passes (view w) (view w)"
begin

abbreviation still :: "'w \<Rightarrow> 'w \<Rightarrow> bool" where
  "still w w' \<equiv> sent w' = sent w \<and> files w' = files w \<and> other w' = other w"

lemma update_status_wp:
  assumes m: "moved ws sid s e X st0 (view w)" and inv: "entry_inv st1 ws sid s e" and x: "is_terminal x"
  shows "wp (update_session S (s\<lparr>status := x\<rparr>))
     (\<lambda>_ w'. still w w' \<and> moved ws sid s e {x} st0 (view w') \<and> st_counters (view w') = st_counters (view w)
        \<and> prints_kept (view w) (view w'))
     (\<lambda>e' w'. still w w' \<and> moved ws sid s e (insert x X) st0 (view w') \<and> st_counters (view w') = st_counters (view w)
        \<and> is_Exception e') w"
proof (rule wp_use [OF mark_wp [OF m inv x]], goal_cases)
  case (1 _ w')
  then show ?case using prints_kept_passes by auto
next
  case (2 e' w')
  then have "is_Exception e'" by (cases e') auto
  with 2 show ?case by auto
qed

lemma fail_session_wp:
  assumes m: "moved ws sid s e X st0 (view w)" and inv: "entry_inv st1 ws sid s e"
  shows "wp (fail_session S s x) (\<lambda>_ _. False)
     (\<lambda>e' w'. e' = x \<and> still w w' \<and> moved ws sid s e (insert FAILED X) st0 (view w')
        \<and> st_counters (view w') = st_counters (view w)) w"
proof (cases "is_refusal x \<or> \<not> is_Exception x")
  case True
  then show ?thesis using moved_mono [OF m, of "insert FAILED X"] by (auto simp: fail_session_def wp_raise)
next
  case False
  have t: "is_terminal FAILED" by (simp add: is_terminal_def)
  show ?thesis
    unfolding fail_session_def if_not_P [OF False] wp_bnd wp_catch mark_failed_def
    by (rule wp_use [OF update_status_wp [OF m inv t]])
      (auto simp: wp_raise wp_if wp_ret elim!: moved_mono)
qed

lemma retrieve_chunk_wp:
  "wp (retrieve_chunk R ws sid (chunk_entry i n c))
     (\<lambda>r w'. still w w' \<and> passes (view w) (view w')
        \<and> (\<exists>b x. r = RBytes b \<and> st_chunks (view w) ws sid (str_int i) = Some (b, x)))
     (\<lambda>e w'. still w w' \<and> passes (view w) (view w')) w"
  unfolding retrieve_chunk_def chunk_index_text_entry bnd_lift_Inr wp_bnd wp_catch
proof (rule wp_use [OF performsD [OF get_chunk]], goal_cases)
  case (1 r w')
  then have w': "still w w'" "passes (view w) (view w')"
    "r = map_option (\<lambda>c. RBytes (fst c)) (st_chunks (view w') ws sid (str_int i))" by auto
  show ?case
  proof (cases "st_chunks (view w') ws sid (str_int i)")
    case None
    then show ?thesis using w' by (simp add: wp_raise)
  next
    case (Some y)
    then have "st_chunks (view w) ws sid (str_int i) = Some (fst y, snd y)"
      using passesD(5) [OF w'(2), of ws sid "str_int i"] tick_value_Some [of _ _ "fst y" "snd y"] by simp
    with Some show ?thesis using w' by (cases y) (simp add: wp_ret)
  qed
next
  case (2 e w')
  then show ?case by (simp add: wp_if wp_raise)
qed

text \<open>All chunks, or an exception.\<close>

definition is_chunk :: "uuid \<Rightarrow> uuid \<Rightarrow> store \<Rightarrow> nat \<Rightarrow> reply \<Rightarrow> bool" where
  "is_chunk ws sid st i r = (\<exists>b x. r = RBytes b \<and> st_chunks st ws sid (str_int (int i)) = Some (b, x))"

lemma is_chunk_passes: "passes st st' \<Longrightarrow> is_chunk ws sid st' i r \<Longrightarrow> is_chunk ws sid st i r"
  by (auto simp: is_chunk_def passesD tick_value_Some)

lemma is_chunk_bytes: "list_all2 (is_chunk ws sid st) is rs \<Longrightarrow> rs = map RBytes (map (chunk_bytes st ws sid) is)"
  by (induction rule: list_all2_induct) (auto simp: is_chunk_def chunk_bytes_def)

lemma retrieve_entries_wp:
  "wp (mapM (retrieve_chunk R ws sid) (manifest_from (int k) cs))
     (\<lambda>rs w'. still w w' \<and> passes (view w) (view w') \<and> list_all2 (is_chunk ws sid (view w)) [k..<k + length cs] rs)
     (\<lambda>e w'. still w w' \<and> passes (view w) (view w')) w"
proof (induction cs arbitrary: k w)
  case Nil
  show ?case by (simp add: wp_ret settled)
next
  case (Cons x cs)
  obtain n c where x: "x = (n, c)" by fastforce
  have upt: "[k..<k + length (x # cs)] = k # [Suc k..<Suc k + length cs]" by (simp add: upt_rec)
  have suc: "int k + 1 = int (Suc k)" by simp
  show ?case
    unfolding x manifest_from.simps mapM.simps wp_bnd suc
  proof (rule wp_use [OF retrieve_chunk_wp], goal_cases)
    case (1 r w1)
    then have w1: "still w w1" "passes (view w) (view w1)" "is_chunk ws sid (view w) k r"
      by (auto simp: is_chunk_def)
    show ?case
    proof (rule wp_use [OF Cons.IH], goal_cases)
      case (1 rs w')
      then have "list_all2 (is_chunk ws sid (view w)) [Suc k..<Suc k + length cs] rs"
        using is_chunk_passes [OF w1(2)] by (blast intro: list_all2_mono)
      then have "list_all2 (is_chunk ws sid (view w)) [k..<k + length (x # cs)] (r # rs)"
        unfolding upt using w1(3) by simp
      then show ?case
        using 1 w1(1) passes_trans [OF w1(2)] unfolding wp_ret x by simp
    next
      case (2 e w')
      then show ?case using w1 passes_trans [OF w1(2)] by auto
    qed
  next
    case (2 e w')
    then show ?case by blast
  qed
qed

lemma retrieve_chunks_wp:
  assumes "manifest_of s cs"
  shows "wp (retrieve_chunks R ws sid (chunk_manifest s))
     (\<lambda>rs w'. still w w' \<and> passes (view w) (view w')
        \<and> list_all2 (is_chunk ws sid (view w)) [0..<length (chunk_manifest s)] rs)
     (\<lambda>e w'. still w w' \<and> passes (view w) (view w')) w"
proof -
  have m: "chunk_manifest s = manifest_from (int 0) cs" using assms by (simp add: manifest_of_def)
  show ?thesis
    unfolding retrieve_chunks_def m sorted_manifest_from bnd_lift_Inr length_manifest_from
    by (rule wp_use [OF retrieve_entries_wp]) auto
qed

text \<open>The cleanup does not raise; it only touches the chunks of the session.\<close>

lemma cleanup_chunk_wp:
  assumes m: "moved ws sid s e {x} st0 (view w)" and x: "is_terminal x"
  shows "wp (cleanup_chunk R ws sid (chunk_entry (int i) n c))
     (\<lambda>_ w'. still w w' \<and> moved ws sid s e {x} st0 (view w') \<and> st_counters (view w') = st_counters (view w)
        \<and> prints_kept (view w) (view w'))
     (\<lambda>_ _. False) w"
proof -
  have dropped: "moved ws sid s e {x} st0 (put_chunk ws sid (str_int (int i)) None st1)
      \<and> st_counters (put_chunk ws sid (str_int (int i)) None st1) = st_counters (view w)"
    if p: "passes (view w) st1" for st1
  proof -
    have m1: "moved ws sid s e {x} st0 st1" by (rule moved_passes [OF m p])
    have "store_ok (put_chunk ws sid (str_int (int i)) None st1)"
      using m1 x by (intro store_ok_put_chunk moved_ok [OF m1]) (auto simp: moved_def own_session_def)
    moreover have "st_counters st1 = st_counters (view w)" by (rule counters_passes [OF moved_ok [OF m] p])
    ultimately show ?thesis using m1 by (simp add: moved_def) (simp add: put_chunk_def)
  qed
  show ?thesis
    unfolding cleanup_chunk_def chunk_index_text_entry bnd_lift_Inr wp_bnd wp_catch wp_fun(1)
  proof (rule wp_use [OF performsD [OF delete_chunk]], goal_cases)
    case (1 _ w')
    then obtain st1 where "passes (view w) st1" "view w' = put_chunk ws sid (str_int (int i)) None st1" by auto
    with 1 dropped [of st1] show ?case by (auto simp: put_chunk_def intro: prints_kept_passes)
  next
    case (2 e' w')
    then obtain st1 where st1: "passes (view w) st1" "is_RedisError e'"
      "view w' = st1 \<or> view w' = put_chunk ws sid (str_int (int i)) None st1" by auto
    have "st_counters st1 = st_counters (view w)" by (rule counters_passes [OF moved_ok [OF m] st1(1)])
    with 2 st1 dropped [of st1] moved_passes [OF m st1(1)] show ?case
      by (auto simp: wp_ret put_chunk_def if_P [OF is_Exception_simps(4)] intro: prints_kept_passes)
  qed
qed

lemma cleanup_wp:
  assumes "moved ws sid s e {x} st0 (view w)" and x: "is_terminal x"
  shows "wp (mapM (cleanup_chunk R ws sid) (manifest_from (int k) cs))
     (\<lambda>_ w'. still w w' \<and> moved ws sid s e {x} st0 (view w') \<and> st_counters (view w') = st_counters (view w)
        \<and> prints_kept (view w) (view w'))
     (\<lambda>_ _. False) w"
  using assms(1)
proof (induction cs arbitrary: k w)
  case Nil
  then show ?case using prints_kept_passes [OF settled] by (simp add: wp_ret)
next
  case (Cons y cs)
  obtain n c where y: "y = (n, c)" by fastforce
  have suc: "int k + 1 = int (Suc k)" by simp
  show ?case
    unfolding y manifest_from.simps mapM.simps wp_bnd suc
  proof (rule wp_use [OF cleanup_chunk_wp [OF Cons.prems x]], goal_cases)
    case (1 r w1)
    then have m1: "moved ws sid s e {x} st0 (view w1)" and k: "prints_kept (view w) (view w1)" by blast+
    show ?case
    proof (rule wp_use [OF Cons.IH [OF m1]], goal_cases)
      case (1 rs w')
      then show ?case using \<open>still w w1 \<and> _\<close> prints_kept_trans [OF k] by (simp add: wp_ret)
    qed simp
  qed simp
qed

text \<open>The event.\<close>

lemma completed_event_wp:
  assumes s: "storable s" "session_id s = sid" "workspace_id s = ws"
  shows "wp (completed_event Env s ws sid p n)
     (\<lambda>ev w'. still w w' \<and> passes (view w) (view w') \<and> announces ws s p n ev)
     (\<lambda>_ w'. still w w' \<and> passes (view w) (view w')) w"
  unfolding completed_event_def wp_bnd
proof (rule wp_use [OF performsD [OF now_utc]], goal_cases)
  case (1 u w1)
  show ?case
  proof (rule wp_use [OF performsD [OF now_utc]], goal_cases)
    case (1 t w2)
    then have "still w w2" "passes (view w) (view w2)"
      using \<open>_ \<and> passes (view w) (view w1) \<and> _\<close> passes_trans [of "view w" "view w1"] by auto
    then show ?case
      using s by (auto simp: wp_lift announces_def FileLoadCompletedEvent_post_init_iff split: sum.splits)
  qed simp
qed simp

lemma publish_event_wp:
  assumes m: "moved ws sid s e X st0 (view w)" and inv: "entry_inv st1 ws sid s e" and ev: "event_ok ev"
  shows "wp (publish_event S P s ev)
     (\<lambda>_ w'. files w' = files w \<and> other w' = other w \<and> passes (view w) (view w')
        \<and> (\<exists>n. 1 \<le> n \<and> n \<le> most \<and> delivered ev n (sent w) (sent w')))
     (\<lambda>_ w'. files w' = files w \<and> other w' = other w \<and> (\<exists>n \<le> most. delivered ev n (sent w) (sent w'))
        \<and> moved ws sid s e (insert FAILED X) st0 (view w') \<and> st_counters (view w') = st_counters (view w)) w"
  unfolding publish_event_def wp_catch
proof (rule wp_use [OF publishes [OF ev]], goal_cases)
  case (1 _ w')
  then show ?case by auto
next
  case (2 x w1)
  then obtain n where w1: "passes (view w) (view w1)" "files w1 = files w" "other w1 = other w" "n \<le> most"
    "delivered ev n (sent w) (sent w1)" by auto
  have m1: "moved ws sid s e X st0 (view w1)" by (rule moved_passes [OF m w1(1)])
  have c1: "st_counters (view w1) = st_counters (view w)" by (rule counters_passes [OF moved_ok [OF m] w1(1)])
  have t: "is_terminal FAILED" by (simp add: is_terminal_def)
  show ?case
  proof (cases "is_InfrastructureError x")
    case True
    have "wp (update_session S (s\<lparr>status := FAILED\<rparr>))
       (\<lambda>_ w'. still w1 w' \<and> moved ws sid s e (insert FAILED X) st0 (view w') \<and> st_counters (view w') = st_counters (view w1))
       (\<lambda>_ w'. still w1 w' \<and> moved ws sid s e (insert FAILED X) st0 (view w') \<and> st_counters (view w') = st_counters (view w1)) w1"
      by (rule wp_use [OF update_status_wp [OF m1 inv t]]) (auto elim!: moved_mono)
    then show ?thesis
      unfolding if_P [OF True] wp_bnd wp_fun mark_failed_def
      by (rule wp_use) (use w1 c1 in auto)
  next
    case False
    then show ?thesis using w1 c1 moved_mono [OF m1, of "insert FAILED X"] by (auto simp: wp_raise)
  qed
qed

lemma commit_session_wp:
  assumes m: "moved ws sid s e {status s} st0 (view w)" and inv: "entry_inv st1 ws sid s e" and s: "completable ws s"
  shows "wp (commit_session S s)
     (\<lambda>_ w'. still w w' \<and> moved ws sid s e {COMPLETE} st0 (view w') \<and> st_counters (view w') = st_counters (view w))
     (\<lambda>_ w'. still w w' \<and> moved ws sid s e {COMPLETE, status s} st0 (view w') \<and> st_counters (view w') = st_counters (view w)) w"
proof -
  have c: "mark_complete s = Inr (s\<lparr>status := COMPLETE\<rparr>)"
    using s by (simp add: mark_complete_def completable_def is_terminal_def)
  show ?thesis
    unfolding commit_session_def c bnd_lift_Inr
    by (rule wp_use [OF update_status_wp [OF m inv]]) (auto simp: is_terminal_def)
qed

text \<open>After the session is committed nothing raises.\<close>

lemma register_fingerprint_wp:
  assumes ids: "ws \<noteq> 0" and m: "moved ws sid s e X st0 (view w)" and p: "starts_with ''s3://'' p" and n: "0 \<le> n"
  shows "wp (register_fingerprint D Env ws s sid p n)
     (\<lambda>_ w'. still w w' \<and> moved ws sid s e X st0 (view w') \<and> st_counters (view w') = st_counters (view w)
        \<and> (fingerprint_stored ws s sid p n (view w') \<or> (\<exists>m x w1. register_file D ws (sha256_checksum s) m w1 = (Inl x, w')
             \<and> fm_file_id m = sid \<and> fm_s3_path m = p \<and> fm_size m = n)))
     (\<lambda>_ _. False) w"
  unfolding register_fingerprint_def wp_catch wp_bnd
proof (rule wp_use [OF performsD [OF now_utc]], goal_cases)
  case (1 t w1)
  let ?m = "\<lparr>fm_file_id = sid, fm_s3_path = p, fm_size = n, fm_uploaded_at = t\<rparr>"
  have w1: "still w w1" "passes (view w) (view w1)" "valid_datetime t" "utcoff t = Some 0" using 1 by auto
  have ok: "metadata_ok ?m" using w1(4) n strip_path [OF p] by (simp add: metadata_ok_def is_aware_def)
  then have pi: "FileMetadata_post_init ?m = Inr ?m" by (simp add: FileMetadata_post_init_iff)
  have st: "metadata_storable ?m" using ok w1(3) by (simp add: metadata_storable_def)
  have kept: "moved ws sid s e X st0 st' \<and> st_counters st' = st_counters (view w)"
    if "passes (view w1) st1" "st' = st1 \<or> registered_file ws h md st1 st'" for st1 st' h md
  proof -
    have p1: "passes (view w) st1" by (rule passes_trans [OF w1(2) that(1)])
    have m1: "moved ws sid s e X st0 st1" by (rule moved_passes [OF m p1])
    have c1: "st_counters st1 = st_counters (view w)" by (rule counters_passes [OF moved_ok [OF m] p1])
    have "moved ws sid s e X st0 (put_file ws h x st1)" for x
      using m1 store_ok_put_file [OF moved_ok [OF m1]] by (simp add: moved_def) (simp add: put_file_def)
    with that(2) m1 c1 show ?thesis by (auto simp: registered_file_def put_file_def)
  qed
  show ?case
    unfolding pi wp_lift sum.case
  proof (rule wp_use [OF wp_run [OF performsD [OF register [OF ids st]]]], goal_cases)
    case (1 _ w')
    then obtain st1 where st1: "passes (view w1) st1" "registered_file ws (hash_value (sha256_checksum s)) ?m st1 (view w')"
      by auto
    then obtain x where x: "st_files (view w') ws (hash_value (sha256_checksum s)) = Some (Some ?m, x)"
      by (auto simp: registered_file_def put_file_def)
    then have "st_files (view w') ws (hash_value (sha256_checksum s)) = tick_value (st_now (view w')) (Some (Some ?m, x))"
      using passesD(6) [OF settled, of w'] by metis
    then have "fingerprint_stored ws s sid p n (view w')"
      unfolding fingerprint_stored_def by (intro exI conjI) simp_all
    with 1 w1(1) kept [OF st1(1), of "view w'"] st1(2) show ?case by auto
  next
    case (2 x w')
    then obtain st1 where st1: "passes (view w1) st1" "is_Exception x"
      "view w' = st1 \<or> registered_file ws (hash_value (sha256_checksum s)) ?m st1 (view w')" by auto
    moreover have "\<exists>m x w1. register_file D ws (sha256_checksum s) m w1 = (Inl x, w') \<and> fm_file_id m = sid
        \<and> fm_s3_path m = p \<and> fm_size m = n"
      using 2 by (intro exI [of _ ?m]) auto
    ultimately show ?case using 2 w1(1) kept [OF st1(1,3)] by (auto simp: wp_ret)
  qed
qed simp

lemma fingerprint_stored_kept:
  "fingerprint_stored ws s sid p n st \<Longrightarrow> prints_kept st st' \<Longrightarrow> fingerprint_stored ws s sid p n st'"
  unfolding fingerprint_stored_def prints_kept_def by (metis tick_value_tick_value)

lemma wrap_up_wp:
  assumes ids: "ws \<noteq> 0" and m: "moved ws sid s e {COMPLETE} st0 (view w)" and cs: "manifest_of s cs"
    and k: "count_in (view w) ws = Some k" and p: "starts_with ''s3://'' p" and n: "0 \<le> n" and sid: "session_id s = sid"
  shows "wp (wrap_up L D R Env ws sid s p n)
     (\<lambda>r w'. still w w' \<and> moved ws sid s e {COMPLETE} st0 (view w') \<and> finish L D view ws s p n k (view w')
        \<and> r = \<lparr>cures_file_id = sid, cures_s3_path = p, cures_size_bytes = n\<rparr>)
     (\<lambda>_ _. False) w"
proof -
  have t: "is_terminal COMPLETE" by (simp add: is_terminal_def)
  have man: "chunk_manifest s = manifest_from (int 0) cs" using cs by (simp add: manifest_of_def)
  have "p \<noteq> []" using p by (auto simp: starts_with_def)
  then have r: "CompleteUploadResponse_post_init \<lparr>cures_file_id = sid, cures_s3_path = p, cures_size_bytes = n\<rparr>
      = Inr \<lparr>cures_file_id = sid, cures_s3_path = p, cures_size_bytes = n\<rparr>"
    using n by (simp add: CompleteUploadResponse_post_init_def)
  show ?thesis
    unfolding wrap_up_def wp_bnd release_slot_def
  proof (rule wp_use [OF decrement_part_wp [OF ids moved_ok [OF m] k]], goal_cases)
    case w1: (1 _ w1)
    have m1: "moved ws sid s e {COMPLETE} st0 (view w1)"
      by (rule moved_kept [OF m]) (use w1 in blast)+
    show ?case
    proof (rule wp_use [OF register_fingerprint_wp [OF ids m1 p n]], goal_cases)
      case w2: (1 _ w2)
      have m2: "moved ws sid s e {COMPLETE} st0 (view w2)" using w2 by blast
      show ?case
        unfolding cleanup_chunks_def wp_catch wp_bnd man r wp_fun
      proof (rule wp_use [OF cleanup_wp [OF m2 t]], goal_cases)
        case (1 _ w3)
        then have w3: "still w2 w3" "moved ws sid s e {COMPLETE} st0 (view w3)"
          "st_counters (view w3) = st_counters (view w2)" "prints_kept (view w2) (view w3)" by blast+
        have "st_counters (view w3) = st_counters (view w1)" using w3 w2 by simp
        then have "count_in (view w3) ws = count_in (view w1) ws" by (simp add: count_in_def)
        have "count_in (view w3) ws = Some (max 0 (k - 1))
            \<or> (\<exists>e w1 w2. decrement L ws w1 = (Inl e, w2) \<and> count_in (view w1) ws = Some k
                  \<and> st_counters (view w2) = st_counters (view w3))"
          using w1 k \<open>st_counters (view w3) = st_counters (view w1)\<close> \<open>count_in (view w3) ws = count_in (view w1) ws\<close>
          by metis
        moreover have "fingerprint_stored ws s sid p n (view w3)
            \<or> (\<exists>m e w1 w2. register_file D ws (sha256_checksum s) m w1 = (Inl e, w2) \<and> fm_file_id m = sid
                  \<and> fm_s3_path m = p \<and> fm_size m = n \<and> prints_kept (view w2) (view w3))"
          using w2 fingerprint_stored_kept [OF _ w3(4)] w3(4) by blast
        ultimately have "finish L D view ws s p n k (view w3)" by (simp add: finish_def sid)
        then show ?case using w1 w2 w3 by (simp add: wp_lift)
      qed simp
    qed simp
  qed simp
qed

text \<open>What holds when a step has raised, before the session is marked.\<close>

definition gave_up :: "uuid \<Rightarrow> uuid \<Rightarrow> UploadSession \<Rightarrow> nat option \<Rightarrow> store \<Rightarrow> 'w \<Rightarrow> 'w \<Rightarrow> bool" where
  "gave_up ws sid s e st0 w w' = (other w' = other w \<and> st_counters (view w') = st_counters (view w)
     \<and> (files w' = files w \<or> files w (loc ws sid) = None \<and> (\<exists>b. files w' = (files w)(loc ws sid \<mapsto> b)))
     \<and> (\<exists>ev n. n \<le> most \<and> delivered ev n (sent w) (sent w') \<and> (n = 0 \<or> filed ws s (path ws sid) (loc ws sid) (files w') ev)
          \<and> moved ws sid s e (if n = 0 then {status s, FAILED} else {status s, FAILED, COMPLETE}) st0 (view w')))"

lemma gave_upI:
  assumes "other w' = other w" and "st_counters (view w') = st_counters (view w)"
    and "files w' = files w \<or> files w (loc ws sid) = None \<and> (\<exists>b. files w' = (files w)(loc ws sid \<mapsto> b))"
    and "n \<le> most" and "delivered ev n (sent w) (sent w')" and "n = 0 \<or> filed ws s (path ws sid) (loc ws sid) (files w') ev"
    and "moved ws sid s e X st0 (view w')" and "X \<subseteq> (if n = 0 then {status s, FAILED} else {status s, FAILED, COMPLETE})"
  shows "gave_up ws sid s e st0 w w'"
  using assms(1-6) moved_mono [OF assms(7,8)] unfolding gave_up_def by blast

text \<open>The content \<open>c\<close> is stored, its event was delivered \<open>n\<close> times, and the session has one of the statuses \<open>X\<close>.\<close>

definition filing :: "uuid \<Rightarrow> uuid \<Rightarrow> UploadSession \<Rightarrow> nat option \<Rightarrow> store \<Rightarrow> bytes \<Rightarrow> 'w \<Rightarrow> SessionStatus set
    \<Rightarrow> FileLoadCompletedEvent \<Rightarrow> nat \<Rightarrow> 'w \<Rightarrow> bool" where
  "filing ws sid s e st0 c w X ev n w' = (c \<noteq> [] \<and> sha256_hex c = hash_value (sha256_checksum s)
     \<and> files w (loc ws sid) = None \<and> files w' = (files w)(loc ws sid \<mapsto> c) \<and> other w' = other w
     \<and> n \<le> most \<and> delivered ev n (sent w) (sent w') \<and> (n = 0 \<or> announces ws s (path ws sid) (int (length c)) ev)
     \<and> moved ws sid s e X st0 (view w') \<and> st_counters (view w') = st_counters (view w))"

lemma filing_step:
  assumes "filing ws sid s e st0 c w X ev n w1" and "files w' = files w1" "other w' = other w1" "sent w' = sent w1"
    and "moved ws sid s e Y st0 (view w')" "st_counters (view w') = st_counters (view w1)"
  shows "filing ws sid s e st0 c w Y ev n w'"
  using assms by (simp add: filing_def)

lemma filing_idle:
  assumes f: "filing ws sid s e st0 c w X ev n w1" and "still w1 w'" "passes (view w1) (view w')"
  shows "filing ws sid s e st0 c w X ev n w'"
proof -
  have m: "moved ws sid s e X st0 (view w1)" using f by (simp add: filing_def)
  show ?thesis
    by (rule filing_step [OF f]) (use assms(2) moved_passes [OF m assms(3)] counters_passes [OF moved_ok [OF m] assms(3)] in auto)
qed

lemma filing_deliver:
  assumes "filing ws sid s e st0 c w X ev 0 w1" and "files w' = files w1" "other w' = other w1"
    and "n \<le> most" "delivered ev' n (sent w1) (sent w')" "announces ws s (path ws sid) (int (length c)) ev'"
    and "moved ws sid s e Y st0 (view w')" "st_counters (view w') = st_counters (view w1)"
  shows "filing ws sid s e st0 c w Y ev' n w'"
  using assms by (simp add: filing_def)

lemma filing_gave_up:
  assumes f: "filing ws sid s e st0 c w X ev n w'"
    and X: "X \<subseteq> (if n = 0 then {status s, FAILED} else {status s, FAILED, COMPLETE})"
  shows "gave_up ws sid s e st0 w w'"
  by (rule gave_upI [of w' w ws sid n ev s e X st0]) (use f X in \<open>auto simp: filing_def filed_def\<close>)

text \<open>The call, as it stands when the file is assembled.\<close>

definition assembled_call :: "uuid \<Rightarrow> uuid \<Rightarrow> UploadSession \<Rightarrow> nat option \<Rightarrow> store \<Rightarrow> bytes \<Rightarrow> int \<Rightarrow> 'w \<Rightarrow> bool" where
  "assembled_call ws sid s e st0 c k w = (ws \<noteq> 0 \<and> entry_inv (view w) ws sid s e \<and> completable ws s
     \<and> st_sessions st0 ws sid = Some (Some s, e) \<and> c = content_in st0 ws sid \<and> count_in (view w) ws = Some k)"

definition completes :: "uuid \<Rightarrow> uuid \<Rightarrow> UploadSession \<Rightarrow> store \<Rightarrow> int \<Rightarrow> 'w \<Rightarrow> CompleteUploadResponse \<Rightarrow> 'w \<Rightarrow> bool" where
  "completes ws sid s st0 k w r w' = (other w' = other w
     \<and> completed ws sid (path ws sid) (loc ws sid) most st0 (files w) (sent w) r (view w') (files w') (sent w')
     \<and> finish L D view ws s (path ws sid) (cures_size_bytes r) k (view w'))"

lemma committed_wp:
  assumes a: "assembled_call ws sid s e st0 c k w" and f: "filing ws sid s e st0 c w {COMPLETE} ev n w1" and n: "1 \<le> n"
  shows "wp (wrap_up L D R Env ws sid s (path ws sid) (int (length c))) (completes ws sid s st0 k w) (\<lambda>_ _. False) w1"
proof -
  obtain cs where cs: "manifest_of s cs" and sid: "session_id s = sid" and ws: "ws \<noteq> 0"
    using a by (auto simp: assembled_call_def entry_inv_def)
  have m: "moved ws sid s e {COMPLETE} st0 (view w1)" and k: "count_in (view w1) ws = Some k"
    using a f by (auto simp: filing_def assembled_call_def count_in_def)
  have size: "0 \<le> int (length c)" by simp
  show ?thesis
  proof (rule wp_use [OF wrap_up_wp [OF ws m cs k path_scheme size sid]], goal_cases)
    case (1 r w')
    have "completed ws sid (path ws sid) (loc ws sid) most st0 (files w) (sent w) r (view w') (files w') (sent w')"
      unfolding completed_def Let_def
      using a f n 1 by (intro exI [of _ s] exI [of _ e] exI [of _ ev] exI [of _ n]) (auto simp: assembled_call_def filing_def)
    with 1 f show ?case by (simp add: completes_def filing_def)
  qed
qed

lemma announced_wp:
  assumes a: "assembled_call ws sid s e st0 c k w" and f: "filing ws sid s e st0 c w {status s} prev 0 w1"
    and ev: "announces ws s (path ws sid) (int (length c)) ev"
  shows "wp (bnd (publish_event S P s ev) (\<lambda>_. bnd (commit_session S s) (\<lambda>_.
        wrap_up L D R Env ws sid s (path ws sid) (int (length c)))))
     (completes ws sid s st0 k w) (\<lambda>_ w'. gave_up ws sid s e st0 w w') w1"
  unfolding wp_bnd
proof (rule wp_use [OF publish_event_wp [of ws sid s e "{status s}" st0 w1 "view w" ev]], goal_cases)
  case (4 _ w2)
  then obtain n where n: "1 \<le> n" "n \<le> most" "delivered ev n (sent w1) (sent w2)" by blast
  have m1: "moved ws sid s e {status s} st0 (view w1)" using f by (simp add: filing_def)
  have p2: "passes (view w1) (view w2)" using 4 by blast
  have f2: "filing ws sid s e st0 c w {status s} ev n w2"
    by (rule filing_deliver [OF f _ _ n(2,3) ev])
      (use 4 moved_passes [OF m1 p2] counters_passes [OF moved_ok [OF m1] p2] in auto)
  have m2: "moved ws sid s e {status s} st0 (view w2)" using f2 by (simp add: filing_def)
  have inv: "entry_inv (view w) ws sid s e" and c: "completable ws s" using a by (simp_all add: assembled_call_def)
  show ?case
  proof (rule wp_use [OF commit_session_wp [OF m2 inv c]], goal_cases)
    case (1 _ w3)
    then have "filing ws sid s e st0 c w {COMPLETE} ev n w3" by (intro filing_step [OF f2]) auto
    then show ?case by (rule wp_use [OF committed_wp [OF a _ n(1)]]) auto
  next
    case (2 x w3)
    then have "filing ws sid s e st0 c w {COMPLETE, status s} ev n w3" by (intro filing_step [OF f2]) auto
    then show ?case by (rule filing_gave_up) (use n(1) in auto)
  qed
next
  case (5 x w2)
  then obtain n where n: "n \<le> most" "delivered ev n (sent w1) (sent w2)" by blast
  have "filing ws sid s e st0 c w (insert FAILED {status s}) ev n w2"
    by (rule filing_deliver [OF f _ _ n ev]) (use 5 in auto)
  then show ?case by (rule filing_gave_up) auto
qed (use a f ev in \<open>simp_all add: assembled_call_def filing_def announces_def\<close>)

lemma assembled_wp:
  assumes a: "assembled_call ws sid s e st0 c k w" and f: "filing ws sid s e st0 c w {status s} prev 0 w1"
  shows "wp (bnd (check_duplicate D ws (sha256_checksum s)) (\<lambda>duplicate_metadata. case duplicate_metadata of
        Some m \<Rightarrow> reject_duplicate S s m
      | None \<Rightarrow> bnd (completed_event Env s ws sid (path ws sid) (int (length c))) (\<lambda>event.
          bnd (publish_event S P s event) (\<lambda>_. bnd (commit_session S s) (\<lambda>_.
          wrap_up L D R Env ws sid s (path ws sid) (int (length c)))))))
     (completes ws sid s st0 k w) (\<lambda>_ w'. gave_up ws sid s e st0 w w') w1"
  unfolding wp_bnd [of "check_duplicate _ _ _"]
proof (rule wp_use [OF performsD [OF check_dup]], goal_cases)
  case 1
  show ?case using a by (simp add: assembled_call_def)
next
  case (2 dup w2)
  then have f2: "filing ws sid s e st0 c w {status s} prev 0 w2" by (intro filing_idle [OF f]) auto
  then have m2: "moved ws sid s e {status s} st0 (view w2)" by (simp add: filing_def)
  have inv: "entry_inv (view w) ws sid s e" and s: "storable s" "session_id s = sid" "workspace_id s = ws"
    using a by (auto simp: assembled_call_def entry_inv_def)
  show ?case
  proof (cases dup)
    case (Some md)
    have t: "is_terminal FAILED" by (simp add: is_terminal_def)
    have failed: "gave_up ws sid s e st0 w w'"
      if "still w2 w'" "moved ws sid s e X st0 (view w')" "st_counters (view w') = st_counters (view w2)"
        "X \<subseteq> {status s, FAILED}" for w' X
      by (rule filing_gave_up [OF filing_step [OF f2 _ _ _ that(2)]]) (use that in auto)
    show ?thesis
      unfolding Some option.case reject_duplicate_def wp_bnd mark_failed_def
      by (rule wp_use [OF update_status_wp [OF m2 inv t]]) (auto simp: wp_raise intro: failed)
  next
    case None
    show ?thesis
      unfolding None option.case wp_bnd [of "completed_event _ _ _ _ _ _"]
    proof (rule wp_use [OF completed_event_wp [OF s]], goal_cases)
      case (1 ev w3)
      then have "filing ws sid s e st0 c w {status s} prev 0 w3" by (intro filing_idle [OF f2]) auto
      then show ?case using 1 by (intro announced_wp [OF a]) auto
    next
      case (2 x w3)
      then show ?case by (intro filing_gave_up [OF filing_idle [OF f2]]) auto
    qed
  qed
next
  case (3 x w2)
  then show ?case by (intro filing_gave_up [OF filing_idle [OF f]]) auto
qed

text \<open>The assembled chunks are the content of the session.\<close>

lemma assembled_filing:
  assumes a: "assembled (loc ws sid) (path ws sid) rs (sha256_checksum s) r (files w1) (files w2)"
    and rs: "list_all2 (is_chunk ws sid st0) [0..<length (chunk_manifest s)] rs"
    and live0: "st_sessions st0 ws sid = Some (Some s, e)" and m0: "moved ws sid s e {status s} st0 (view w)"
    and w1: "still w w1" and p: "passes (view w) (view w2)" and w2: "other w2 = other w1" "sent w2 = sent w1"
  shows "filing ws sid s e st0 (content_in st0 ws sid) w {status s} ev 0 w2"
    and "r = (path ws sid, int (length (content_in st0 ws sid)))"
proof -
  let ?bs = "map (chunk_bytes st0 ws sid) [0..<length (chunk_manifest s)]"
  have "mapR bytes_of (map RBytes ?bs) = Inr ?bs"
    by (subst mapR_map [where g = "case_reply id (\<lambda>_. [])"]) (auto simp: o_def)
  then have bytes: "mapR bytes_of rs = Inr ?bs" using is_chunk_bytes [OF rs] by simp
  have content: "concat ?bs = content_in st0 ws sid" using live0 by (simp add: content_in_def session_in_def)
  have ne: "concat bs \<noteq> []" if "bs \<noteq> []" "[] \<notin> set bs" for bs :: "bytes list" using that by (cases bs) auto
  from a have "concat ?bs \<noteq> []" "files w1 (loc ws sid) = None" "files w2 = (files w1)(loc ws sid \<mapsto> concat ?bs)"
    "sha256_hex (concat ?bs) = hash_value (sha256_checksum s)" "r = (path ws sid, int (length (concat ?bs)))"
    unfolding assembled_def bytes using ne [of ?bs] by auto
  moreover have "moved ws sid s e {status s} st0 (view w2)" "st_counters (view w2) = st_counters (view w)"
    by (rule moved_passes [OF m0 p], rule counters_passes [OF moved_ok [OF m0] p])
  ultimately show "filing ws sid s e st0 (content_in st0 ws sid) w {status s} ev 0 w2"
    "r = (path ws sid, int (length (content_in st0 ws sid)))"
    using w1 w2 unfolding content by (simp_all add: filing_def)
qed

lemma complete_steps_wp:
  assumes ids: "ws \<noteq> 0" and p0: "passes st0 (view w)" and ok: "store_ok (view w)"
    and live: "st_sessions (view w) ws sid = Some (Some s, e)" and k: "count_in (view w) ws = Some k"
  shows "wp (complete_steps S St D P L R Env ws sid s) (completes ws sid s st0 k w) (\<lambda>_ w'. gave_up ws sid s e st0 w w') w"
proof -
  have inv: "entry_inv (view w) ws sid s e"
    using ok live sessions_okD [of "view w" ws sid] by (auto simp: store_ok_def)
  then obtain cs where cs: "manifest_of s cs" and size: "0 < file_size s"
    by (auto simp: entry_inv_def storable_def session_ok_def)
  have m0: "moved ws sid s e {status s} st0 (view w)" by (rule moved_start [OF p0 live ok])
  have live0: "st_sessions st0 ws sid = Some (Some s, e)" using live by (simp add: passesD [OF p0] tick_value_Some)
  have early: "gave_up ws sid s e st0 w w'" if "other w' = other w" "sent w' = sent w" "passes (view w) (view w')"
      "files w' = files w \<or> files w (loc ws sid) = None \<and> (\<exists>b. files w' = (files w)(loc ws sid \<mapsto> b))" for w'
    by (rule gave_upI [of w' w ws sid 0 undefined s e "{status s}" st0])
      (use that counters_passes [OF ok that(3)] moved_passes [OF m0 that(3)] in auto)
  show ?thesis
  proof (cases "check_completable ws sid s")
    case (Inl x)
    then show ?thesis using early [of w] settled by (simp add: complete_steps_def wp_raise)
  next
    case (Inr u)
    then have c: "check_completable ws sid s = Inr ()" "completable ws s"
      using check_completable_iff [OF cs size] by (cases u, simp)+
    have a: "assembled_call ws sid s e st0 (content_in st0 ws sid) k w"
      using ids inv c(2) live0 k by (simp add: assembled_call_def)
    show ?thesis
      unfolding complete_steps_def c(1) bnd_lift_Inr wp_bnd [of "retrieve_chunks _ _ _ _"] wp_bnd [of "assemble_file _ _ _ _ _"]
    proof (rule wp_use [OF retrieve_chunks_wp [OF cs]], goal_cases)
      case w1: (1 rs w1)
      then have chunks: "list_all2 (is_chunk ws sid st0) [0..<length (chunk_manifest s)] rs"
        using is_chunk_passes [OF p0] by (blast intro: list_all2_mono)
      show ?case
      proof (rule wp_use [OF assembles], goal_cases)
        case (1 r w2)
        then have p2: "passes (view w) (view w2)" using w1 passes_trans by blast
        from 1 w1 have "assembled (loc ws sid) (path ws sid) rs (sha256_checksum s) r (files w1) (files w2)" "still w w1"
          "other w2 = other w1" "sent w2 = sent w1" by auto
        note af = assembled_filing [OF this(1) chunks live0 m0 this(2) p2 this(3,4)]
        show ?case unfolding af(2) prod.case by (rule assembled_wp [OF a af(1)])
      next
        case (2 x w2)
        then show ?case
          using w1 passes_trans [of "view w" "view w1" "view w2"] by (intro early) (auto simp: not_assembled_def)
      qed
    next
      case (2 x w1)
      then show ?case by (intro early) auto
    qed
  qed
qed

text \<open>The session is marked after a step has raised.\<close>

lemma gave_up_wp:
  assumes g: "gave_up ws sid s e (view w) w1 w2" and w1: "still w w1" "st_counters (view w1) = st_counters (view w)"
    and inv: "entry_inv st1 ws sid s e" and live: "st_sessions (view w) ws sid = Some (Some s, e)"
  shows "wp (fail_session S s x) (\<lambda>_ _. False)
     (\<lambda>_ w'. other w' = other w \<and> store_ok (view w')
        \<and> not_completed ws sid (path ws sid) (loc ws sid) most (view w) (files w) (sent w) (view w') (files w') (sent w')) w2"
proof -
  from g w1 obtain ev n where g: "other w2 = other w" "st_counters (view w2) = st_counters (view w)"
    "files w2 = files w \<or> files w (loc ws sid) = None \<and> (\<exists>b. files w2 = (files w)(loc ws sid \<mapsto> b))"
    "n \<le> most" "delivered ev n (sent w) (sent w2)" "n = 0 \<or> filed ws s (path ws sid) (loc ws sid) (files w2) ev"
    "moved ws sid s e (if n = 0 then {status s, FAILED} else {status s, FAILED, COMPLETE}) (view w) (view w2)"
    unfolding gave_up_def by auto
  let ?X = "if n = 0 then {status s, FAILED} else {status s, FAILED, COMPLETE}"
  show ?thesis
  proof (rule wp_use [OF fail_session_wp [OF g(7) inv]], goal_cases)
    case (2 x' w')
    have "insert FAILED ?X = ?X" by auto
    with 2 have w': "sent w' = sent w2" "files w' = files w2" "other w' = other w2"
      "st_counters (view w') = st_counters (view w2)" and m: "moved ws sid s e ?X (view w) (view w')" by auto
    have "not_completed ws sid (path ws sid) (loc ws sid) most (view w) (files w) (sent w) (view w') (files w') (sent w')"
      unfolding w'(1) by (rule not_completedI [OF _ _ live g(4,5) _ m]) (simp_all only: w' g(2,3,6))
    then show ?case using w'(3) g(1) moved_ok [OF m] by simp
  qed simp
qed

lemma complete_wp:
  assumes ids: "cur_workspace_id req \<noteq> 0" "cur_session_id req \<noteq> 0" and ok: "store_ok (view w)"
    and k: "count_in (view w) (cur_workspace_id req) = Some k"
  shows "wp (complete_upload S St D P L R Env req)
     (\<lambda>r w'. other w' = other w \<and> store_ok (view w')
        \<and> completed (cur_workspace_id req) (cur_session_id req) (path (cur_workspace_id req) (cur_session_id req))
            (loc (cur_workspace_id req) (cur_session_id req)) most (view w) (files w) (sent w) r (view w') (files w') (sent w')
        \<and> (\<exists>s. session_id s = cur_session_id req
             \<and> finish L D view (cur_workspace_id req) s (cures_s3_path r) (cures_size_bytes r) k (view w')))
     (\<lambda>_ w'. other w' = other w \<and> store_ok (view w')
        \<and> not_completed (cur_workspace_id req) (cur_session_id req) (path (cur_workspace_id req) (cur_session_id req))
            (loc (cur_workspace_id req) (cur_session_id req)) most
            (view w) (files w) (sent w) (view w') (files w') (sent w')) w"
    (is "wp _ ?Q ?E w")
  unfolding complete_upload_def wp_bnd
proof (rule wp_use [OF performsD [OF get [OF ids]]], goal_cases)
  case w1: (1 found w1)
  let ?ws = "cur_workspace_id req" and ?sid = "cur_session_id req"
  have p1: "still w w1" "passes (view w) (view w1)" using w1 by auto
  have ok1: "store_ok (view w1)" by (rule store_ok_passes [OF ok p1(2)])
  have c1: "st_counters (view w1) = st_counters (view w)" by (rule counters_passes [OF ok p1(2)])
  show ?case
  proof (cases found)
    case None
    then show ?thesis using p1 ok1 c1 by (auto simp: wp_raise not_completed_def)
  next
    case (Some s)
    then obtain e where live: "st_sessions (view w1) ?ws ?sid = Some (Some s, e)" and inv: "entry_inv (view w1) ?ws ?sid s e"
      using session_in_ok [of "view w1" ?ws ?sid s] ok1 w1 unfolding store_ok_def by auto
    have live0: "st_sessions (view w) ?ws ?sid = Some (Some s, e)"
      using live by (simp add: passesD [OF p1(2)] tick_value_Some)
    have k1: "count_in (view w1) ?ws = Some k" using k c1 by (simp add: count_in_def)
    show ?thesis
      unfolding Some option.case wp_catch
    proof (rule wp_use [OF complete_steps_wp [OF ids(1) p1(2) ok1 live k1]], goal_cases)
      case (1 r w')
      then have fin: "completed ?ws ?sid (path ?ws ?sid) (loc ?ws ?sid) most (view w) (files w) (sent w) r (view w') (files w') (sent w')"
        "finish L D view ?ws s (path ?ws ?sid) (cures_size_bytes r) k (view w')" "other w' = other w1"
        using p1 by (auto simp: completes_def)
      then have "store_ok (view w')" "cures_s3_path r = path ?ws ?sid"
        by (auto simp: completed_def Let_def dest: moved_ok)
      moreover have "session_id s = ?sid" using inv by (simp add: entry_inv_def)
      ultimately show ?case using 1 p1 fin by auto
    next
      case (2 x w2)
      show ?case by (rule wp_use [OF gave_up_wp [OF 2 p1(1) c1 inv live0]]) auto
    qed
  qed
next
  case (2 x w')
  then have "passes (view w) (view w')" "still w w'" by auto
  then show ?case using store_ok_passes [OF ok] counters_passes [OF ok] by (auto simp: not_completed_def)
qed

end

end
