(* ===== verification/Webhook_Publisher.thy ===== *)
theory Webhook_Publisher
  imports Events S3_Client
begin

text \<open>
  \<open>src/infrastructure/webhooks/webhook_publisher.py\<close>: \<open>WebhookEventPublisher\<close>. The HTTP client (httpx) is a
  parameter, the record \<open>http_client\<close>; \<open>webhook_receiver\<close> says that a POST that is answered has
  reached the receiver once. \<open>webhook_wp\<close>: an accepted event was posted with the signature its
  receiver can recompute from the body. \<open>urlparse_parts\<close> is the part of \<open>urllib.parse.urlparse\<close> the constructor
  looks at; the check of an address in brackets, which differs between Python versions, is its
  parameter.
\<close>

section \<open>Parsing the URL\<close>

definition lstrip_controls :: "string \<Rightarrow> string" where
  "lstrip_controls s = dropWhile (\<lambda>c. code c \<le> 32) s"

definition is_ascii_letter :: "char \<Rightarrow> bool" where
  "is_ascii_letter c = (let n = code c in (65 \<le> n \<and> n \<le> 90) \<or> (97 \<le> n \<and> n \<le> 122))"

definition is_scheme_char :: "char \<Rightarrow> bool" where
  "is_scheme_char c = (is_ascii_letter c \<or> is_digit c \<or> c \<in> set ''+-.'')"

text \<open>The scheme and what follows it.\<close>

definition split_scheme :: "string \<Rightarrow> string \<times> string" where
  "split_scheme url =
     (let s = takeWhile (\<lambda>c. c \<noteq> CHR '':'') url in
      if length s < length url \<and> s \<noteq> [] \<and> is_ascii_letter (hd s) \<and> list_all is_scheme_char s
      then (lower_str s, drop (Suc (length s)) url) else ([], url))"

definition split_netloc :: "string \<Rightarrow> string" where
  "split_netloc rest =
     (if starts_with ''//'' rest then takeWhile (\<lambda>c. c \<notin> set ''/?#'') (drop 2 rest) else [])"

definition urlparse_parts :: "(string \<Rightarrow> bool) \<Rightarrow> string \<Rightarrow> exn + string \<times> string" where
  "urlparse_parts bracketed_ok url =
     (let u = filter (\<lambda>c. c \<notin> set [CHR 0x09, CHR 0x0A, CHR 0x0D]) (lstrip_controls url);
          (scheme, rest) = split_scheme u; netloc = split_netloc rest;
          opened = (CHR ''['' \<in> set netloc); closed = (CHR '']'' \<in> set netloc)
      in if opened \<noteq> closed \<or> (opened \<and> closed \<and> \<not> bracketed_ok netloc)
         then Inl (ValueError ''Invalid IPv6 URL'') else Inr (scheme, netloc))"

section \<open>The class\<close>

record 'w http_client =
  h_post :: "string \<Rightarrow> string \<Rightarrow> (string \<times> string) list \<Rightarrow> ('w, int) io"
  h_raise_for_status :: "int \<Rightarrow> exn + unit"

record WebhookEventPublisher =
  wh_url :: string
  wh_secret :: string
  wh_timeout :: int

definition mk_WebhookEventPublisher :: "(string \<Rightarrow> bool) \<Rightarrow> string \<Rightarrow> string \<Rightarrow> int \<Rightarrow> exn + WebhookEventPublisher" where
  "mk_WebhookEventPublisher bracketed_ok url secret timeout =
     andThen (check (url \<noteq> [] \<and> strip url \<noteq> []) (ValueError ''webhook_url cannot be empty'')) (\<lambda>_.
     andThen (check (secret \<noteq> [] \<and> strip secret \<noteq> []) (ValueError ''webhook_secret cannot be empty'')) (\<lambda>_.
     andThen (check (0 < timeout) (ValueError ''webhook_timeout must be positive'')) (\<lambda>_.
     andThen (urlparse_parts bracketed_ok url) (\<lambda>(scheme, netloc).
     andThen (check (scheme \<noteq> [] \<and> netloc \<noteq> []) (ValueError (''Invalid webhook URL format: '' @ url))) (\<lambda>_.
     Inr \<lparr>wh_url = url, wh_secret = secret, wh_timeout = timeout\<rparr>)))))"

definition generate_signature :: "WebhookEventPublisher \<Rightarrow> string \<Rightarrow> string" where
  "generate_signature c payload_json =
     hex_of_bytes (hmac_sha256 (utf8_encode (wh_secret c)) (utf8_encode payload_json))"

definition webhook_headers :: "WebhookEventPublisher \<Rightarrow> FileLoadCompletedEvent \<Rightarrow> string \<Rightarrow> (string \<times> string) list" where
  "webhook_headers c ev payload_json =
     [(''Content-Type'', ''application/json''),
      (''X-Webhook-Signature'', ''sha256='' @ generate_signature c payload_json),
      (''X-Event-Type'', ev_event_type ev),
      (''X-Idempotency-Key'', uuid_str (ev_file_id ev))]"

definition webhook_failed :: "exn \<Rightarrow> exn" where
  "webhook_failed e = InfrastructureError (case e of
     HttpxTimeout m \<Rightarrow> ''Webhook timeout: '' @ m
   | HTTPStatusError n m \<Rightarrow> ''Webhook HTTP error '' @ str_int n @ '': '' @ m
   | _ \<Rightarrow> ''Webhook publish failed: '' @ exn_str e)"

definition webhook_publish :: "'w http_client \<Rightarrow> WebhookEventPublisher \<Rightarrow> FileLoadCompletedEvent \<Rightarrow> ('w, unit) io" where
  "webhook_publish H c ev =
     bnd (lift (case event_to_json ev of
            Inr j \<Rightarrow> Inr j
          | Inl e \<Rightarrow> Inl (InfrastructureError (''Event serialization failed: '' @ exn_str e)))) (\<lambda>payload_json.
     bnd (guard (payload_json \<noteq> [] \<and> strip payload_json \<noteq> [])
            (InfrastructureError ''Event serialization produced empty payload'')) (\<lambda>_.
     catch
       (bnd (h_post H (wh_url c) payload_json (webhook_headers c ev payload_json)) (\<lambda>response.
        lift (h_raise_for_status H response)))
       (\<lambda>e. if is_Exception e then raise (webhook_failed e) else raise e)))"

definition webhook_publisher :: "'w http_client \<Rightarrow> WebhookEventPublisher \<Rightarrow> 'w IEventPublisher" where
  "webhook_publisher H c = \<lparr>publish = webhook_publish H c\<rparr>"

section \<open>On a receiver\<close>

type_synonym request = "string \<times> string \<times> (string \<times> string) list"

definition bodies :: "request list \<Rightarrow> bytes list" where
  "bodies rs = map (\<lambda>(url, body, headers). utf8_encode body) rs"

text \<open>The request of an event.\<close>

definition webhook_request :: "WebhookEventPublisher \<Rightarrow> FileLoadCompletedEvent \<Rightarrow> string \<Rightarrow> request" where
  "webhook_request c ev j = (wh_url c, j, webhook_headers c ev j)"

text \<open>The check of a receiver that shares the secret.\<close>

definition signature_ok :: "string \<Rightarrow> request \<Rightarrow> bool" where
  "signature_ok secret r = (case r of (url, body, headers) \<Rightarrow>
     map_of headers ''X-Webhook-Signature''
       = Some (''sha256='' @ hex_of_bytes (hmac_sha256 (utf8_encode secret) (utf8_encode body))))"

lemma signature_ok_request: "signature_ok (wh_secret c) (webhook_request c ev j)"
  by (simp add: signature_ok_def webhook_request_def webhook_headers_def generate_signature_def)

locale webhook_receiver =
  fixes H :: "'w http_client"
    and received :: "'w \<Rightarrow> request list"
    and view :: "'w \<Rightarrow> store"
    and other :: "'w \<Rightarrow> 'o"
  assumes idle: "passes (view w) (view w)"
    and post: "wp (h_post H url body headers)
      (\<lambda>_ w'. passes (view w) (view w') \<and> other w' = other w \<and> received w' = received w @ [(url, body, headers)])
      (\<lambda>_ w'. passes (view w) (view w') \<and> other w' = other w
         \<and> received w' \<in> {received w, received w @ [(url, body, headers)]}) w"
    and status: "h_raise_for_status H n = Inr () \<longleftrightarrow> 200 \<le> n \<and> n < 300"
begin

lemma webhook_wp:
  "wp (webhook_publish H c ev)
     (\<lambda>_ w'. passes (view w) (view w') \<and> other w' = other w
        \<and> (\<exists>j. event_to_json ev = Inr j \<and> received w' = received w @ [webhook_request c ev j]))
     (\<lambda>e w'. passes (view w) (view w') \<and> other w' = other w \<and> (is_InfrastructureError e \<or> \<not> is_Exception e)
        \<and> (received w' = received w
           \<or> (\<exists>j. event_to_json ev = Inr j \<and> received w' = received w @ [webhook_request c ev j]))) w"
proof (cases "event_to_json ev")
  case (Inl e)
  then show ?thesis using idle by (simp add: webhook_publish_def wp_raise)
next
  case j: (Inr j)
  have fails: "is_InfrastructureError (webhook_failed e)" for e by (simp add: webhook_failed_def)
  have "event_to_json ev = Inr j \<Longrightarrow> \<exists>x. j = CHR ''{'' # x"
    by (auto simp: event_to_json_def event_to_dict_def andThen_eq_Inl split: sum.splits)
  then have body: "j \<noteq> [] \<and> strip j \<noteq> []"
    using j by (auto simp: strip_def lstrip_def rstrip_def is_space_def code_def)
  show ?thesis
    unfolding webhook_publish_def j sum.case bnd_lift_Inr bnd_guard_True [OF body] wp_catch wp_bnd
    by (rule wp_use [OF post])
      (auto simp: wp_lift wp_if wp_raise fails j webhook_request_def split: sum.splits)
qed

lemma delivered_request:
  "event_to_json ev = Inr j \<Longrightarrow> delivered ev 1 (bodies rs) (bodies (rs @ [webhook_request c ev j]))"
  by (simp add: delivered_def bodies_def webhook_request_def wire_def)

end

sublocale webhook_receiver \<subseteq> webhook: event_publisher "webhook_publisher H c" 1 "bodies \<circ> received" view other
  for c
proof unfold_locales
  fix ev w
  show "wp (publish (webhook_publisher H c) ev)
      (\<lambda>_ w'. passes (view w) (view w') \<and> other w' = other w
         \<and> (\<exists>n. 1 \<le> n \<and> n \<le> 1 \<and> delivered ev n ((bodies \<circ> received) w) ((bodies \<circ> received) w')))
      (\<lambda>e w'. passes (view w) (view w') \<and> other w' = other w \<and> (is_InfrastructureError e \<or> \<not> is_Exception e)
         \<and> (\<exists>n. n \<le> 1 \<and> delivered ev n ((bodies \<circ> received) w) ((bodies \<circ> received) w'))) w"
    unfolding webhook_publisher_def IEventPublisher.simps
    by (rule wp_use [OF webhook_wp]) (use delivered_request in \<open>auto intro: exI [of _ 0] exI [of _ 1]\<close>)
qed

section \<open>A receiver in memory\<close>

record http_world = s3_world +
  mw_requests :: "request list"

definition mem_http :: "'z http_world_scheme http_client" where
  "mem_http = \<lparr>h_post = (\<lambda>url body headers w. (Inr 200, w\<lparr>mw_requests := mw_requests w @ [(url, body, headers)]\<rparr>)),
     h_raise_for_status = (\<lambda>n. if 200 \<le> n \<and> n < 300 then Inr () else Inl (HTTPStatusError n ''error''))\<rparr>"

lemma http_world_view [simp]: "redis_view mw_now mem_live (w\<lparr>mw_requests := r\<rparr>) = redis_view mw_now mem_live w"
  by (simp add: redis_view_def mem_live_def)

interpretation mem_receiver: webhook_receiver mem_http mw_requests "redis_view mw_now mem_live"
  "\<lambda>w. (s3_objects (mw_s3 w), http_world.more w)"
  by unfold_locales (simp_all add: mem_http_def wp_def mem_refl)

end
