(* ===== verification/Complete_Service.thy ===== *)
theory Complete_Service
  imports Complete_Upload Upload_Service Webhook_Publisher
begin

text \<open>
  The completion on its providers: \<open>complete_service\<close> puts \<open>complete_upload\<close> on one Redis client (session
  store, rate limiter, fingerprints, chunks), any storage client and any event publisher with their
  contracts. \<open>mem_complete\<close> is an instance with every part of the code in it: the S3 storage
  client and the webhook publisher with its retries, on servers in memory.
\<close>

section \<open>Looking at less of the world\<close>

lemma obeys_coarser:
  assumes "obeys now db rest rep c m" and "\<And>w w'. rest w' = rest w \<Longrightarrow> r w' = r w"
  shows "obeys now db r rep c m"
  using assms(1) unfolding obeys_def by (blast intro: wp_use assms(2))

lemma performs_coarser:
  assumes "performs view rest Q E m" and "\<And>w w'. rest w' = rest w \<Longrightarrow> r w' = r w"
  shows "performs view r Q E m"
  using assms(1) unfolding performs_def by (blast intro: wp_use assms(2))

context redis_server
begin

lemma redis_server_coarser:
  assumes "\<And>w w'. rest w' = rest w \<Longrightarrow> r w' = r w"
  shows "redis_server R now db r"
  by unfold_locales
    (rule obeys_coarser [OF hgetall assms] obeys_coarser [OF hget assms] obeys_coarser [OF hexists assms]
      obeys_coarser [OF hset assms] obeys_coarser [OF ttl assms] obeys_coarser [OF delete assms]
      obeys_coarser [OF hincrby assms] obeys_coarser [OF get assms] obeys_coarser [OF setex assms]
      obeys_coarser [OF pipeline assms] live; assumption)+

end

context environment
begin

lemma environment_coarser:
  assumes "\<And>w w'. rest w' = rest w \<Longrightarrow> r w' = r w"
  shows "environment Env view r"
  by unfold_locales (rule performs_coarser [OF uuid4 assms] performs_coarser [OF now_utc assms]; assumption)+

end

context storage_client
begin

lemma storage_client_coarser:
  assumes "\<And>w w'. other w' = other w \<Longrightarrow> r w' = r w"
  shows "storage_client St loc path files view r"
  by unfold_locales (rule wp_use [OF assembles] path_scheme path_workspace path_file; (blast intro: assms)?)+

end

section \<open>The configuration\<close>

locale complete_service =
  redis_with_timer R now db "\<lambda>w. (sent w, files w, other w)" timer
  + environment Env "redis_view now db" "\<lambda>w. (sent w, files w, other w)"
  + storage_client St loc path files "redis_view now db" "\<lambda>w. (sent w, other w)"
  + event_publisher P most sent "redis_view now db" "\<lambda>w. (files w, other w)"
  for R :: "'w redis_client" and now :: "'w \<Rightarrow> nat" and db :: "'w \<Rightarrow> redis_db" and timer :: "('w, bool option) io"
    and Env :: "'w environment" and St :: "'w IStorageClient" and loc :: "uuid \<Rightarrow> uuid \<Rightarrow> 'k"
    and path :: "uuid \<Rightarrow> uuid \<Rightarrow> string" and files :: "'w \<Rightarrow> 'k \<Rightarrow> bytes option" and P :: "'w IEventPublisher"
    and most :: nat and sent :: "'w \<Rightarrow> bytes list" and other :: "'w \<Rightarrow> 'o" +
  fixes limit :: int
  assumes limit_positive: "0 < limit"

sublocale complete_service \<subseteq> upload_service R now db "\<lambda>w. (sent w, files w, other w)" Env limit
  by unfold_locales (rule limit_positive)

sublocale complete_service \<subseteq> completion: complete_services "RedisSessionStore R" "RedisRateLimiter R limit" limit
    "RedisDeduplicationStore R timer" R Env St P most loc path "redis_view now db" files sent other
  by (intro complete_services.intro complete_services_axioms.intro abort.abort_services_axioms chunk_cache view_refl
      dedup.dedup_store_axioms environment_axioms storage_client_axioms event_publisher_axioms)

context complete_service
begin

lemmas complete_service = completion.complete_wp

end

section \<open>An instance\<close>

definition sample_webhook :: WebhookEventPublisher where
  "sample_webhook = \<lparr>wh_url = ''https://hooks.local/files'', wh_secret = ''secret'', wh_timeout = 10\<rparr>"

definition sample_retry :: EventPublisherWithRetry where
  "sample_retry = \<lparr>rp_max_retry_attempts = 3, rp_dlq_ttl_seconds = 604800\<rparr>"

definition mem_sleep :: "nat \<Rightarrow> ('z mem_world_scheme, unit) io" where
  "mem_sleep ms = ret ()"

definition mem_storage :: "'z s3_world_scheme IStorageClient" where
  "mem_storage = mk_storage_client mem_s3 sample_s3_config"

definition mem_events :: "'z http_world_scheme IEventPublisher" where
  "mem_events = with_retry (webhook_publisher mem_http sample_webhook) mem_redis mem_environment mem_sleep sample_retry"

abbreviation mem_files :: "'z s3_world_scheme \<Rightarrow> string \<times> string \<Rightarrow> bytes option" where
  "mem_files w \<equiv> s3_objects (mw_s3 w)"

abbreviation mem_sent :: "'z http_world_scheme \<Rightarrow> bytes list" where
  "mem_sent w \<equiv> bodies (mw_requests w)"

abbreviation mem_loc :: "uuid \<Rightarrow> uuid \<Rightarrow> string \<times> string" where
  "mem_loc ws fid \<equiv> (sc_bucket sample_s3_config, s3_object_key ws fid)"

lemma http_rest:
  "mem_world.more w' = mem_world.more w \<Longrightarrow>
    (mem_sent w', mem_files w', http_world.more w') = (mem_sent w, mem_files w, http_world.more w)"
  for w w' :: "'z http_world_scheme"
  by (cases w; cases w') simp

interpretation mem_retry: retrying "webhook_publisher mem_http sample_webhook" 1 "\<lambda>w. mem_sent w" mw_now mem_live
  "\<lambda>w. (mem_files w, http_world.more w)" mem_redis mem_environment mem_sleep sample_retry
proof (intro retrying.intro sleeping.intro retrying_axioms.intro)
  show "event_publisher (webhook_publisher mem_http sample_webhook) 1 (\<lambda>w. mem_sent w) (redis_view mw_now mem_live)
      (\<lambda>w. (mem_files w, http_world.more w))"
    using mem_receiver.webhook.event_publisher_axioms by (simp add: comp_def)
  show "redis_server mem_redis mw_now mem_live (\<lambda>w. (mem_sent w, mem_files w, http_world.more w))"
    by (rule mem.redis_server_coarser) (rule http_rest)
  show "environment mem_environment (redis_view mw_now mem_live) (\<lambda>w. (mem_sent w, mem_files w, http_world.more w))"
    by (rule mem_service.environment_coarser) (rule http_rest)
  show "retry_config_ok sample_retry" by (simp add: retry_config_ok_def sample_retry_def)
qed (simp add: mem_sleep_def wp_ret mem_refl)

interpretation mem_complete: complete_service mem_redis mw_now mem_live mem_timer mem_environment mem_storage mem_loc
  "s3_path_of sample_s3_config" mem_files mem_events 3 mem_sent http_world.more 10
proof (intro complete_service.intro complete_service_axioms.intro)
  have w: "s3_world.more w' = s3_world.more w \<Longrightarrow> (mem_sent w', http_world.more w') = (mem_sent w, http_world.more w)"
    for w w' :: "'z http_world_scheme"
    by (cases w; cases w') simp
  show "storage_client mem_storage mem_loc (s3_path_of sample_s3_config) mem_files (redis_view mw_now mem_live)
      (\<lambda>w. (mem_sent w, http_world.more w))"
    unfolding mem_storage_def by (rule mem_storage.files.storage_client_coarser) (rule w)
  show "redis_with_timer mem_redis mw_now mem_live (\<lambda>w. (mem_sent w, mem_files w, http_world.more w)) mem_timer"
    by (intro redis_with_timer.intro redis_with_timer_axioms.intro mem_retry.redis_server_axioms)
      (simp add: idle_def performs_def mem_timer_def wp_ret mem_view_refl)
  show "event_publisher mem_events 3 (\<lambda>w. mem_sent w) (redis_view mw_now mem_live) (\<lambda>w. (mem_files w, http_world.more w))"
    using mem_retry.outer.event_publisher_axioms unfolding mem_events_def by (simp add: sample_retry_def)
  show "environment mem_environment (redis_view mw_now mem_live) (\<lambda>w. (mem_sent w, mem_files w, http_world.more w))"
    by (rule mem_retry.environment_axioms)
qed simp

section \<open>A sleep that is counted\<close>

text \<open>The world's last component is the number of milliseconds slept.\<close>

definition mem_pause :: "nat \<Rightarrow> (nat http_world_scheme, unit) io" where
  "mem_pause ms w = (Inr (), http_world.more_update (\<lambda>n. n + ms) w)"

interpretation mem_counts: retry_counts "webhook_publisher mem_http sample_webhook" mem_redis mem_environment mem_pause
  "\<lambda>w. length (mem_sent w)" "\<lambda>w. http_world.more w"
proof (unfold_locales, goal_cases)
  case (1 ev w)
  show ?case
    unfolding webhook_publisher_def IEventPublisher.simps
    by (rule wp_use [OF mem_receiver.webhook_wp]) (auto simp: bodies_def)
next
  case (2 ms w)
  show ?case by (simp add: wp_def mem_pause_def)
next
  case (3 k b secs w)
  show ?case by (simp add: wp_def mem_redis_def run_cmd_def Let_def split: option.split prod.split)
next
  case (4 w)
  show ?case by (simp add: wp_def mem_environment_def)
qed

end
