(* ===== verification/Nats_Publisher.thy ===== *)
theory Nats_Publisher
  imports Events
begin

text \<open>
  \<open>src/infrastructure/nats/event_publisher.py\<close>: \<open>NATSEventPublisher\<close>. Its fields \<open>_client\<close>, \<open>_js\<close> and
  \<open>_connected\<close> change, so its methods act on the pair of the world and the object. The NATS client
  is a parameter, the record \<open>nats_client\<close>; \<open>nats_server\<close> states what JetStream documents: a
  published message is acknowledged only if a stream captures its subject, and is then stored.
  \<open>reachable_nats\<close> and \<open>publisher_inv\<close> are the object's states and their invariant.
\<close>

section \<open>The client\<close>

record stream_config =
  stc_name :: string
  stc_subjects :: "string list"
  stc_retention :: string
  stc_max_age :: nat \<comment> \<open>nanoseconds\<close>
  stc_storage :: string
  stc_discard :: string

record 'w nats_client =
  n_connect :: "string list \<Rightarrow> int \<Rightarrow> int \<Rightarrow> string \<Rightarrow> ('w, unit) io"
  n_jetstream :: "('w, unit) io"
  n_stream_info :: "string \<Rightarrow> ('w, string list option) io"
  n_add_stream :: "stream_config \<Rightarrow> ('w, unit) io"
  n_publish :: "string \<Rightarrow> bytes \<Rightarrow> int \<Rightarrow> ('w, unit) io"
  n_drain :: "('w, unit) io"
  n_close :: "('w, unit) io"

section \<open>The class\<close>

record NATSEventPublisher =
  np_nats_url :: string
  np_nats_subject :: string
  np_stream_name :: string
  np_connection_timeout :: int
  np_max_reconnect_attempts :: int
  np_client :: bool \<comment> \<open>\<open>_client\<close> is not None\<close>
  np_js :: bool
  np_connected :: bool

definition mk_NATSEventPublisher :: "string \<Rightarrow> string \<Rightarrow> string \<Rightarrow> int \<Rightarrow> int \<Rightarrow> exn + NATSEventPublisher" where
  "mk_NATSEventPublisher url subject stream timeout max_reconnect =
     andThen (check (url \<noteq> [] \<and> strip url \<noteq> []) (ValueError ''nats_url cannot be empty'')) (\<lambda>_.
     andThen (check (subject \<noteq> [] \<and> strip subject \<noteq> []) (ValueError ''nats_subject cannot be empty'')) (\<lambda>_.
     andThen (check (stream \<noteq> [] \<and> strip stream \<noteq> []) (ValueError ''stream_name cannot be empty'')) (\<lambda>_.
     Inr \<lparr>np_nats_url = url, np_nats_subject = subject, np_stream_name = stream, np_connection_timeout = timeout,
       np_max_reconnect_attempts = max_reconnect, np_client = False, np_js = False, np_connected = False\<rparr>)))"

type_synonym ('w, 'a) nats_io = "('w \<times> NATSEventPublisher, 'a) io"

fun is_NatsNotFoundError :: "exn \<Rightarrow> bool" where
  "is_NatsNotFoundError (NatsNotFoundError m) = True"
| "is_NatsNotFoundError _ = False"

fun is_SerializationError :: "exn \<Rightarrow> bool" where
  "is_SerializationError (SerializationError m) = True"
| "is_SerializationError _ = False"

definition upload_stream :: "NATSEventPublisher \<Rightarrow> stream_config" where
  "upload_stream p = \<lparr>stc_name = np_stream_name p, stc_subjects = [np_nats_subject p], stc_retention = ''limits'',
     stc_max_age = 604800000000000, stc_storage = ''file'', stc_discard = ''old''\<rparr>"

text \<open>A stream with other subjects is only logged.\<close>

definition ensure_stream :: "'w nats_client \<Rightarrow> ('w, unit) nats_io" where
  "ensure_stream N =
     bnd self (\<lambda>p.
     bnd (guard (np_js p) (InfrastructureError ''JetStream context not initialized'')) (\<lambda>_.
     catch
       (catch (bnd (on_client (n_stream_info N (np_stream_name p))) (\<lambda>_. ret ()))
          (\<lambda>e. if is_NatsNotFoundError e then on_client (n_add_stream N (upload_stream p)) else raise e))
       (\<lambda>e. if is_NatsNotFoundError e then ret ()
            else if is_Exception e
              then raise (InfrastructureError (''Failed to create JetStream stream '' @ np_stream_name p @ '': '' @ exn_str e))
            else raise e)))"

text \<open>What \<open>except Exception\<close> does inside \<open>connect\<close> before it raises again.\<close>

definition drop_client :: "'w nats_client \<Rightarrow> ('w, unit) nats_io" where
  "drop_client N = bnd self (\<lambda>p.
     if np_client p then bnd (on_client (n_close N)) (\<lambda>_. set_self (np_client_update (\<lambda>_. False))) else ret ())"

definition open_jetstream :: "'w nats_client \<Rightarrow> ('w, unit) nats_io" where
  "open_jetstream N =
     bnd (on_client (n_jetstream N)) (\<lambda>_.
     bnd (set_self (np_js_update (\<lambda>_. True))) (\<lambda>_.
     bnd (ensure_stream N) (\<lambda>_.
     set_self (np_connected_update (\<lambda>_. True)))))"

definition nats_connect :: "'w nats_client \<Rightarrow> ('w, unit) nats_io" where
  "nats_connect N =
     bnd self (\<lambda>p.
     if np_connected p then ret ()
     else catch
       (bnd (on_client (n_connect N [np_nats_url p] (np_connection_timeout p) (np_max_reconnect_attempts p)
               ''rag-file-uploader'')) (\<lambda>_.
        bnd (set_self (np_client_update (\<lambda>_. True))) (\<lambda>_.
        catch (open_jetstream N)
          (\<lambda>e. if is_Exception e then bnd (drop_client N) (\<lambda>_. raise e) else raise e))))
       (\<lambda>e. if is_Exception e
            then raise (InfrastructureError (''Failed to connect to NATS at '' @ np_nats_url p @ '': '' @ exn_str e))
            else raise e))"

definition nats_publish :: "'w nats_client \<Rightarrow> FileLoadCompletedEvent \<Rightarrow> ('w, bool) nats_io" where
  "nats_publish N ev =
     bnd self (\<lambda>p.
     bnd (guard (np_connected p \<and> np_js p \<and> np_client p)
            (InfrastructureError ''Not connected to NATS. Call connect() first.'')) (\<lambda>_.
     catch
       (bnd (lift (event_to_json ev)) (\<lambda>event_json.
        bnd (on_client (n_publish N (subject_name ev) (utf8_encode event_json) (np_connection_timeout p))) (\<lambda>_.
        ret True)))
       (\<lambda>e. if is_SerializationError e then raise e
            else if is_Exception e then raise (InfrastructureError (''Failed to publish event to NATS: '' @ exn_str e))
            else raise e)))"

definition nats_disconnect :: "'w nats_client \<Rightarrow> ('w, unit) nats_io" where
  "nats_disconnect N =
     bnd self (\<lambda>p.
     if \<not> np_connected p then ret ()
     else catch
       (if np_client p
        then bnd (on_client (n_drain N)) (\<lambda>_.
             bnd (on_client (n_close N)) (\<lambda>_.
             set_self (\<lambda>p. p\<lparr>np_client := False, np_js := False, np_connected := False\<rparr>)))
        else ret ())
       (\<lambda>e. if is_Exception e then ret () else raise e))"

definition nats_publisher :: "'w nats_client \<Rightarrow> ('w \<times> NATSEventPublisher) IEventPublisher" where
  "nats_publisher N = \<lparr>publish = (\<lambda>ev. bnd (nats_publish N ev) (\<lambda>_. ret ()))\<rparr>"

section \<open>The states of the object\<close>

definition publisher_inv :: "NATSEventPublisher \<Rightarrow> bool" where
  "publisher_inv p = (np_connected p \<longrightarrow> np_client p \<and> np_js p)"

datatype nats_call = Connect | Publish FileLoadCompletedEvent | Disconnect

fun nats_after :: "'w nats_client \<Rightarrow> nats_call \<Rightarrow> 'w \<times> NATSEventPublisher \<Rightarrow> 'w \<times> NATSEventPublisher" where
  "nats_after N Connect s = snd (nats_connect N s)"
| "nats_after N (Publish ev) s = snd (nats_publish N ev s)"
| "nats_after N Disconnect s = snd (nats_disconnect N s)"

inductive reachable_nats :: "'w nats_client \<Rightarrow> 'w \<times> NATSEventPublisher \<Rightarrow> 'w \<times> NATSEventPublisher \<Rightarrow> bool"
  for N start where
  nats_start: "reachable_nats N start start"
| nats_step: "reachable_nats N start s \<Longrightarrow> reachable_nats N start (nats_after N c s)"

lemma wp_anything: "(\<And>x w'. Q x w') \<Longrightarrow> (\<And>e w'. E e w') \<Longrightarrow> wp m Q E w"
  by (simp add: wp_def split: prod.splits sum.splits)

text \<open>Whatever the client does: the object keeps its configuration and its invariant.\<close>

definition same_config :: "NATSEventPublisher \<Rightarrow> NATSEventPublisher \<Rightarrow> bool" where
  "same_config p p' = (np_nats_url p' = np_nats_url p \<and> np_nats_subject p' = np_nats_subject p
     \<and> np_stream_name p' = np_stream_name p \<and> np_connection_timeout p' = np_connection_timeout p
     \<and> np_max_reconnect_attempts p' = np_max_reconnect_attempts p)"

lemma same_config_refl [simp]: "same_config p p"
  by (simp add: same_config_def)

lemma same_config_upd [simp]:
  "same_config p (q\<lparr>np_client := a\<rparr>) = same_config p q"
  "same_config p (q\<lparr>np_js := b\<rparr>) = same_config p q"
  "same_config p (q\<lparr>np_connected := c\<rparr>) = same_config p q"
  by (simp_all add: same_config_def)

lemma ensure_stream_self:
  "wp (ensure_stream N) (\<lambda>_ wp'. snd wp' = p) (\<lambda>_ wp'. snd wp' = p) (w, p)"
proof (cases "np_js p")
  case True
  then show ?thesis
    unfolding ensure_stream_def
    by (simp add: wp_bnd wp_self wp_catch wp_on_client wp_if wp_ret wp_raise wp_anything)
qed (simp add: ensure_stream_def wp_bnd wp_self wp_raise)

lemma drop_client_self:
  "wp (drop_client N) (\<lambda>_ wp'. snd wp' = p\<lparr>np_client := False\<rparr>) (\<lambda>_ wp'. snd wp' = p) (w, p)"
  by (simp add: drop_client_def wp_bnd wp_self wp_if wp_on_client wp_set_self wp_ret wp_anything)

lemma connect_self:
  assumes "publisher_inv p"
  shows "wp (nats_connect N) (\<lambda>_ wp'. publisher_inv (snd wp') \<and> np_connected (snd wp') \<and> same_config p (snd wp'))
    (\<lambda>e wp'. publisher_inv (snd wp') \<and> \<not> np_connected (snd wp') \<and> same_config p (snd wp')
       \<and> (is_InfrastructureError e \<or> \<not> is_Exception e)) (w, p)"
proof (cases "np_connected p")
  case True
  with assms show ?thesis by (simp add: nats_connect_def wp_bnd wp_self wp_ret)
next
  case False
  let ?E = "\<lambda>e (wp' :: 'a \<times> NATSEventPublisher). publisher_inv (snd wp') \<and> \<not> np_connected (snd wp') \<and> same_config p (snd wp')"
  have stay: "publisher_inv q" if "\<not> np_connected q" for q using that by (simp add: publisher_inv_def)
  have cleanup: "wp (if is_Exception e then bnd (drop_client N) (\<lambda>_. raise e) else raise e) Q ?E (w', q)"
    if "\<not> np_connected q" "same_config p q" for e q w' and Q :: "unit \<Rightarrow> 'a \<times> NATSEventPublisher \<Rightarrow> bool"
    using that by (auto simp: wp_bnd wp_raise wp_if stay intro!: wp_use [OF drop_client_self])
  have body: "wp (open_jetstream N)
      (\<lambda>_ wp'. publisher_inv (snd wp') \<and> np_connected (snd wp') \<and> same_config p (snd wp'))
      (\<lambda>e wp'. \<not> np_connected (snd wp') \<and> same_config p (snd wp')) (w', q)"
    if q: "np_client q" "\<not> np_connected q" "same_config p q" for w' q
    unfolding open_jetstream_def wp_bnd wp_on_client
  proof (rule wp_anything, goal_cases)
    case (1 x w1)
    show ?case
      unfolding wp_set_self
    proof (rule wp_use [OF ensure_stream_self], goal_cases)
      case (1 x s)
      then show ?case using q by (cases s) (simp add: wp_set_self publisher_inv_def)
    next
      case (2 e s)
      then show ?case using q by simp
    qed
  next
    case (2 e w1)
    then show ?case using q by simp
  qed
  show ?thesis
    unfolding nats_connect_def wp_bnd wp_self if_not_P [OF False] wp_catch wp_on_client
  proof (rule wp_anything, goal_cases)
    case (1 x w1)
    show ?case
      unfolding wp_set_self
    proof (rule wp_use [OF body], goal_cases)
      case (5 e s)
      obtain w2 q where s: "s = (w2, q)" by fastforce
      with 5 have q: "\<not> np_connected q" "same_config p q" by simp_all
      show ?case
        unfolding s by (rule wp_use [OF cleanup [OF q]]) (auto simp: wp_if wp_raise)
    qed (use False in auto)
  next
    case (2 e w1)
    then show ?case using False by (simp add: wp_if wp_raise stay)
  qed
qed

lemma publish_self:
  "wp (nats_publish N ev) (\<lambda>_ wp'. snd wp' = p) (\<lambda>_ wp'. snd wp' = p) (w, p)"
proof (cases "np_connected p \<and> np_js p \<and> np_client p")
  case True
  then show ?thesis
    by (cases "event_to_json ev")
      (simp_all add: nats_publish_def wp_bnd wp_self wp_catch wp_on_client wp_if wp_ret wp_raise wp_anything
        del: ret_run raise_run)
next
  case False
  then show ?thesis by (auto simp: nats_publish_def wp_bnd wp_self wp_raise guard_def)
qed

lemma disconnect_self:
  assumes "publisher_inv p"
  shows "wp (nats_disconnect N)
     (\<lambda>_ wp'. publisher_inv (snd wp') \<and> same_config p (snd wp') \<and> (snd wp' = p \<or> \<not> np_connected (snd wp') \<and> \<not> np_client (snd wp')))
     (\<lambda>e wp'. snd wp' = p \<and> \<not> is_Exception e) (w, p)"
  using assms
  by (auto simp: nats_disconnect_def wp_bnd wp_self wp_catch wp_on_client wp_set_self wp_if wp_ret wp_raise publisher_inv_def
      same_config_def intro!: wp_anything)

lemma nats_after_inv:
  assumes "publisher_inv (snd s)"
  shows "publisher_inv (snd (nats_after N c s)) \<and> same_config (snd s) (snd (nats_after N c s))"
proof -
  obtain w p where s: "s = (w, p)" by fastforce
  have read: "P (snd (m s))" if "wp m (\<lambda>_. P) (\<lambda>_. P) s" for P and m :: "('a, 'b) nats_io"
    using that by (auto simp: wp_def split: prod.splits sum.splits)
  have p: "publisher_inv p" using assms s by simp
  show ?thesis
  proof (cases c)
    case Connect
    have "wp (nats_connect N) (\<lambda>_ s'. publisher_inv (snd s') \<and> same_config (snd s) (snd s'))
        (\<lambda>_ s'. publisher_inv (snd s') \<and> same_config (snd s) (snd s')) s"
      unfolding s by (rule wp_use [OF connect_self [OF p]]) simp_all
    from read [OF this] show ?thesis by (simp add: Connect)
  next
    case (Publish ev)
    have "wp (nats_publish N ev) (\<lambda>_ s'. publisher_inv (snd s') \<and> same_config (snd s) (snd s'))
        (\<lambda>_ s'. publisher_inv (snd s') \<and> same_config (snd s) (snd s')) s"
      unfolding s by (rule wp_use [OF publish_self]) (simp_all add: p)
    from read [OF this] show ?thesis by (simp add: Publish)
  next
    case Disconnect
    have "wp (nats_disconnect N) (\<lambda>_ s'. publisher_inv (snd s') \<and> same_config (snd s) (snd s'))
        (\<lambda>_ s'. publisher_inv (snd s') \<and> same_config (snd s) (snd s')) s"
      unfolding s by (rule wp_use [OF disconnect_self [OF p]]) (simp_all add: p)
    from read [OF this] show ?thesis by (simp add: Disconnect)
  qed
qed

lemma reachable_nats_inv:
  "reachable_nats N start s \<Longrightarrow> publisher_inv (snd start) \<Longrightarrow> publisher_inv (snd s)"
  by (induction rule: reachable_nats.induct) (auto dest: nats_after_inv)

section \<open>On a JetStream server\<close>

text \<open>\<open>captured\<close>: the subjects of the streams; \<open>stored\<close>: the messages under the subject of the events.\<close>

locale nats_server =
  fixes N :: "'w nats_client"
    and captured :: "'w \<Rightarrow> string set"
    and stored :: "'w \<Rightarrow> bytes list"
    and view :: "'w \<Rightarrow> store"
    and other :: "'w \<Rightarrow> 'o"
  assumes idle: "passes (view w) (view w)"
    and connects: "wp (n_connect N urls t mx name)
      (\<lambda>_ w'. passes (view w) (view w') \<and> other w' = other w \<and> stored w' = stored w \<and> captured w' = captured w)
      (\<lambda>_ w'. passes (view w) (view w') \<and> other w' = other w \<and> stored w' = stored w \<and> captured w' = captured w) w"
    and jetstream: "wp (n_jetstream N)
      (\<lambda>_ w'. passes (view w) (view w') \<and> other w' = other w \<and> stored w' = stored w \<and> captured w' = captured w)
      (\<lambda>_ w'. passes (view w) (view w') \<and> other w' = other w \<and> stored w' = stored w \<and> captured w' = captured w) w"
    and stream_info: "wp (n_stream_info N name)
      (\<lambda>_ w'. passes (view w) (view w') \<and> other w' = other w \<and> stored w' = stored w \<and> captured w' = captured w)
      (\<lambda>_ w'. passes (view w) (view w') \<and> other w' = other w \<and> stored w' = stored w \<and> captured w' = captured w) w"
    and add_stream: "wp (n_add_stream N cfg)
      (\<lambda>_ w'. passes (view w) (view w') \<and> other w' = other w \<and> stored w' = stored w
         \<and> captured w' = captured w \<union> set (stc_subjects cfg))
      (\<lambda>_ w'. passes (view w) (view w') \<and> other w' = other w \<and> stored w' = stored w
         \<and> captured w' \<in> {captured w, captured w \<union> set (stc_subjects cfg)}) w"
    and publishing: "wp (n_publish N ''upload.file.load_completed'' body t)
      (\<lambda>_ w'. passes (view w) (view w') \<and> other w' = other w \<and> captured w' = captured w
         \<and> ''upload.file.load_completed'' \<in> captured w \<and> stored w' = stored w @ [body])
      (\<lambda>_ w'. passes (view w) (view w') \<and> other w' = other w \<and> captured w' = captured w
         \<and> (stored w' = stored w
            \<or> ''upload.file.load_completed'' \<in> captured w \<and> stored w' = stored w @ [body])) w"
    and closes: "wp (n_close N)
      (\<lambda>_ w'. passes (view w) (view w') \<and> other w' = other w \<and> stored w' = stored w \<and> captured w' = captured w)
      (\<lambda>_ w'. passes (view w) (view w') \<and> other w' = other w \<and> stored w' = stored w \<and> captured w' = captured w) w"
begin

lemma nats_publish_wp:
  assumes "event_ok ev"
  shows "wp (nats_publish N ev)
     (\<lambda>r s. r \<and> passes (view w) (view (fst s)) \<and> other (fst s) = other w \<and> snd s = p
        \<and> ''upload.file.load_completed'' \<in> captured w \<and> delivered ev 1 (stored w) (stored (fst s)))
     (\<lambda>e s. passes (view w) (view (fst s)) \<and> other (fst s) = other w \<and> snd s = p
        \<and> (is_InfrastructureError e \<or> \<not> is_Exception e) \<and> (\<exists>n \<le> 1. delivered ev n (stored w) (stored (fst s)))) (w, p)"
    (is "wp _ ?Q ?E _")
proof -
  have still: "?E e (w, p)" if "is_InfrastructureError e" for e using that idle by auto
  have inf: "is_InfrastructureError e" if "is_SerializationError e" for e using that by (cases e) simp_all
  show ?thesis
  proof (cases "np_connected p \<and> np_js p \<and> np_client p")
    case False
    then show ?thesis using idle by (auto simp: nats_publish_def wp_bnd wp_self wp_raise guard_def)
  next
    case True
    show ?thesis
    proof (cases "event_to_json ev")
      case (Inl e)
      then have "is_SerializationError e" by (auto simp: event_to_json_def split: sum.splits)
      with True Inl show ?thesis
        using still [of e] inf [of e] idle by (auto simp: nats_publish_def wp_bnd wp_self wp_catch wp_if wp_raise simp del: raise_run)
    next
      case (Inr j)
      then have w: "wire ev = utf8_encode j" by (simp add: wire_def)
      have "wp (n_publish N (subject_name ev) (utf8_encode j) (np_connection_timeout p))
          (\<lambda>_ w'. ?Q True (w', p))
          (\<lambda>e w'. passes (view w) (view w') \<and> other w' = other w \<and> (\<exists>n \<le> 1. delivered ev n (stored w) (stored w'))) w"
        unfolding subject_name_def
        by (rule wp_use [OF publishing]) (auto simp: delivered_def w Inr intro: exI [of _ 0] exI [of _ "Suc 0"])
      then show ?thesis
        using True Inr
        by (simp add: nats_publish_def wp_bnd wp_self wp_catch wp_on_client del: ret_run raise_run)
          (erule wp_mono; auto simp: wp_ret wp_if wp_raise inf)
    qed
  qed
qed

end

sublocale nats_server \<subseteq> nats: event_publisher "nats_publisher N" 1 "stored \<circ> fst" "view \<circ> fst" "\<lambda>s. (other (fst s), snd s)"
proof unfold_locales
  fix ev and s :: "'w \<times> NATSEventPublisher"
  assume ok: "event_ok ev"
  obtain w p where s: "s = (w, p)" by fastforce
  show "wp (publish (nats_publisher N) ev)
      (\<lambda>_ s'. passes ((view \<circ> fst) s) ((view \<circ> fst) s') \<and> (other (fst s'), snd s') = (other (fst s), snd s)
         \<and> (\<exists>n. 1 \<le> n \<and> n \<le> 1 \<and> delivered ev n ((stored \<circ> fst) s) ((stored \<circ> fst) s')))
      (\<lambda>e s'. passes ((view \<circ> fst) s) ((view \<circ> fst) s') \<and> (other (fst s'), snd s') = (other (fst s), snd s)
         \<and> (is_InfrastructureError e \<or> \<not> is_Exception e)
         \<and> (\<exists>n. n \<le> 1 \<and> delivered ev n ((stored \<circ> fst) s) ((stored \<circ> fst) s'))) s"
    unfolding nats_publisher_def IEventPublisher.simps s wp_bnd
    by (rule wp_use [OF nats_publish_wp [OF ok]]) (auto simp: wp_ret)
qed

text \<open>A stream that captures other subjects only makes every publication fail.\<close>

context nats_server
begin

lemma ensure_stream_wp:
  assumes "''upload.file.load_completed'' \<notin> captured w" and "np_nats_subject p \<noteq> ''upload.file.load_completed''"
  shows "wp (ensure_stream N) (\<lambda>_ s. ''upload.file.load_completed'' \<notin> captured (fst s)) (\<lambda>_ _. True) (w, p)"
proof (cases "np_js p")
  case True
  show ?thesis
    unfolding ensure_stream_def wp_bnd wp_self bnd_guard_True [OF True] wp_catch wp_on_client
  proof (rule wp_use [OF stream_info], goal_cases)
    case (1 _ w1)
    then show ?case using assms(1) by (simp add: wp_ret)
  next
    case (2 e w1)
    show ?case
    proof (cases "is_NatsNotFoundError e")
      case True
      show ?thesis
        unfolding if_P [OF True] wp_on_client
        by (rule wp_use [OF add_stream]) (use 2 assms in \<open>auto simp: upload_stream_def wp_if wp_ret wp_raise\<close>)
    qed (simp add: wp_raise wp_if)
  qed
next
  case False
  then show ?thesis by (simp add: ensure_stream_def wp_bnd wp_self wp_raise)
qed

lemma connect_wp:
  assumes "''upload.file.load_completed'' \<notin> captured w" and "np_nats_subject p \<noteq> ''upload.file.load_completed''"
  shows "wp (nats_connect N) (\<lambda>_ s. ''upload.file.load_completed'' \<notin> captured (fst s)) (\<lambda>_ _. True) (w, p)"
proof (cases "np_connected p")
  case True
  then show ?thesis using assms by (simp add: nats_connect_def wp_bnd wp_self wp_ret)
next
  case False
  have jet: "wp (open_jetstream N) (\<lambda>_ s. ''upload.file.load_completed'' \<notin> captured (fst s)) (\<lambda>_ _. True) (w1, q)"
    if q: "captured w1 = captured w" "np_nats_subject q = np_nats_subject p" for w1 q
    unfolding open_jetstream_def wp_bnd wp_on_client
  proof (rule wp_use [OF jetstream], goal_cases)
    case (1 _ w2)
    show ?case
      unfolding wp_set_self
    proof (rule wp_use [OF ensure_stream_wp], goal_cases)
      case (3 _ s)
      then show ?case by (cases s) (simp add: wp_set_self)
    qed (use 1 q assms in simp_all)
  qed simp
  show ?thesis
    unfolding nats_connect_def wp_bnd wp_self if_not_P [OF False] wp_catch wp_on_client
  proof (rule wp_use [OF connects], goal_cases)
    case (1 _ w1)
    show ?case
      unfolding wp_set_self
      by (rule wp_use [OF jet]) (use 1 in \<open>simp_all add: wp_if wp_bnd wp_raise wp_anything\<close>)
  qed (simp add: wp_if wp_raise)
qed

lemma subject_mismatch_wp:
  assumes "event_ok ev" and "''upload.file.load_completed'' \<notin> captured w"
    and "np_nats_subject p \<noteq> ''upload.file.load_completed''"
  shows "wp (bnd (nats_connect N) (\<lambda>_. nats_publish N ev)) (\<lambda>_ _. False) (\<lambda>_ _. True) (w, p)"
  unfolding wp_bnd
proof (rule wp_use [OF connect_wp [OF assms(2,3)]], goal_cases)
  case (1 _ s)
  obtain w1 q where s: "s = (w1, q)" by fastforce
  show ?case
    unfolding s by (rule wp_use [OF nats_publish_wp [OF assms(1)]]) (use 1 s in simp_all)
qed simp

lemmas nats_publishes = nats.publishes

end

section \<open>A server in memory\<close>

record nats_world = mem_world +
  mw_subjects :: "string list"
  mw_messages :: "(string \<times> bytes) list"

definition mem_nats :: "'z nats_world_scheme nats_client" where
  "mem_nats = \<lparr>n_connect = (\<lambda>_ _ _ _. ret ()), n_jetstream = ret (),
     n_stream_info = (\<lambda>name w. if mw_subjects w = [] then (Inl (NatsNotFoundError name), w) else (Inr (Some (mw_subjects w)), w)),
     n_add_stream = (\<lambda>cfg w. (Inr (), w\<lparr>mw_subjects := stc_subjects cfg @ mw_subjects w\<rparr>)),
     n_publish = (\<lambda>subject body t w. if subject \<in> set (mw_subjects w)
        then (Inr (), w\<lparr>mw_messages := mw_messages w @ [(subject, body)]\<rparr>)
        else (Inl (OtherException ''nats: no response from stream''), w)),
     n_drain = ret (), n_close = ret ()\<rparr>"

definition mem_stored :: "'z nats_world_scheme \<Rightarrow> bytes list" where
  "mem_stored w = map snd (filter (\<lambda>m. fst m = ''upload.file.load_completed'') (mw_messages w))"

lemma nats_world_view [simp]:
  "redis_view mw_now mem_live (w\<lparr>mw_subjects := s\<rparr>) = redis_view mw_now mem_live w"
  "redis_view mw_now mem_live (w\<lparr>mw_messages := m\<rparr>) = redis_view mw_now mem_live w"
  by (simp_all add: redis_view_def mem_live_def)

lemma wp_mem_nats [simp]:
  "wp (\<lambda>w. if b w then (Inl e, w) else (Inr (x w), w)) Q E w = (if b w then E e w else Q (x w) w)"
  "wp (\<lambda>w. (Inr (), f w)) Q' E w = Q' () (f w)"
  "wp (\<lambda>w. if b w then (Inr (), f w) else (Inl e, w)) Q' E w = (if b w then Q' () (f w) else E e w)"
  by (simp_all add: wp_def)

interpretation mem_nats: nats_server mem_nats "set \<circ> mw_subjects" mem_stored "redis_view mw_now mem_live" nats_world.more
  by unfold_locales (auto simp: mem_nats_def wp_ret mem_stored_def mem.view_refl)

end
