(* ===== verification/Complete_Sample.thy ===== *)
theory Complete_Sample
  imports Sample_World Complete_Service Settings Nats_Publisher
begin

text \<open>
  The small world of \<open>Sample_World\<close> with a storage and a receiver of events: a session of five
  bytes that is ready to be completed. Also sample settings, an event, and a NATS publisher.
\<close>

definition full_content :: bytes where
  "full_content = [1, 2, 3, 4, 5]"

definition full_session :: UploadSession where
  "full_session = appended (sample_session\<lparr>sha256_checksum := SHA256Hash (sha256_hex full_content)\<rparr>) full_content"

definition full_world :: "unit http_world_scheme" where
  "full_world = \<lparr>mw_now = 0,
     mw_db = [session_key_text 1 2 \<mapsto> (RHash (serialize_session full_session), Some 86400000),
              chunk_key 1 2 (str_int (int 0)) \<mapsto> (RBlob full_content, Some 86400000)],
     mw_faults = [], mw_s3 = \<lparr>s3_objects = Map.empty, s3_uploads = Map.empty\<rparr>, mw_uploads = 0, mw_requests = []\<rparr>"

abbreviation full_view :: "unit http_world_scheme \<Rightarrow> store" where
  "full_view \<equiv> redis_view mw_now mem_live"

lemma full_session_simps:
  "session_id full_session = 2" "workspace_id full_session = 1" "status full_session = IN_PROGRESS"
  "offset full_session = 5" "file_size full_session = 5"
  "sha256_checksum full_session = SHA256Hash (sha256_hex full_content)"
  "chunk_manifest full_session = manifest_from 0 [(5, sha256_hex full_content)]"
  by (simp_all add: full_session_def appended_def sample_session_def full_content_def)

lemma storable_full: "storable full_session"
proof -
  have "valid_hash (SHA256Hash (sha256_hex full_content))" by (simp add: valid_hash_def sha256_hex_lower)
  then show ?thesis
    using storable_sample session_ok_sample
    by (simp add: storable_def session_ok_def full_session_def appended_def sample_session_def full_content_def)
qed

lemma full_manifest: "manifest_of full_session [(5, sha256_hex full_content)]"
  by (simp add: manifest_of_def full_session_simps total_size_def)

lemma full_view: "full_view full_world = put_chunk 1 2 (str_int (int 0)) (Some (full_content, Some 86400000))
    (put_session full_session (Some 86400000) (store_of 0 Map.empty))"
proof -
  have "session_value (RHash (serialize_session full_session)) = Some (Some full_session)"
    by (simp add: session_value_def deserialize_serialize [OF storable_full])
  moreover have "mem_live full_world = mw_db full_world"
    by (auto simp: mem_live_def full_world_def purge_def fun_eq_iff)
  ultimately show ?thesis
    by (simp add: redis_view_def full_world_def store_of_upd put_session_def full_session_simps chunk_value_def)
qed

lemma full_store_ok: "store_ok (full_view full_world)"
proof -
  let ?st = "put_chunk 1 2 (str_int (int 0)) (Some (full_content, Some 86400000)) (store_of 0 Map.empty)"
  have ok: "store_ok ?st" by (rule store_ok_put_chunk [OF store_ok_empty]) (simp add: empty_store)
  have now: "st_now ?st = 0" by (simp add: put_chunk_def store_of_def)
  have b: "chunk_stored ?st 1 2 86400000 0 (5, sha256_hex full_content)"
    by (simp add: chunk_stored_def put_chunk_def full_content_def)
  have "entry_inv ?st (workspace_id full_session) (session_id full_session) full_session (Some 86400000)"
    unfolding entry_inv_def
    by (intro conjI storable_full refl exI [of _ "[(5, sha256_hex full_content)]"] full_manifest)
      (use now b in \<open>simp add: chunks_kept_def full_session_simps\<close>)
  note store_ok_put_session [OF ok this]
  moreover have "full_view full_world = put_session full_session (Some 86400000) ?st"
    by (simp add: full_view put_session_def put_chunk_def)
  ultimately show ?thesis by (simp only:)
qed

lemma full_session_in:
  "st_sessions (full_view full_world) 1 2 = Some (Some full_session, Some 86400000)"
  "count_in (full_view full_world) ws = Some 0"
  by (simp_all add: full_view put_session_def put_chunk_def count_in_def empty_store) (simp add: full_session_simps)

lemma full_completable: "completable 1 full_session"
  by (simp add: completable_def full_session_simps)

definition full_request :: CompleteUploadRequest where
  "full_request = \<lparr>cur_workspace_id = 1, cur_session_id = 2\<rparr>"

lemma full_request_ids: "cur_workspace_id full_request = 1" "cur_session_id full_request = 2"
  by (simp_all add: full_request_def)

definition sample_event :: FileLoadCompletedEvent where
  "sample_event = \<lparr>ev_file_id = 2, ev_workspace_id = 1, ev_s3_path = s3_path_of sample_s3_config 1 2,
     ev_sha256_checksum = SHA256Hash (replicate 64 (CHR ''a'')), ev_size_bytes = 5, ev_uploaded_at = sample_time,
     ev_event_version = ''1.0'', ev_event_type = ''FILE_LOAD_COMPLETED'', ev_timestamp = sample_time\<rparr>"

lemma sample_event_hash: "valid_hash (ev_sha256_checksum sample_event)"
  by (simp add: sample_event_def valid_hash_def is_hex_lower_def list_all_iff)

lemma sample_event_ok: "event_ok sample_event"
  using mem_complete.path_scheme [of 1 2] mem_complete.path_workspace [of 1 2] mem_complete.path_file [of 2 1] sample_event_hash
  by (simp add: event_ok_def sample_event_def is_aware_def sample_time_def max_safe_json_integer_def workspace_segment_def
      match_hex64_64 valid_hash_def)

lemma sample_event_built: "FileLoadCompletedEvent_post_init sample_event = Inr sample_event"
  by (simp add: FileLoadCompletedEvent_post_init_iff sample_event_ok)

lemma sample_event_json: "\<exists>j. event_to_json sample_event = Inr j"
  by (simp add: event_to_json_def event_to_dict_def astimezone_utc_def sample_event_def sample_time_def instant_def
      max_wall_def days_before_year_def usec_day_def)

definition nats_sample :: NATSEventPublisher where
  "nats_sample = \<lparr>np_nats_url = ''nats://nats:4222'', np_nats_subject = ''upload.file.load.completed'',
     np_stream_name = ''UPLOAD_EVENTS'', np_connection_timeout = 5, np_max_reconnect_attempts = 3,
     np_client = False, np_js = False, np_connected = False\<rparr>"

lemma nats_sample_built:
  "mk_NATSEventPublisher ''nats://nats:4222'' ''upload.file.load.completed'' ''UPLOAD_EVENTS'' 5 3 = Inr nats_sample"
  by (simp add: mk_NATSEventPublisher_def nats_sample_def strip_def lstrip_def rstrip_def is_space_def code_def)

definition nats_sample_world :: "unit nats_world_scheme" where
  "nats_sample_world = \<lparr>mw_now = 0, mw_db = Map.empty, mw_faults = [], mw_subjects = [], mw_messages = []\<rparr>"

definition sample_settings :: AppSettings where
  "sample_settings = \<lparr>max_file_size = 524288000, max_chunk_size = 104857600, max_concurrent_uploads = 10,
     chunk_size = 26214400, session_ttl_hours = 24, allowed_mime_types = [''application/pdf''],
     redis_url = ''redis://localhost:6379/0'', minio_endpoint = ''minio:9000'', minio_root_user = ''admin'',
     minio_root_password = ''admin'', s3_bucket_name = ''uploads'', s3_use_ssl = False, s3_region = ''eu-west-2'',
     s3_server_side_encryption = True, nats_url = Some ''nats://nats:4222'',
     nats_subject = ''upload.file.load.completed'', event_publish_mode = ModeNats, nats_stream_name = ''UPLOAD_EVENTS'',
     nats_durable_name = ''upload-events-consumer'', nats_connection_timeout = 5, nats_max_reconnect_attempts = 3,
     event_max_retry_attempts = 5, event_dlq_ttl_seconds = 604800, clamav_host = ''clamav'', clamav_port = 3310,
     clamav_timeout = 30, jwt_public_key = ''key'', jwt_algorithm = ''RS256'', webhook_url = None, webhook_secret = None,
     webhook_timeout = 10, log_level = ''info'', server_port = 8000, workers = 1\<rparr>"

lemma sample_settings_accepted:
  "mk_AppSettings (\<lambda>k. k = ''key'') sample_settings = Inr (sample_settings\<lparr>log_level := ''INFO''\<rparr>)"
proof -
  have key: "replace_str [CHR 0x5C, CHR ''n''] [CHR 0x0A] ''key'' = ''key''" by code_simp
  have u: "upper_str ''info'' = ''INFO''" by code_simp
  have b: "validate_s3_bucket_name ''uploads'' = Inr ''uploads''" by code_simp
  have n: "validate_nats_subject ''upload.file.load.completed'' = Inr ''upload.file.load.completed''" by code_simp
  show ?thesis
    by (simp add: mk_AppSettings_def sample_settings_def fields_ok_def validate_redis_url_def starts_with_any_def
        starts_with_def validate_minio_password_def b n validate_nats_url_def validate_jwt_public_key_def key
        validate_webhook_url_def validate_log_level_def u log_levels_def validate_event_mode_requirements_def)
qed

text \<open>Nothing stored, nothing sent, no pause so far.\<close>

definition idle_world :: "nat http_world_scheme" where
  "idle_world = \<lparr>mw_now = 0, mw_db = Map.empty, mw_faults = [], mw_s3 = mw_s3 full_world, mw_uploads = 0,
     mw_requests = [], \<dots> = 0\<rparr>"

end
