(* ===== verification/API_Sample.thy ===== *)
theory API_Sample
  imports Upload_Routes Complete_Sample
begin

text \<open>
  A token of an owner of workspace 1 for the library in memory, the claims it carries, and one request
  of each kind, at which the properties of the endpoints are instantiated.
\<close>

definition owner_payload :: payload where
  "owner_payload = [(''user_id'', JStr (uuid_str 7)), (''active_workspace_id'', JStr (uuid_str 1)),
     (''workspace_role'', JStr ''owner''), (''exp'', JInt 1900000000)]"

definition owner_token :: string where
  "owner_token = ''key.'' @ json_dumps (JObj owner_payload)"

definition owner_header :: "string option" where
  "owner_header = Some (BEARER_PREFIX @ owner_token)"

definition owner_claims :: JWTClaims where
  "owner_claims = \<lparr>jwt_user_id = 7, jwt_workspace_id = 1, jwt_workspace_role = OWNER, jwt_shared_file_ids = None,
     jwt_exp = JInt 1900000000\<rparr>"

lemma owner_claims_simps [simp]:
  "jwt_workspace_id owner_claims = 1" "jwt_workspace_role owner_claims = OWNER"
  by (simp_all add: owner_claims_def)

lemma length_json_escape: "length (json_escape c) \<le> 6"
  by (simp add: json_escape_def Let_def hex4_def)

lemma length_dump_str: "length (dump_str s) \<le> 6 * length s + 2"
proof -
  have "length (concat (map json_escape s)) \<le> 6 * length s"
  proof (induction s)
    case (Cons c s)
    with length_json_escape [of c] show ?case by simp
  qed simp
  then show ?thesis by (simp add: dump_str_def)
qed

lemma exp_text: "str_int 1900000000 = ''1900000000''"
  by (simp add: str_int_def str_nat.simps digit_char_def char_of_def bit_iff_odd)

lemma owner_token_length: "length owner_token \<le> MAX_TOKEN_SIZE"
  using length_dump_str [of "uuid_str 7"] length_dump_str [of "uuid_str 1"] length_dump_str [of "''user_id''"]
    length_dump_str [of "''active_workspace_id''"] length_dump_str [of "''workspace_role''"]
    length_dump_str [of "''owner''"] length_dump_str [of "''exp''"]
  by (simp add: owner_token_def owner_payload_def MAX_TOKEN_SIZE_def exp_text uuid_str_length)

lemma owner_genuine: "mem_genuine owner_token ''key'' algorithms owner_payload"
proof -
  have "json_ok (JObj owner_payload)" by (simp add: owner_payload_def)
  from json_loads_dumps [OF this] show ?thesis
    by (simp add: mem_genuine_def owner_token_def starts_with_def del: json_dumps.simps)
qed

lemma owner_decoded: "claims_of owner_payload = Inr owner_claims"
  by (simp add: claims_of_def owner_payload_def json_item_def json_UUID_def json_role_def to_WorkspaceRole_def enum_WorkspaceRole_def shared_ids_def
      JWTClaims_post_init_def owner_claims_def)

lemma owner_bearer: "bearer_token owner_header owner_token"
  using owner_token_length
  by (simp add: bearer_token_def owner_header_def)
    (simp add: owner_token_def strip_def lstrip_def rstrip_def is_space_def code_def)

abbreviation sample_jwt :: "unit mem_world_scheme jwt_lib" where
  "sample_jwt \<equiv> mem_jwt"

lemma owner_authentic: "authentic mem_genuine sample_jwt sample_settings owner_header owner_claims"
proof -
  have "mk_JWTValidator sample_jwt sample_settings = Inr \<lparr>jv_public_key = ''key'', jv_algorithm = ''RS256''\<rparr>"
    by (simp add: mk_JWTValidator_def sample_settings_def mem_jwt_def strip_def lstrip_def rstrip_def is_space_def code_def)
  with owner_bearer owner_genuine claims_of_Inr [OF owner_decoded] show ?thesis
    unfolding authentic_def by fastforce
qed

lemma owner_only:
  assumes "authentic mem_genuine sample_jwt sample_settings owner_header c"
  shows "jwt_workspace_id c = 1"
proof -
  from assms obtain token v p where t: "bearer_token owner_header token" "mk_JWTValidator sample_jwt sample_settings = Inr v"
    "mem_genuine token (jv_public_key v) [jv_algorithm v] p" "states p c" by (auto simp: authentic_def)
  from t(1) have token: "token = owner_token" by (simp add: bearer_token_def owner_header_def)
  from t(2) have "jv_public_key v = ''key''"
    by (auto simp: mk_JWTValidator_def sample_settings_def mem_jwt_def)
  moreover have "mem_genuine owner_token ''key'' [jv_algorithm v] owner_payload" by (rule owner_genuine)
  ultimately have "p = owner_payload" using t(3) by (auto simp: mem_genuine_def token)
  with t(4) show ?thesis by (auto simp: states_def owner_payload_def)
qed

section \<open>Requests\<close>

definition owner_post :: schema_InitiateUploadRequest where
  "owner_post = \<lparr>sq_filename = ''b.pdf'', sq_size = 7, sq_mime_type = ''application/pdf'',
     sq_sha256_checksum = replicate 64 (CHR ''b'')\<rparr>"

lemma owner_post_valid: "validate_schema owner_post = Inr owner_post"
  by (simp add: validate_schema_def owner_post_def is_hex_lower_def list_all_iff)

definition owner_patch :: chunk_request where
  "owner_patch = \<lparr>cq_upload_id = 2, cq_upload_offset = 0, cq_upload_length = 5,
     cq_upload_checksum = ''sha256 '' @ sha256_hex [1, 2, 3], cq_content_type = ''application/offset+octet-stream'',
     cq_content_length = None\<rparr>"

lemma owner_patch_headers: "check_headers owner_patch = Inr (sha256_hex [1, 2, 3])"
  by (simp add: check_headers_Inr owner_patch_def check_content_length_def checksum_header_hex del: append.simps)

lemma owner_patch_id: "cq_upload_id owner_patch = 2"
  by (simp add: owner_patch_def)

definition sample_requests_list :: "unit mem_world_scheme api_request list" where
  "sample_requests_list =
     [\<lparr>rq_body = mem_body [1, 2, 3], rq_authorization = owner_header, rq_request = PatchUpload owner_patch\<rparr>,
      \<lparr>rq_body = mem_body [], rq_authorization = None, rq_request = DeleteUpload 2\<rparr>]"

lemma sample_absent: "absent mem_genuine sample_jwt sample_settings 5 sample_requests_list"
proof -
  have "jwt_workspace_id c \<noteq> 5" if "authentic mem_genuine sample_jwt sample_settings owner_header c" for c
    using owner_only [OF that] by simp
  moreover have "\<not> authentic mem_genuine sample_jwt sample_settings None c" for c
    by (simp add: authentic_def bearer_token_def)
  ultimately show ?thesis by (simp add: absent_def sample_requests_list_def entitled_def)
qed

lemma sample_api: "x \<in> set sample_requests_list \<Longrightarrow>
    upload_api mem_redis mw_now mem_live mem_world.more mem_environment 10 sample_jwt mem_genuine mem_timer (rq_body x)"
  using mem_api.upload_api_axioms by (auto simp: sample_requests_list_def)

lemma sample_limit: "max_concurrent_uploads sample_settings = 10"
  by (simp add: sample_settings_def)

end
