(* ===== verification/Stub_Keys.thy ===== *)
theory Stub_Keys
  imports Py_Base64 Auth
begin

text \<open>
  \<open>docker/auth_stub/keys.py\<close>: \<open>RSAKeyManager\<close>, which loads the RSA key pair of the stub authentication
  service from two PEM files or generates it. Its fields \<open>_private_key\<close> and \<open>_public_key\<close> change, so its
  methods act on the pair of the world and the object. The file system calls are the record \<open>disk\<close>, the
  \<open>cryptography\<close> package and \<open>jwt.encode\<close> the record \<open>crypto\<close>; \<open>key_tools\<close> states what they document.
  \<open>initialize_ready\<close>: what initialization leaves behind; \<open>initialize_returns\<close>: on tools that do not raise it
  returns, and a stored pair is kept. \<open>base64url_value\<close>: a JWKS number reads back as itself.
\<close>

section \<open>The tools\<close>

record 'w disk =
  d_mkdir :: "string \<Rightarrow> ('w, unit) io"
  d_exists :: "string \<Rightarrow> ('w, bool) io"
  d_unlink :: "string \<Rightarrow> ('w, unit) io"
  d_read_bytes :: "string \<Rightarrow> ('w, bytes) io"
  d_write_bytes :: "string \<Rightarrow> bytes \<Rightarrow> ('w, unit) io"
  d_chmod :: "string \<Rightarrow> nat \<Rightarrow> ('w, unit) io"

text \<open>A loaded key is an RSA key or, for \<open>isinstance\<close>, of another type with that name.\<close>

datatype 'k loaded = RsaKey 'k | OtherKey string

text \<open>A public key is the string \<open>jwt_lib\<close> takes it for, as in \<open>JWTValidator\<close>.\<close>

record ('w, 'k) crypto =
  c_generate_private_key :: "nat \<Rightarrow> nat \<Rightarrow> ('w, 'k) io"
  c_public_key :: "'k \<Rightarrow> string"
  c_private_bytes :: "'k \<Rightarrow> bytes"
  c_public_bytes :: "string \<Rightarrow> bytes"
  c_load_pem_private_key :: "bytes \<Rightarrow> exn + 'k loaded"
  c_load_pem_public_key :: "bytes \<Rightarrow> exn + string loaded"
  c_public_numbers :: "string \<Rightarrow> nat \<times> nat"
  c_encode :: "payload \<Rightarrow> 'k \<Rightarrow> string \<Rightarrow> ('w, string) io"

section \<open>The class\<close>

record 'k RSAKeyManager =
  km_keys_dir :: string
  km_private_key_path :: string
  km_public_key_path :: string
  km_private_key :: "'k option"
  km_public_key :: "string option"

definition mk_RSAKeyManager :: "string \<Rightarrow> 'k RSAKeyManager" where
  "mk_RSAKeyManager keys_dir = \<lparr>km_keys_dir = keys_dir, km_private_key_path = keys_dir @ ''/private.pem'',
     km_public_key_path = keys_dir @ ''/public.pem'', km_private_key = None, km_public_key = None\<rparr>"

type_synonym ('w, 'k, 'a) keys_io = "('w \<times> 'k RSAKeyManager, 'a) io"

definition generate_keys :: "'w disk \<Rightarrow> ('w, 'k) crypto \<Rightarrow> ('w, 'k, unit) keys_io" where
  "generate_keys D C =
     bnd self (\<lambda>m.
     bnd (on_client (c_generate_private_key C 65537 2048)) (\<lambda>k.
     bnd (set_self (km_private_key_update (\<lambda>_. Some k))) (\<lambda>_.
     bnd (set_self (km_public_key_update (\<lambda>_. Some (c_public_key C k)))) (\<lambda>_.
     bnd (on_client (d_write_bytes D (km_private_key_path m) (c_private_bytes C k))) (\<lambda>_.
     bnd (on_client (d_chmod D (km_private_key_path m) 384)) (\<lambda>_.
     on_client (d_write_bytes D (km_public_key_path m) (c_public_bytes C (c_public_key C k)))))))))"

definition expect_rsa :: "string \<Rightarrow> exn + 'a loaded \<Rightarrow> exn + 'a" where
  "expect_rsa kind r = andThen r (\<lambda>l. case l of
     RsaKey k \<Rightarrow> Inr k
   | OtherKey t \<Rightarrow> Inl (TypeError (''Expected RSA '' @ kind @ '' key, got '' @ t)))"

definition load_keys :: "'w disk \<Rightarrow> ('w, 'k) crypto \<Rightarrow> ('w, 'k, unit) keys_io" where
  "load_keys D C =
     bnd self (\<lambda>m.
     bnd (on_client (d_read_bytes D (km_private_key_path m))) (\<lambda>private_pem.
     bnd (lift (expect_rsa ''private'' (c_load_pem_private_key C private_pem))) (\<lambda>k.
     bnd (set_self (km_private_key_update (\<lambda>_. Some k))) (\<lambda>_.
     bnd (on_client (d_read_bytes D (km_public_key_path m))) (\<lambda>public_pem.
     bnd (lift (expect_rsa ''public'' (c_load_pem_public_key C public_pem))) (\<lambda>p.
     set_self (km_public_key_update (\<lambda>_. Some p))))))))"

definition test_claims :: payload where
  "test_claims = [(''test'', JStr ''validation''), (''exp'', JInt 9999999999)]"

definition validate_key_pair :: "('w, 'k) crypto \<Rightarrow> 'w jwt_lib \<Rightarrow> ('w, 'k, unit) keys_io" where
  "validate_key_pair C J =
     bnd self (\<lambda>m. case (km_private_key m, km_public_key m) of
       (Some k, Some p) \<Rightarrow>
         catch
           (bnd (on_client (c_encode C test_claims k ''RS256'')) (\<lambda>test_token.
            bnd (on_client (jwt_decode J test_token p [''RS256''] [])) (\<lambda>_. ret ())))
           (\<lambda>e. if is_Exception e then raise (ValueError (''Key pair validation failed: '' @ exn_str e)) else raise e)
     | _ \<Rightarrow> raise (ValueError ''Keys must be initialized before validation''))"

text \<open>The clean-up that occurs twice: each file is removed if it is there.\<close>

definition unlink_existing :: "'w disk \<Rightarrow> string \<Rightarrow> ('w, 'k, unit) keys_io" where
  "unlink_existing D p = bnd (on_client (d_exists D p)) (\<lambda>there. if there then on_client (d_unlink D p) else ret ())"

definition regenerate_keys :: "'w disk \<Rightarrow> ('w, 'k) crypto \<Rightarrow> ('w, 'k, unit) keys_io" where
  "regenerate_keys D C =
     bnd self (\<lambda>m.
     bnd (unlink_existing D (km_private_key_path m)) (\<lambda>_.
     bnd (unlink_existing D (km_public_key_path m)) (\<lambda>_.
     generate_keys D C)))"

definition both_exist :: "'w disk \<Rightarrow> string \<Rightarrow> string \<Rightarrow> ('w, 'k, bool) keys_io" where
  "both_exist D p q = bnd (on_client (d_exists D p)) (\<lambda>there. if there then on_client (d_exists D q) else ret False)"

definition initialize_keys :: "'w disk \<Rightarrow> ('w, 'k) crypto \<Rightarrow> 'w jwt_lib \<Rightarrow> ('w, 'k, unit) keys_io" where
  "initialize_keys D C J =
     bnd self (\<lambda>m.
     bnd (on_client (d_mkdir D (km_keys_dir m))) (\<lambda>_.
     bnd (both_exist D (km_private_key_path m) (km_public_key_path m)) (\<lambda>stored.
     if stored
     then catch (bnd (load_keys D C) (\<lambda>_. validate_key_pair C J))
            (\<lambda>e. if is_Exception e then regenerate_keys D C else raise e)
     else regenerate_keys D C)))"

definition get_private_key :: "'k RSAKeyManager \<Rightarrow> exn + 'k" where
  "get_private_key m = opt_raise (OtherException ''Keys not initialized - call initialize() first'') (km_private_key m)"

definition get_public_key :: "'k RSAKeyManager \<Rightarrow> exn + string" where
  "get_public_key m = opt_raise (OtherException ''Keys not initialized - call initialize() first'') (km_public_key m)"

definition get_public_key_pem :: "('w, 'k) crypto \<Rightarrow> 'k RSAKeyManager \<Rightarrow> exn + string" where
  "get_public_key_pem C m = andThen (get_public_key m) (\<lambda>p. opt_raise UnicodeDecodeError (utf8_decode (c_public_bytes C p)))"

section \<open>The key set\<close>

fun bit_length :: "nat \<Rightarrow> nat" where
  "bit_length n = (if n = 0 then 0 else Suc (bit_length (n div 2)))"

declare bit_length.simps [simp del]

text \<open>\<open>n.to_bytes(k, byteorder="big")\<close>, for \<open>n < 256 ^ k\<close>.\<close>

primrec to_bytes :: "nat \<Rightarrow> nat \<Rightarrow> bytes" where
  "to_bytes 0 n = []"
| "to_bytes (Suc k) n = to_bytes k (n div 256) @ [n mod 256]"

definition url_char :: "char \<Rightarrow> char" where
  "url_char c = (if c = CHR ''+'' then CHR ''-'' else if c = CHR ''/'' then CHR ''_'' else c)"

definition int_to_base64url :: "nat \<Rightarrow> string" where
  "int_to_base64url n =
     (let byte_length = (bit_length n + 7) div 8; n_bytes = to_bytes byte_length n in
      rev (dropWhile (\<lambda>c. c = CHR ''='') (rev (map url_char (b64_encode n_bytes)))))"

definition get_public_key_jwks :: "('w, 'k) crypto \<Rightarrow> 'k RSAKeyManager \<Rightarrow> exn + json" where
  "get_public_key_jwks C m =
     andThen (get_public_key m) (\<lambda>p.
     case c_public_numbers C p of (n, e) \<Rightarrow>
       Inr (JObj [(''keys'', JArr [JObj
         [(''kty'', JStr ''RSA''), (''use'', JStr ''sig''), (''alg'', JStr ''RS256''), (''kid'', JStr ''stub-auth-key-1''),
          (''n'', JStr (int_to_base64url n)), (''e'', JStr (int_to_base64url e))]])]))"

section \<open>Reading a number of the key set\<close>

text \<open>RFC 7518: base64url without padding, big-endian.\<close>

definition std_char :: "char \<Rightarrow> char" where
  "std_char c = (if c = CHR ''-'' then CHR ''+'' else if c = CHR ''_'' then CHR ''/'' else c)"

definition from_bytes :: "bytes \<Rightarrow> nat" where
  "from_bytes = foldl (\<lambda>a b. a * 256 + b) 0"

definition base64url_to_int :: "string \<Rightarrow> exn + nat" where
  "base64url_to_int s =
     andThen (b64decode (map std_char s @ replicate ((4 - length s mod 4) mod 4) (CHR ''='')))
       (\<lambda>bs. Inr (from_bytes bs))"

fun b64_body :: "bytes \<Rightarrow> string" where
  "b64_body [] = []"
| "b64_body [a] = [b64_char (a div 4), b64_char (a mod 4 * 16)]"
| "b64_body [a, b] = [b64_char (a div 4), b64_char (a mod 4 * 16 + b div 16), b64_char (b mod 16 * 4)]"
| "b64_body (a # b # c # bs) =
     b64_char (a div 4) # b64_char (a mod 4 * 16 + b div 16) # b64_char (b mod 16 * 4 + c div 64) # b64_char (c mod 64)
     # b64_body bs"

lemma b64_encode_body: "b64_encode bs = b64_body bs @ replicate ((4 - length (b64_body bs) mod 4) mod 4) (CHR ''='')"
  by (induction bs rule: b64_body.induct) (simp_all add: numeral_2_eq_2)

lemma b64_url_chars: "list_all (\<lambda>v. std_char (url_char (b64_char v)) = b64_char v \<and> url_char (b64_char v) \<noteq> CHR ''='') [0..<64]"
  by code_simp

lemma b64_url_char:
  assumes "v < 64"
  shows "std_char (url_char (b64_char v)) = b64_char v" and "url_char (b64_char v) \<noteq> CHR ''=''"
  using b64_url_chars assms by (auto simp: list_all_iff simp del: upt_Suc)

lemma b64_charI: "v < 64 \<Longrightarrow> \<exists>u < 64. b64_char v = b64_char u"
  by blast

lemma b64_body_chars: "is_bytes bs \<Longrightarrow> c \<in> set (b64_body bs) \<Longrightarrow> \<exists>v < 64. c = b64_char v"
proof (induction bs rule: b64_body.induct)
  case (2 a)
  then show ?case by (auto simp: is_bytes_def intro!: b64_charI)
next
  case (3 a b)
  then show ?case by (auto simp: is_bytes_def intro!: b64_charI)
next
  case (4 a b c' bs)
  then show ?case by (auto simp: is_bytes_def intro!: b64_charI)
qed simp

lemma dropWhile_rev_replicate:
  assumes "\<And>c. c \<in> set xs \<Longrightarrow> c \<noteq> x"
  shows "rev (dropWhile (\<lambda>c. c = x) (rev (xs @ replicate n x))) = xs"
proof -
  have "dropWhile (\<lambda>c. c = x) (replicate n x @ rev xs) = dropWhile (\<lambda>c. c = x) (rev xs)"
    by (induction n) simp_all
  moreover have "dropWhile (\<lambda>c. c = x) (rev xs) = rev xs"
  proof (cases "rev xs")
    case (Cons a l)
    then have "a \<in> set xs" by (metis list.set_intros(1) set_rev)
    with assms Cons show ?thesis by simp
  qed simp
  ultimately show ?thesis by simp
qed

lemma from_bytes_to_bytes: "n < 256 ^ k \<Longrightarrow> from_bytes (to_bytes k n) = n"
proof (induction k arbitrary: n)
  case (Suc k)
  then have "n div 256 < 256 ^ k" by (simp add: less_mult_imp_div_less mult.commute)
  from Suc.IH [OF this] show ?case by (simp add: from_bytes_def)
qed (simp add: from_bytes_def)

lemma is_bytes_to_bytes: "is_bytes (to_bytes k n)"
  by (induction k arbitrary: n) (simp_all add: is_bytes_def)

lemma less_bit_length: "n < 2 ^ bit_length n"
proof (induction n rule: bit_length.induct)
  case (1 n)
  show ?case
  proof (cases "n = 0")
    case False
    with 1 have "n div 2 < 2 ^ bit_length (n div 2)" by simp
    with False show ?thesis by (subst bit_length.simps) simp
  qed simp
qed

lemma base64url_value: "base64url_to_int (int_to_base64url n) = Inr n"
proof -
  let ?k = "(bit_length n + 7) div 8"
  let ?bs = "to_bytes ?k n"
  have "n < 2 ^ (8 * ?k)"
    by (rule less_le_trans [OF less_bit_length]) (rule power_increasing; simp)
  then have n: "from_bytes ?bs = n" by (intro from_bytes_to_bytes) (simp add: power_mult)
  have url: "url_char c \<noteq> CHR ''=''" "std_char (url_char c) = c" if "c \<in> set (b64_body ?bs)" for c
    using b64_body_chars [OF is_bytes_to_bytes that] b64_url_char by auto
  have eq: "url_char (CHR ''='') = CHR ''=''" by (simp add: url_char_def)
  have "int_to_base64url n = map url_char (b64_body ?bs)"
    unfolding int_to_base64url_def Let_def b64_encode_body map_append map_replicate eq
    by (rule dropWhile_rev_replicate) (use url(1) in auto)
  moreover have "map std_char (map url_char (b64_body ?bs)) = b64_body ?bs"
    using url(2) by (simp add: map_idI)
  ultimately show ?thesis
    unfolding base64url_to_int_def
    by (simp add: b64_encode_body [symmetric] b64_decode_encode [OF is_bytes_to_bytes] n del: map_map)
qed

section \<open>What the tools document\<close>

text \<open>
  \<open>files\<close>: what is on disk. \<open>signed t k c\<close>: \<open>t\<close> is a token over the claims \<open>c\<close> signed with \<open>k\<close>; \<open>genuine\<close> is
  that of \<open>token_verifier\<close>. \<open>faulty\<close>: calls may raise for reasons of their own; \<open>horizon\<close>: a time, in
  seconds, before which everything happens, so that a later expiry is not reached.
\<close>

locale key_tools =
  fixes D :: "'w disk" and C :: "('w, 'k) crypto" and J :: "'w jwt_lib"
    and files :: "'w \<Rightarrow> string \<Rightarrow> bytes option"
    and genuine :: "string \<Rightarrow> string \<Rightarrow> string list \<Rightarrow> payload \<Rightarrow> bool"
    and signed :: "string \<Rightarrow> 'k \<Rightarrow> payload \<Rightarrow> bool"
    and faulty :: bool and horizon :: int
  assumes mkdir: "wp (d_mkdir D p) (\<lambda>_ w'. files w' = files w) (\<lambda>_ w'. faulty \<and> files w' = files w) w"
    and exists: "wp (d_exists D p) (\<lambda>b w'. files w' = files w \<and> (b \<longleftrightarrow> files w p \<noteq> None))
      (\<lambda>_ w'. faulty \<and> files w' = files w) w"
    and unlink: "files w p \<noteq> None \<Longrightarrow> wp (d_unlink D p) (\<lambda>_ w'. files w' = (files w)(p := None))
      (\<lambda>_ w'. faulty \<and> files w' = files w) w"
    and read_bytes: "files w p = Some b \<Longrightarrow> wp (d_read_bytes D p) (\<lambda>x w'. files w' = files w \<and> x = b)
      (\<lambda>_ w'. faulty \<and> files w' = files w) w"
    and write_bytes: "wp (d_write_bytes D p b) (\<lambda>_ w'. files w' = (files w)(p \<mapsto> b))
      (\<lambda>_ w'. faulty \<and> (\<forall>q. q \<noteq> p \<longrightarrow> files w' q = files w q)) w"
    and chmod: "wp (d_chmod D p mode) (\<lambda>_ w'. files w' = files w) (\<lambda>_ w'. faulty \<and> files w' = files w) w"
    and generates: "wp (c_generate_private_key C exponent bits) (\<lambda>_ w'. files w' = files w)
      (\<lambda>_ w'. faulty \<and> files w' = files w) w"
    and encodes: "json_ok (JObj c) \<Longrightarrow> wp (c_encode C c k ''RS256'') (\<lambda>t w'. files w' = files w \<and> signed t k c)
      (\<lambda>_ w'. faulty \<and> files w' = files w) w"
    and decodes: "wp (jwt_decode J t p algorithms require) (\<lambda>c w'. files w' = files w \<and> genuine t p algorithms c)
      (\<lambda>e w'. files w' = files w \<and> (is_Exception e \<or> faulty) \<and> (signed t k c \<and> p = c_public_key C k \<and> ''RS256'' \<in> set algorithms
         \<and> set require \<subseteq> fst ` set c \<and> (\<exists>x \<ge> horizon. map_of c ''exp'' = Some (JInt x)) \<longrightarrow> faulty)) w"
    and genuine_signed: "signed t k c \<Longrightarrow> genuine t p algorithms c' \<Longrightarrow> p = c_public_key C k \<and> c' = c"
    and load_private: "c_load_pem_private_key C (c_private_bytes C k) = Inr (RsaKey k)"
    and load_public: "c_load_pem_public_key C (c_public_bytes C p) = Inr (RsaKey p)"
    and load_errors: "c_load_pem_private_key C b = Inl e \<Longrightarrow> is_Exception e" "c_load_pem_public_key C b = Inl e \<Longrightarrow> is_Exception e"
    and pem_text: "\<exists>s. utf8_decode (c_public_bytes C p) = Some s \<and> jwt_load_public_key J s = Inr p \<and> strip s \<noteq> []"
    and before_2286: "horizon \<le> 9999999999"

definition same_paths :: "'k RSAKeyManager \<Rightarrow> 'k RSAKeyManager \<Rightarrow> bool" where
  "same_paths m m' = (km_private_key_path m' = km_private_key_path m \<and> km_public_key_path m' = km_public_key_path m)"

text \<open>Other files are untouched.\<close>

definition key_files_only :: "'k RSAKeyManager \<Rightarrow> (string \<Rightarrow> bytes option) \<Rightarrow> (string \<Rightarrow> bytes option) \<Rightarrow> bool" where
  "key_files_only m fs fs' = (\<forall>q. q \<noteq> km_private_key_path m \<and> q \<noteq> km_public_key_path m \<longrightarrow> fs' q = fs q)"

text \<open>The files hold a key pair; the object holds the pair the files hold.\<close>

definition pair_stored :: "('w, 'k) crypto \<Rightarrow> (string \<Rightarrow> bytes option) \<Rightarrow> 'k RSAKeyManager \<Rightarrow> 'k \<Rightarrow> bool" where
  "pair_stored C fs m k = (\<exists>b b'. fs (km_private_key_path m) = Some b \<and> c_load_pem_private_key C b = Inr (RsaKey k)
     \<and> fs (km_public_key_path m) = Some b' \<and> c_load_pem_public_key C b' = Inr (RsaKey (c_public_key C k)))"

definition keys_ready :: "('w, 'k) crypto \<Rightarrow> (string \<Rightarrow> bytes option) \<Rightarrow> 'k RSAKeyManager \<Rightarrow> 'k \<Rightarrow> bool" where
  "keys_ready C fs m k = (km_private_key m = Some k \<and> km_public_key m = Some (c_public_key C k) \<and> pair_stored C fs m k)"

lemma pair_stored_unique: "pair_stored C fs m k \<Longrightarrow> pair_stored C fs m k' \<Longrightarrow> k = k'"
  by (auto simp: pair_stored_def)

lemma pair_stored_paths: "same_paths m m' \<Longrightarrow> pair_stored C fs m' k = pair_stored C fs m k"
  by (simp add: same_paths_def pair_stored_def)

lemma same_paths_simps [simp]:
  "same_paths m m" "same_paths m (km_private_key_update f m') = same_paths m m'"
  "same_paths m (km_public_key_update g m') = same_paths m m'"
  by (simp_all add: same_paths_def)

lemma expect_rsa_Inr [simp]: "expect_rsa kind r = Inr k \<longleftrightarrow> r = Inr (RsaKey k)"
  by (cases r) (auto simp: expect_rsa_def split: loaded.splits)

lemma expect_rsa_Inl:
  assumes "expect_rsa kind r = Inl e"
  shows "r \<noteq> Inr (RsaKey k)" and "(\<And>e'. r = Inl e' \<Longrightarrow> is_Exception e') \<Longrightarrow> is_Exception e"
  using assms by (cases r; auto simp: expect_rsa_def split: loaded.splits)+

lemma expect_rsa_RsaKey [simp]: "expect_rsa kind (Inr (RsaKey k)) = Inr k"
  by simp

context key_tools
begin

lemma generate_keys_wp:
  assumes "km_private_key_path m \<noteq> km_public_key_path m"
  shows "wp (generate_keys D C)
     (\<lambda>_ s. same_paths m (snd s) \<and> key_files_only m (files w) (files (fst s)) \<and> (\<exists>k. keys_ready C (files (fst s)) (snd s) k))
     (\<lambda>_ s. faulty \<and> key_files_only m (files w) (files (fst s))) (w, m)"
  unfolding generate_keys_def wp_bnd wp_self wp_on_client
  apply (rule wp_use [OF generates])
   apply (simp only: wp_set_self wp_on_client)
   apply (rule wp_use [OF write_bytes])
    apply (rule wp_use [OF chmod])
     apply (rule wp_use [OF write_bytes])
  using assms by (auto simp: key_files_only_def keys_ready_def pair_stored_def load_private load_public)

lemma load_keys_wp:
  assumes "files w (km_private_key_path m) \<noteq> None" and "files w (km_public_key_path m) \<noteq> None"
  shows "wp (load_keys D C)
     (\<lambda>_ s. same_paths m (snd s) \<and> files (fst s) = files w \<and> (\<exists>k p b b'. km_private_key (snd s) = Some k
        \<and> km_public_key (snd s) = Some p \<and> files w (km_private_key_path m) = Some b \<and> c_load_pem_private_key C b = Inr (RsaKey k)
        \<and> files w (km_public_key_path m) = Some b' \<and> c_load_pem_public_key C b' = Inr (RsaKey p)))
     (\<lambda>e s. same_paths m (snd s) \<and> files (fst s) = files w \<and> (is_Exception e \<or> faulty)
        \<and> ((\<exists>k. pair_stored C (files w) m k) \<longrightarrow> faulty)) (w, m)"
proof -
  obtain b b' where b: "files w (km_private_key_path m) = Some b" "files w (km_public_key_path m) = Some b'"
    using assms by blast
  show ?thesis
    unfolding load_keys_def wp_bnd wp_self wp_on_client
    apply (rule wp_use [OF read_bytes [OF b(1)]])
     apply (cases "expect_rsa ''private'' (c_load_pem_private_key C b)")
    subgoal by (auto simp: wp_lift pair_stored_def b dest: expect_rsa_Inl(1) intro: expect_rsa_Inl(2) load_errors)
     apply (simp add: wp_lift wp_set_self wp_on_client)
     apply (rule wp_use [OF read_bytes [where b = b']])
       apply (simp add: b)
      apply (cases "expect_rsa ''public'' (c_load_pem_public_key C b')")
    subgoal by (auto simp: pair_stored_def b dest: expect_rsa_Inl(1) intro: expect_rsa_Inl(2) load_errors)
    by (auto simp: wp_set_self b)
qed

lemma validate_key_pair_wp:
  assumes "km_private_key m = Some k" and "km_public_key m = Some p"
  shows "wp (validate_key_pair C J)
     (\<lambda>_ s. snd s = m \<and> files (fst s) = files w \<and> p = c_public_key C k)
     (\<lambda>e s. snd s = m \<and> files (fst s) = files w \<and> (is_Exception e \<or> faulty) \<and> (p = c_public_key C k \<longrightarrow> faulty)) (w, m)"
  unfolding validate_key_pair_def wp_bnd wp_self assms prod.case option.case wp_catch wp_on_client
  apply (rule wp_use [OF encodes])
    apply (simp add: test_claims_def)
   apply (rule wp_use [OF decodes [where k = k and c = test_claims]])
  using before_2286 by (auto simp: wp_if wp_raise wp_ret test_claims_def dest: genuine_signed)

lemma unlink_existing_wp:
  "wp (unlink_existing D p) (\<lambda>_ s. snd s = m \<and> files (fst s) = (files w)(p := None))
     (\<lambda>_ s. faulty \<and> snd s = m \<and> files (fst s) = files w) (w, m)"
  unfolding unlink_existing_def wp_bnd wp_on_client
  apply (rule wp_use [OF exists])
   apply (auto simp: wp_on_client wp_ret fun_upd_idem simp del: ret_run intro!: wp_use [OF unlink])
  done

lemma regenerate_keys_wp:
  assumes "km_private_key_path m \<noteq> km_public_key_path m"
  shows "wp (regenerate_keys D C)
     (\<lambda>_ s. same_paths m (snd s) \<and> key_files_only m (files w) (files (fst s)) \<and> (\<exists>k. keys_ready C (files (fst s)) (snd s) k))
     (\<lambda>_ s. faulty \<and> key_files_only m (files w) (files (fst s))) (w, m)"
  unfolding regenerate_keys_def wp_bnd wp_self
proof (rule wp_use [OF unlink_existing_wp], goal_cases)
  case (1 x s)
  then obtain w1 where s: "s = (w1, m)" "files w1 = (files w)(km_private_key_path m := None)" by (cases s) auto
  show ?case
    unfolding s(1)
  proof (rule wp_use [OF unlink_existing_wp], goal_cases)
    case (1 x s)
    then obtain w2 where s: "s = (w2, m)" "files w2 = (files w1)(km_public_key_path m := None)" by (cases s) auto
    show ?case
      unfolding s(1) by (rule wp_use [OF generate_keys_wp [OF assms]])
        (auto simp: key_files_only_def s \<open>files w1 = _\<close>)
  qed (auto simp: key_files_only_def s)
qed (auto simp: key_files_only_def)

lemma both_exist_wp:
  "wp (both_exist D p q) (\<lambda>b s. snd s = m \<and> files (fst s) = files w \<and> (b \<longleftrightarrow> files w p \<noteq> None \<and> files w q \<noteq> None))
     (\<lambda>_ s. faulty \<and> snd s = m \<and> files (fst s) = files w) (w, m)"
  unfolding both_exist_def wp_bnd wp_on_client
  by (rule wp_use [OF exists]) (auto simp: wp_on_client wp_ret intro!: wp_use [OF exists])

text \<open>The \<open>try\<close> block: it ends with the stored pair, or there is none, or something failed.\<close>

lemma try_load_wp:
  assumes "files w (km_private_key_path m) \<noteq> None" and "files w (km_public_key_path m) \<noteq> None"
  shows "wp (bnd (load_keys D C) (\<lambda>_. validate_key_pair C J))
     (\<lambda>_ s. same_paths m (snd s) \<and> files (fst s) = files w \<and> (\<exists>k. keys_ready C (files w) (snd s) k))
     (\<lambda>e s. same_paths m (snd s) \<and> files (fst s) = files w \<and> (is_Exception e \<or> faulty)
        \<and> ((\<exists>k. pair_stored C (files w) m k) \<longrightarrow> faulty)) (w, m)"
  unfolding wp_bnd
proof (rule wp_use [OF load_keys_wp [OF assms]], goal_cases)
  case (1 x s)
  obtain w1 m1 where s: "s = (w1, m1)" by fastforce
  with 1 obtain k' p b b' where keys: "km_private_key m1 = Some k'" "km_public_key m1 = Some p" "same_paths m m1"
    "files w1 = files w" "files w (km_private_key_path m) = Some b" "c_load_pem_private_key C b = Inr (RsaKey k')"
    "files w (km_public_key_path m) = Some b'" "c_load_pem_public_key C b' = Inr (RsaKey p)" by auto
  then have pair: "p = c_public_key C k' \<Longrightarrow> keys_ready C (files w) m1 k'" "\<And>k. pair_stored C (files w) m k \<Longrightarrow> p = c_public_key C k'"
    by (auto simp: keys_ready_def pair_stored_def same_paths_def)
  show ?case
    unfolding s by (rule wp_use [OF validate_key_pair_wp [OF keys(1,2)]]) (use keys(3,4) pair in auto)
qed

lemma initialize_keys_wp:
  assumes "km_private_key_path m \<noteq> km_public_key_path m"
  shows "wp (initialize_keys D C J)
     (\<lambda>_ s. same_paths m (snd s) \<and> key_files_only m (files w) (files (fst s))
        \<and> (\<exists>k. keys_ready C (files (fst s)) (snd s) k
             \<and> (\<forall>k'. pair_stored C (files w) m k' \<and> \<not> faulty \<longrightarrow> k = k' \<and> files (fst s) = files w)))
     (\<lambda>_ s. faulty \<and> key_files_only m (files w) (files (fst s))) (w, m)"
proof -
  let ?Q = "\<lambda>_ s. same_paths m (snd s) \<and> key_files_only m (files w) (files (fst s))
        \<and> (\<exists>k. keys_ready C (files (fst s)) (snd s) k
             \<and> (\<forall>k'. pair_stored C (files w) m k' \<and> \<not> faulty \<longrightarrow> k = k' \<and> files (fst s) = files w))"
  let ?E = "\<lambda>_ s. faulty \<and> key_files_only m (files w) (files (fst s))"
  have fresh: "wp (regenerate_keys D C) ?Q ?E (w1, m1)"
    if "files w1 = files w" "same_paths m m1" "\<And>k'. pair_stored C (files w) m k' \<Longrightarrow> faulty" for w1 m1
  proof -
    have "km_private_key_path m1 \<noteq> km_public_key_path m1" using that(2) assms by (simp add: same_paths_def)
    from regenerate_keys_wp [OF this] show ?thesis
      by (rule wp_use) (use that in \<open>auto simp: same_paths_def key_files_only_def\<close>)
  qed
  show ?thesis
    unfolding initialize_keys_def wp_bnd wp_self wp_on_client
  proof (rule wp_use [OF mkdir], goal_cases)
    case (1 x w1)
    show ?case
    proof (rule wp_use [OF both_exist_wp], goal_cases)
      case (1 b s)
      then obtain w2 where s: "s = (w2, m)" "files w2 = files w" using \<open>files w1 = files w\<close> by (cases s) auto
      show ?case
      proof (cases b)
        case True
        then have there: "files w2 (km_private_key_path m) \<noteq> None" "files w2 (km_public_key_path m) \<noteq> None"
          using 1 s \<open>files w1 = files w\<close> by auto
        show ?thesis
          unfolding if_P [OF True] s(1) wp_catch
        proof (rule wp_use [OF try_load_wp [OF there]], goal_cases)
          case (1 x s1)
          then show ?case by (auto simp: s key_files_only_def keys_ready_def pair_stored_paths dest: pair_stored_unique)
        next
          case (2 e s1)
          then show ?case
            using fresh [of "fst s1" "snd s1"] by (cases "is_Exception e") (auto simp: s key_files_only_def wp_raise)
        qed
      next
        case False
        then have "\<not> pair_stored C (files w) m k'" for k'
          using 1 \<open>files w1 = files w\<close> by (auto simp: pair_stored_def)
        then show ?thesis using False fresh [of w2 m] s by simp
      qed
    qed (use 1 in \<open>auto simp: key_files_only_def\<close>)
  qed (auto simp: key_files_only_def)
qed

end

end
