(* ===== verification/Stub_Service.thy ===== *)
theory Stub_Service
  imports Stub_Keys Complete_Sample
begin

text \<open>
  \<open>docker/auth_stub/main.py\<close> and \<open>models.py\<close>: the stub authentication service. A token request is validated,
  its claims are signed with the key of the \<open>RSAKeyManager\<close> and answered; the key set, health and root
  endpoints. The global \<open>key_manager\<close> is an argument, \<open>None\<close> before start-up. \<open>token_claims_read\<close> and
  \<open>stub_token_wp\<close>: what the upload service reads from a token of the stub; \<open>mem_stub\<close>: tools in memory.
\<close>

section \<open>Requests and responses\<close>

record TokenRequest =
  tq_user_id :: uuid
  tq_workspace_id :: uuid
  tq_workspace_role :: string
  tq_shared_file_ids :: "uuid list option"

record TokenResponse =
  tr_access_token :: string
  tr_token_type :: string
  tr_expires_in :: int

definition validate_workspace_role :: "string \<Rightarrow> exn + string" where
  "validate_workspace_role v =
     (let v_lower = lower_str v in
      andThen (check (v_lower \<in> {''owner'', ''collaborator''})
        (ValueError (''workspace_role must be '' @ [CHR 0x27] @ ''owner'' @ [CHR 0x27] @ '' or '' @ [CHR 0x27]
           @ ''collaborator'' @ [CHR 0x27]))) (\<lambda>_.
      Inr v_lower))"

definition validate_shared_file_ids :: "uuid list option \<Rightarrow> exn + uuid list option" where
  "validate_shared_file_ids v =
     (case v of
        Some ids \<Rightarrow> andThen (check (length ids \<le> 1000) (ValueError ''shared_file_ids cannot exceed 1000 items'')) (\<lambda>_. Inr v)
      | None \<Rightarrow> Inr v)"

definition validate_token_request :: "TokenRequest \<Rightarrow> exn + TokenRequest" where
  "validate_token_request r =
     andThen (validate_workspace_role (tq_workspace_role r)) (\<lambda>role.
     andThen (validate_shared_file_ids (tq_shared_file_ids r)) (\<lambda>ids.
     Inr (r\<lparr>tq_workspace_role := role, tq_shared_file_ids := ids\<rparr>)))"

section \<open>The service\<close>

definition stub_lifespan :: "'w disk \<Rightarrow> ('w, 'k) crypto \<Rightarrow> 'w jwt_lib \<Rightarrow> ('w, 'k RSAKeyManager) io" where
  "stub_lifespan D C J = (\<lambda>w. case initialize_keys D C J (w, mk_RSAKeyManager ''/app/keys'') of
     (Inl e, s) \<Rightarrow> (Inl e, fst s)
   | (Inr _, s) \<Rightarrow> (Inr (snd s), fst s))"

text \<open>\<open>int(d.timestamp())\<close> of an aware time: whole seconds since 1970, towards zero.\<close>

definition unix_seconds :: "datetime \<Rightarrow> int" where
  "unix_seconds d = (let t = instant d - 62135596800000000 in if 0 \<le> t then t div 1000000 else - ((- t) div 1000000))"

definition token_claims :: "TokenRequest \<Rightarrow> datetime \<Rightarrow> datetime \<Rightarrow> payload" where
  "token_claims r now expiry =
     [(''user_id'', JStr (uuid_str (tq_user_id r))), (''active_workspace_id'', JStr (uuid_str (tq_workspace_id r))),
      (''workspace_role'', JStr (tq_workspace_role r)), (''exp'', JInt (unix_seconds expiry)),
      (''iat'', JInt (unix_seconds now))]
     @ (case tq_shared_file_ids r of
          Some ids \<Rightarrow> if 0 < length ids then [(''shared_file_ids'', JArr (map (\<lambda>f. JStr (uuid_str f)) ids))] else []
        | None \<Rightarrow> [])"

definition generate_token :: "('w, 'k) crypto \<Rightarrow> 'w environment \<Rightarrow> 'k RSAKeyManager option \<Rightarrow> TokenRequest
    \<Rightarrow> ('w, TokenResponse) io" where
  "generate_token C Env key_manager r =
     (case key_manager of
        None \<Rightarrow> raise (HTTPException 500 (JStr ''Key manager not initialized'') [])
      | Some m \<Rightarrow> catch
          (bnd (now_utc Env) (\<lambda>now.
           bnd (lift (opt_raise OverflowError (add_hours now 1))) (\<lambda>expiry.
           bnd (lift (get_private_key m)) (\<lambda>k.
           bnd (c_encode C (token_claims r now expiry) k ''RS256'') (\<lambda>token.
           ret \<lparr>tr_access_token = token, tr_token_type = ''Bearer'', tr_expires_in = 3600\<rparr>)))))
          (\<lambda>e. if is_Exception e
               then raise (HTTPException 500 (JStr (''Token generation failed: '' @ exn_str e)) []) else raise e))"

definition get_jwks :: "('w, 'k) crypto \<Rightarrow> 'k RSAKeyManager option \<Rightarrow> exn + Response" where
  "get_jwks C key_manager =
     (case key_manager of
        None \<Rightarrow> Inl (HTTPException 500 (JStr ''Key manager not initialized'') [])
      | Some m \<Rightarrow> (case get_public_key_jwks C m of
          Inr jwks \<Rightarrow> Inr \<lparr>rs_status = 200, rs_headers = [(''Cache-Control'', ''public, max-age=3600'')], rs_body = Some jwks\<rparr>
        | Inl e \<Rightarrow> if is_Exception e
            then Inl (HTTPException 500 (JStr (''JWKS retrieval failed: '' @ exn_str e)) []) else Inl e))"

definition stub_health :: "'k RSAKeyManager option \<Rightarrow> json" where
  "stub_health key_manager = JObj [(''status'', JStr ''ok''), (''service'', JStr ''stub-auth''), (''version'', JStr ''1.0.0''),
     (''keys_initialized'', JBool (key_manager \<noteq> None))]"

definition stub_root :: json where
  "stub_root = JObj [(''service'', JStr ''stub-auth''),
     (''description'', JStr ''Development-only JWT token generation service''), (''version'', JStr ''1.0.0''),
     (''endpoints'', JObj [(''generate_token'', JStr ''POST /generate-token''), (''jwks'', JStr ''GET /.well-known/jwks.json''),
        (''health'', JStr ''GET /health''), (''docs'', JStr ''GET /docs'')]),
     (''warning'', JStr ''DEVELOPMENT ONLY - DO NOT USE IN PRODUCTION'')]"

text \<open>The request is validated before the handler runs.\<close>

definition generate_token_route :: "('w, 'k) crypto \<Rightarrow> 'w environment \<Rightarrow> 'k RSAKeyManager option \<Rightarrow> TokenRequest
    \<Rightarrow> ('w, TokenResponse) io" where
  "generate_token_route C Env key_manager r = bnd (lift (validate_token_request r)) (generate_token C Env key_manager)"

section \<open>Start-up\<close>

lemma wp_stub_lifespan:
  "wp (stub_lifespan D C J) Q E w
    = wp (initialize_keys D C J) (\<lambda>_ s. Q (snd s) (fst s)) (\<lambda>e s. E e (fst s)) (w, mk_RSAKeyManager ''/app/keys'')"
  by (simp add: stub_lifespan_def wp_def split: prod.splits sum.splits)

lemma mk_paths [simp]: "km_private_key_path (mk_RSAKeyManager d) \<noteq> km_public_key_path (mk_RSAKeyManager d)"
  by (simp add: mk_RSAKeyManager_def)

abbreviation stub_files :: "'k RSAKeyManager" where
  "stub_files \<equiv> mk_RSAKeyManager ''/app/keys''"

context key_tools
begin

text \<open>Starting leaves a pair that is ready; a stored pair is kept; only faulty tools keep it from starting.\<close>

lemma lifespan_wp:
  "wp (stub_lifespan D C J)
     (\<lambda>m w'. same_paths stub_files m \<and> key_files_only m (files w) (files w')
        \<and> (\<exists>k. keys_ready C (files w') m k
             \<and> (\<forall>k'. pair_stored C (files w) m k' \<and> \<not> faulty \<longrightarrow> k = k' \<and> files w' = files w)))
     (\<lambda>_ w'. faulty \<and> key_files_only (stub_files :: 'k RSAKeyManager) (files w) (files w')) w"
  unfolding wp_stub_lifespan
proof (rule wp_use [OF initialize_keys_wp [OF mk_paths]], goal_cases)
  case (1 x s)
  then have p: "same_paths stub_files (snd s)" by blast
  have "key_files_only (snd s) (files w) (files (fst s)) = key_files_only (stub_files :: 'k RSAKeyManager) (files w) (files (fst s))"
    using p by (simp add: key_files_only_def same_paths_def)
  with 1 show ?case by (simp only: pair_stored_paths [OF p])
qed blast

text \<open>Two starts in a row.\<close>

lemma restart_wp:
  assumes "\<not> faulty"
  shows "wp (bnd (stub_lifespan D C J) (\<lambda>m. bnd (stub_lifespan D C J) (\<lambda>m'. ret (m, m'))))
     (\<lambda>ms w'. \<exists>k. keys_ready C (files w') (fst ms) k \<and> keys_ready C (files w') (snd ms) k) (\<lambda>_ _. False) w"
  unfolding wp_bnd
proof (rule wp_use [OF lifespan_wp], goal_cases)
  case (1 m w1)
  then obtain k where k: "keys_ready C (files w1) m k" "same_paths stub_files m" by blast
  show ?case
  proof (rule wp_use [OF lifespan_wp], goal_cases)
    case (1 m' w2)
    then have "pair_stored C (files w1) m' k"
      using k by (simp add: keys_ready_def pair_stored_def same_paths_def)
    with 1 assms have "keys_ready C (files w2) m' k" "files w2 = files w1" by auto
    with k(1) show ?case by (auto simp: wp_ret simp del: ret_run)
  qed (use assms in simp)
qed (use assms in simp)

end

section \<open>What the upload service reads from a token\<close>

definition shared_claim :: "TokenRequest \<Rightarrow> uuid list option" where
  "shared_claim r = (case tq_shared_file_ids r of Some (x # xs) \<Rightarrow> Some (x # xs) | _ \<Rightarrow> None)"

text \<open>The claims of a request, and when a role comes with the shared files it must have.\<close>

definition requested_claims :: "TokenRequest \<Rightarrow> datetime \<Rightarrow> JWTClaims" where
  "requested_claims r expiry = \<lparr>jwt_user_id = tq_user_id r, jwt_workspace_id = tq_workspace_id r,
     jwt_workspace_role = (if lower_str (tq_workspace_role r) = ''owner'' then OWNER else COLLABORATOR),
     jwt_shared_file_ids = shared_claim r, jwt_exp = JInt (unix_seconds expiry)\<rparr>"

definition consistent :: "TokenRequest \<Rightarrow> bool" where
  "consistent r = (lower_str (tq_workspace_role r) = ''owner'' \<longleftrightarrow> shared_claim r = None)"

lemma validate_token_request_Inr:
  "validate_token_request r = Inr r' \<longleftrightarrow> r' = r\<lparr>tq_workspace_role := lower_str (tq_workspace_role r)\<rparr>
     \<and> lower_str (tq_workspace_role r) \<in> {''owner'', ''collaborator''}
     \<and> (\<forall>ids. tq_shared_file_ids r = Some ids \<longrightarrow> length ids \<le> 1000)"
  by (cases r) (auto simp: validate_token_request_def validate_workspace_role_def validate_shared_file_ids_def Let_def
      split: option.splits)

lemma shared_ids_token:
  assumes "\<And>ids. tq_shared_file_ids r = Some ids \<Longrightarrow> length ids \<le> 1000"
  shows "shared_ids (token_claims r now expiry) = Inr (shared_claim r)"
proof (cases "tq_shared_file_ids r")
  case (Some ids)
  have "mapR json_UUID (map (\<lambda>f. JStr (uuid_str f)) ids) = Inr (map id ids)"
    unfolding map_map by (induction ids) (simp_all add: json_UUID_def)
  moreover have "list_all is_text (map (\<lambda>f. JStr (uuid_str f)) ids)" by (simp add: list_all_iff)
  ultimately show ?thesis
    using assms [OF Some] by (cases ids) (simp_all add: shared_ids_def token_claims_def shared_claim_def Some)
qed (simp add: shared_ids_def token_claims_def shared_claim_def)

lemma token_claims_read:
  assumes "validate_token_request r = Inr r'"
  shows "extract_claims (token_claims r' now expiry) = Inr c \<longleftrightarrow> consistent r \<and> c = requested_claims r expiry"
    and "extract_claims (token_claims r' now expiry) = Inl e \<Longrightarrow> \<not> consistent r \<and> is_AuthenticationError e"
proof -
  note v = assms [unfolded validate_token_request_Inr]
  have ids: "shared_ids (token_claims r' now expiry) = Inr (shared_claim r)"
    using v shared_ids_token [of r' now expiry] by (simp add: shared_claim_def)
  have "lower_str (tq_workspace_role r) = role_value (jwt_workspace_role (requested_claims r expiry))"
    using v by (auto simp: requested_claims_def)
  then have role: "to_WorkspaceRole (lower_str (tq_workspace_role r))
      = Inr (if lower_str (tq_workspace_role r) = ''owner'' then OWNER else COLLABORATOR)"
    using to_WorkspaceRole_value [of "jwt_workspace_role (requested_claims r expiry)"]
    by (simp add: requested_claims_def del: role_value.simps to_WorkspaceRole_value)
  have "map_of (token_claims r' now expiry) ''user_id'' = Some (JStr (uuid_str (tq_user_id r)))"
    "map_of (token_claims r' now expiry) ''active_workspace_id'' = Some (JStr (uuid_str (tq_workspace_id r)))"
    "map_of (token_claims r' now expiry) ''workspace_role'' = Some (JStr (lower_str (tq_workspace_role r)))"
    "map_of (token_claims r' now expiry) ''exp'' = Some (JInt (unix_seconds expiry))"
    using v by (simp_all add: token_claims_def)
  then have "claims_of (token_claims r' now expiry) = JWTClaims_post_init (requested_claims r expiry)"
    by (simp add: claims_of_def json_item_def json_UUID_def json_role_def role ids requested_claims_def)
  then show "extract_claims (token_claims r' now expiry) = Inr c \<longleftrightarrow> consistent r \<and> c = requested_claims r expiry"
    and "extract_claims (token_claims r' now expiry) = Inl e \<Longrightarrow> \<not> consistent r \<and> is_AuthenticationError e"
    by (auto simp: extract_claims_def JWTClaims_post_init_def consistent_def requested_claims_def split: if_splits)
qed

lemma token_claims_ok:
  assumes "validate_token_request r = Inr r'"
  shows "json_ok (JObj (token_claims r' now expiry))" and "set required_claims \<subseteq> fst ` set (token_claims r' now expiry)"
    and "map_of (token_claims r' now expiry) ''exp'' = Some (JInt (unix_seconds expiry))"
  by (auto simp: token_claims_def required_claims_def split: option.splits)

text \<open>In every world, the upload service accepts a token with the claims of the request, or answers 401.\<close>

definition token_decided :: "'w jwt_lib \<Rightarrow> AppSettings \<Rightarrow> TokenRequest \<Rightarrow> datetime \<Rightarrow> string \<Rightarrow> bool" where
  "token_decided J s r expiry t = (\<forall>w. wp (get_current_user J s (Some (BEARER_PREFIX @ t)))
     (\<lambda>c _. consistent r \<and> c = requested_claims r expiry) (\<lambda>e _. \<not> consistent r \<and> is_unauthorized e) w)"

section \<open>The stub and the upload service\<close>

locale stub_service = key_tools D C J files genuine signed faulty horizon + environment Env view other
  for D :: "'w disk" and C :: "('w, 'k) crypto" and J files genuine signed faulty horizon
    and Env :: "'w environment" and view and other :: "'w \<Rightarrow> 'o"
begin

text \<open>The upload service, configured with the stub's public key, and any later world.\<close>

lemma stub_token_accepted:
  assumes "validate_token_request r = Inr r'" and "signed t k (token_claims r' now expiry)" and "\<not> faulty"
    and "get_public_key_pem C m = Inr (jwt_public_key s)" and "km_public_key m = Some (c_public_key C k)"
    and "jwt_algorithm s = ''RS256''"
    and "length t \<le> MAX_TOKEN_SIZE" and "strip t \<noteq> []" and "horizon \<le> unix_seconds expiry"
  shows "token_decided J s r expiry t"
  unfolding token_decided_def
proof (rule allI)
  fix w
  obtain pem where "utf8_decode (c_public_bytes C (c_public_key C k)) = Some pem"
    "jwt_load_public_key J pem = Inr (c_public_key C k)" "strip pem \<noteq> []" using pem_text by blast
  then have v: "mk_JWTValidator J s = Inr \<lparr>jv_public_key = c_public_key C k, jv_algorithm = ''RS256''\<rparr>"
    using assms(4-6) by (simp add: get_public_key_pem_def get_public_key_def opt_raise_def mk_JWTValidator_def)
  have run: "get_current_user J s (Some (BEARER_PREFIX @ t)) = check_token J s t"
    using assms(7,8) by (simp add: get_current_user_def starts_with_def) (simp add: BEARER_PREFIX_def)
  note ok = token_claims_ok [OF assms(1), of now expiry]
  have decode: "wp (jwt_decode J t (c_public_key C k) [''RS256''] required_claims)
      (\<lambda>p _. p = token_claims r' now expiry) (\<lambda>_ _. False) w"
    by (rule wp_use [OF decodes [where k = k and c = "token_claims r' now expiry"]])
      (use assms(2,3,9) ok in \<open>auto dest: genuine_signed\<close>)
  show "wp (get_current_user J s (Some (BEARER_PREFIX @ t)))
      (\<lambda>c _. consistent r \<and> c = requested_claims r expiry) (\<lambda>e _. \<not> consistent r \<and> is_unauthorized e) w"
    unfolding run check_token_def v bnd_lift_Inr jwt_validate_def wp_catch wp_bnd RSAKeyManager.simps JWTValidator.simps
  proof (rule wp_use [OF decode], goal_cases)
    case (1 p w')
    then show ?case
      using token_claims_read [OF assms(1), of now expiry]
      by (cases "extract_claims (token_claims r' now expiry)")
        (auto simp: wp_lift wp_raise wp_if is_unauthorized_def split: exn.splits)
  qed simp
qed

text \<open>The endpoint, and what becomes of the token it answers.\<close>

lemma stub_token_decided:
  assumes "\<not> faulty" and "keys_ready C fs m k" and "get_public_key_pem C m = Inr (jwt_public_key s)"
    and "jwt_algorithm s = ''RS256''"
  shows "wp (generate_token_route C Env (Some m) r)
     (\<lambda>resp _. tr_token_type resp = ''Bearer'' \<and> (\<exists>now expiry. add_hours now 1 = Some expiry
        \<and> (length (tr_access_token resp) \<le> MAX_TOKEN_SIZE \<and> strip (tr_access_token resp) \<noteq> [] \<and> horizon \<le> unix_seconds expiry
             \<longrightarrow> token_decided J s r expiry (tr_access_token resp))))
     (\<lambda>e _. validate_token_request r = Inl e \<or> answers {500} e) w"
proof (cases "validate_token_request r")
  case (Inl e)
  then show ?thesis by (simp add: generate_token_route_def wp_raise del: raise_run)
next
  case (Inr r')
  have k: "km_private_key m = Some k" "km_public_key m = Some (c_public_key C k)" using assms(2) by (simp_all add: keys_ready_def)
  show ?thesis
    unfolding generate_token_route_def Inr bnd_lift_Inr generate_token_def option.case wp_catch wp_bnd
  proof (rule wp_use [OF performsD [OF now_utc]], goal_cases)
    case (1 now w1)
    show ?case
    proof (cases "add_hours now 1")
      case None
      then show ?thesis by (simp add: opt_raise_def wp_lift wp_if wp_raise answers_def)
    next
      case (Some expiry)
      show ?thesis
        unfolding Some
      proof (simp add: opt_raise_def wp_lift get_private_key_def k del: One_nat_def, rule wp_use [OF encodes], goal_cases)
        case 1
        show ?case by (rule token_claims_ok [OF Inr])
      next
        case (2 t w2)
        then show ?case
          using stub_token_accepted [OF Inr _ assms(1,3) k(2) assms(4)]
          by (simp add: wp_ret del: ret_run One_nat_def) (use Some in blast)
      next
        case (3 e w2)
        then show ?case using assms(1) by simp
      qed
    qed
  qed simp
qed

end

section \<open>Tools in memory\<close>

record stub_world = mem_world +
  sw_files :: "string \<Rightarrow> bytes option"

definition mem_disk :: "'z stub_world_scheme disk" where
  "mem_disk = \<lparr>d_mkdir = (\<lambda>p. ret ()), d_exists = (\<lambda>p w. (Inr (sw_files w p \<noteq> None), w)),
     d_unlink = (\<lambda>p w. if sw_files w p = None then (Inl (OtherException ''FileNotFoundError''), w)
       else (Inr (), w\<lparr>sw_files := (sw_files w)(p := None)\<rparr>)),
     d_read_bytes = (\<lambda>p w. (opt_raise (OtherException ''FileNotFoundError'') (sw_files w p), w)),
     d_write_bytes = (\<lambda>p b w. (Inr (), w\<lparr>sw_files := (sw_files w)(p \<mapsto> b)\<rparr>)),
     d_chmod = (\<lambda>p mode. ret ())\<rparr>"

text \<open>A key is a string, its own public key; the text form starts with \<open>K\<close>; a token is the JSON of key and claims.\<close>

definition mem_pem :: "string \<Rightarrow> bytes" where
  "mem_pem k = utf8_encode (CHR ''K'' # k)"

definition mem_load_text :: "string \<Rightarrow> exn + string" where
  "mem_load_text s = (case s of c # k \<Rightarrow> Inr k | [] \<Rightarrow> Inl (ValueError ''Could not deserialize key data''))"

definition mem_load_pem :: "bytes \<Rightarrow> exn + string loaded" where
  "mem_load_pem b = andThen (opt_raise UnicodeDecodeError (utf8_decode b)) (\<lambda>s. andThen (mem_load_text s) (\<lambda>k. Inr (RsaKey k)))"

definition mem_signed :: "string \<Rightarrow> string \<Rightarrow> payload \<Rightarrow> bool" where
  "mem_signed t k c = (json_loads t = Some (JArr [JStr k, JObj c]))"

definition mem_authentic :: "string \<Rightarrow> string \<Rightarrow> string list \<Rightarrow> payload \<Rightarrow> bool" where
  "mem_authentic t p algorithms c = (mem_signed t p c \<and> ''RS256'' \<in> set algorithms)"

definition mem_crypto :: "('z stub_world_scheme, string) crypto" where
  "mem_crypto = \<lparr>c_generate_private_key = (\<lambda>e n w. (Inr (str_nat (mw_now w)), w)), c_public_key = id,
     c_private_bytes = mem_pem, c_public_bytes = mem_pem, c_load_pem_private_key = mem_load_pem,
     c_load_pem_public_key = mem_load_pem, c_public_numbers = (\<lambda>p. (3233, 65537)),
     c_encode = (\<lambda>c k algorithm. ret (json_dumps (JArr [JStr k, JObj c])))\<rparr>"

definition mem_tokens_lib :: "'z stub_world_scheme jwt_lib" where
  "mem_tokens_lib = \<lparr>jwt_load_public_key = mem_load_text,
     jwt_decode = (\<lambda>t p algorithms require. lift (case json_loads t of
         Some (JArr [JStr k, JObj c]) \<Rightarrow>
           if k = p \<and> ''RS256'' \<in> set algorithms \<and> set require \<subseteq> fst ` set c then Inr c
           else Inl (JwtInvalidTokenError ''Signature verification failed'')
       | _ \<Rightarrow> Inl (JwtInvalidTokenError ''Invalid token'')))\<rparr>"

lemma mem_load_pem_round [simp]: "mem_load_pem (mem_pem k) = Inr (RsaKey k)"
  by (simp add: mem_load_pem_def mem_pem_def mem_load_text_def opt_raise_def del: utf8_encode_def)

lemma mem_load_pem_error: "mem_load_pem b = Inl e \<Longrightarrow> is_Exception e"
  by (auto simp: mem_load_pem_def mem_load_text_def opt_raise_def andThen_eq_Inl split: option.splits list.splits)

interpretation mem_stub: stub_service mem_disk mem_crypto mem_tokens_lib sw_files mem_authentic mem_signed False 0
  mem_environment "redis_view mw_now mem_live" mem_world.more
proof unfold_locales
  fix p
  show "\<exists>s. utf8_decode (c_public_bytes mem_crypto p) = Some s
      \<and> jwt_load_public_key mem_tokens_lib s = Inr p \<and> strip s \<noteq> []"
    by (rule exI [of _ "CHR ''K'' # p"])
      (simp add: mem_crypto_def mem_pem_def mem_tokens_lib_def mem_load_text_def strip_def lstrip_def rstrip_def is_space_def code_def
        del: utf8_encode_def)
next
  show "wp (jwt_decode mem_tokens_lib t p algorithms require)
      (\<lambda>c w'. sw_files w' = sw_files w \<and> mem_authentic t p algorithms c)
      (\<lambda>e w'. sw_files w' = sw_files w \<and> (is_Exception e \<or> False)
         \<and> (mem_signed t k c \<and> p = c_public_key mem_crypto k \<and> ''RS256'' \<in> set algorithms
            \<and> set require \<subseteq> fst ` set c \<and> (\<exists>x \<ge> 0. map_of c ''exp'' = Some (JInt x)) \<longrightarrow> False)) w"
    for t p algorithms require w k c
    by (auto simp: mem_tokens_lib_def wp_lift mem_authentic_def mem_signed_def mem_crypto_def
        split: option.splits json.splits list.splits)
qed (auto simp: mem_disk_def mem_crypto_def wp_def mem_signed_def mem_authentic_def opt_raise_def mem_load_pem_error
    split: option.splits simp del: json_dumps.simps)

section \<open>A sample\<close>

text \<open>A disk with a private key alone; a manager with the pair of the key \<open>7\<close>; the settings that trust it.\<close>

definition half_world :: "unit stub_world_scheme" where
  "half_world = \<lparr>mw_now = 5, mw_db = Map.empty, mw_faults = [],
     sw_files = [''/app/keys/private.pem'' \<mapsto> mem_pem ''7'']\<rparr>"

abbreviation stub_crypto :: "(unit stub_world_scheme, string) crypto" where
  "stub_crypto \<equiv> mem_crypto"

abbreviation stub_tokens :: "unit stub_world_scheme jwt_lib" where
  "stub_tokens \<equiv> mem_tokens_lib"

definition stub_manager :: "string RSAKeyManager" where
  "stub_manager = stub_files\<lparr>km_private_key := Some ''7'', km_public_key := Some ''7''\<rparr>"

definition stub_disk :: "string \<Rightarrow> bytes option" where
  "stub_disk = [''/app/keys/private.pem'' \<mapsto> mem_pem ''7'', ''/app/keys/public.pem'' \<mapsto> mem_pem ''7'']"

definition stub_settings :: AppSettings where
  "stub_settings = sample_settings\<lparr>jwt_public_key := ''K7'', jwt_algorithm := ''RS256''\<rparr>"

definition stub_token_request :: TokenRequest where
  "stub_token_request = \<lparr>tq_user_id = 7, tq_workspace_id = 1, tq_workspace_role = ''Collaborator'',
     tq_shared_file_ids = Some [3]\<rparr>"

lemma stub_ready: "keys_ready stub_crypto stub_disk stub_manager ''7''"
  by (simp add: keys_ready_def pair_stored_def stub_manager_def stub_disk_def mk_RSAKeyManager_def mem_crypto_def)

lemma stub_pem: "get_public_key_pem stub_crypto stub_manager = Inr (jwt_public_key stub_settings)"
  "jwt_algorithm stub_settings = ''RS256''"
  by (simp_all add: get_public_key_pem_def get_public_key_def stub_manager_def opt_raise_def mem_crypto_def mem_pem_def
      stub_settings_def del: utf8_encode_def)

end
