(* ===== verification/Interleaving.thy ===== *)
theory Interleaving
  imports Exceptions
begin

text \<open>
  Calls that overlap. Between two \<open>await\<close>s the program runs alone; at an \<open>await\<close> another task may go on.
  A \<open>thread\<close> is a call cut at these points: it has ended, or its next step runs on the world and leaves the
  rest of the call. \<open>run\<close> is the call when nothing comes in between, so that \<open>run t = m\<close> says that \<open>t\<close> is the
  method \<open>m\<close>; \<open>thread_step\<close> lets any of several threads take its next step, \<open>interleaved\<close> is its closure, and
  \<open>turns\<close> executes one order of the steps. \<open>and_then\<close> and \<open>await\<close> build threads as \<open>bnd\<close> builds methods
  (\<open>run_and_then\<close>).
\<close>

datatype ('w, 'a) thread = Done "exn + 'a" | Step "'w \<Rightarrow> ('w, 'a) thread \<times> 'w"

primrec run :: "('w, 'a) thread \<Rightarrow> ('w, 'a) io" where
  "run (Done r) = (\<lambda>w. (r, w))"
| "run (Step f) = (\<lambda>w. case (map_prod run id \<circ> f) w of (g, w') \<Rightarrow> g w')"

lemma run_Step: "run (Step f) w = run (fst (f w)) (snd (f w))"
  by (simp add: map_prod_def split: prod.split)

text \<open>One call to the outside, and what follows its result.\<close>

definition call :: "('w, 'b) io \<Rightarrow> (exn + 'b \<Rightarrow> ('w, 'a) thread) \<Rightarrow> ('w, 'a) thread" where
  "call m k = Step (\<lambda>w. case m w of (r, w') \<Rightarrow> (k r, w'))"

lemma run_call [simp]: "run (call m k) w = (case m w of (r, w') \<Rightarrow> run (k r) w')"
  by (simp add: call_def split: prod.splits)

inductive thread_step :: "'w \<times> ('w, 'a) thread list \<Rightarrow> 'w \<times> ('w, 'a) thread list \<Rightarrow> bool" where
  step: "i < length ts \<Longrightarrow> ts ! i = Step f \<Longrightarrow> f w = (t, w') \<Longrightarrow> thread_step (w, ts) (w', ts[i := t])"

inductive_cases thread_stepE: "thread_step (w, ts) s"
inductive_simps no_thread_step: "thread_step (w, []) s"

inductive interleaved :: "'w \<times> ('w, 'a) thread list \<Rightarrow> 'w \<times> ('w, 'a) thread list \<Rightarrow> bool" where
  start: "interleaved s s"
| more: "interleaved s s' \<Longrightarrow> thread_step s' s'' \<Longrightarrow> interleaved s s''"

text \<open>An order of the threads; a thread that has ended does nothing.\<close>

fun turn :: "nat \<Rightarrow> 'w \<times> ('w, 'a) thread list \<Rightarrow> 'w \<times> ('w, 'a) thread list" where
  "turn i (w, ts) =
     (if i < length ts
      then (case ts ! i of Done _ \<Rightarrow> (w, ts) | Step f \<Rightarrow> (case f w of (t, w') \<Rightarrow> (w', ts[i := t])))
      else (w, ts))"

primrec turns :: "nat list \<Rightarrow> 'w \<times> ('w, 'a) thread list \<Rightarrow> 'w \<times> ('w, 'a) thread list" where
  "turns [] s = s"
| "turns (i # js) s = turns js (turn i s)"

lemma interleaved_trans: "interleaved a b \<Longrightarrow> interleaved b c \<Longrightarrow> interleaved a c"
  by (rotate_tac, induction rule: interleaved.induct) (auto intro: interleaved.intros)

lemma turn_interleaved: "interleaved s (turn i s)"
  by (cases s) (auto split: thread.split prod.split
      intro: interleaved.start interleaved.more [OF interleaved.start thread_step.step])

lemma turns_interleaved: "interleaved s (turns js s)"
proof (induction js arbitrary: s)
  case (Cons i js)
  show ?case unfolding turns.simps by (rule interleaved_trans [OF turn_interleaved Cons.IH])
qed (simp add: interleaved.start)

text \<open>The sequence of threads, and the threads of the single calls.\<close>

definition await :: "('w, 'a) io \<Rightarrow> ('w, 'a) thread" where
  "await m = call m Done"

primrec and_then :: "('w, 'a) thread \<Rightarrow> ('a \<Rightarrow> ('w, 'b) thread) \<Rightarrow> ('w, 'b) thread" where
  "and_then (Done r) k = (case r of Inl e \<Rightarrow> Done (Inl e) | Inr x \<Rightarrow> k x)"
| "and_then (Step f) k = Step (map_prod (\<lambda>t. and_then t k) id \<circ> f)"

lemma and_then_call: "and_then (call m g) k = call m (\<lambda>r. and_then (g r) k)"
  by (simp add: call_def fun_eq_iff split: prod.splits)

lemma run_await [simp]: "run (await m) = m"
  by (simp add: await_def fun_eq_iff split: prod.splits)

lemma run_and_then: "run (and_then t k) = bnd (run t) (\<lambda>x. run (k x))"
proof (induction t)
  case (Done r)
  then show ?case by (cases r) (simp_all add: bnd_def)
next
  case (Step f)
  have "run (and_then (fst (f w)) k) = bnd (run (fst (f w))) (\<lambda>x. run (k x))" for w
    by (rule Step.IH [of "f w" "fst (f w)"]) (simp_all add: prod_set_defs)
  then show ?case
    by (simp add: bnd_def fun_eq_iff run_Step and_then.simps del: run.simps)
qed

text \<open>Every step of the thread moves the world along the relation \<open>Q\<close>.\<close>

inductive moves :: "('w \<Rightarrow> 'w \<Rightarrow> bool) \<Rightarrow> ('w, 'a) thread \<Rightarrow> bool" for Q where
  ended: "moves Q (Done r)"
| stepped: "(\<And>w t w'. f w = (t, w') \<Longrightarrow> Q w w' \<and> moves Q t) \<Longrightarrow> moves Q (Step f)"

inductive_simps moves_simps [simp]: "moves Q (Done r)" "moves Q (Step f)"

lemma moves_call: "moves Q (call m k) \<longleftrightarrow> (\<forall>w r w'. m w = (r, w') \<longrightarrow> Q w w' \<and> moves Q (k r))"
  by (simp add: call_def split: prod.split)

lemma moves_and_then:
  assumes "moves Q t" and k: "\<And>x. moves Q (k x)"
  shows "moves Q (and_then t k)"
  using assms(1)
proof (induction rule: moves.induct)
  case (ended r)
  show ?case using k by (simp split: sum.split)
next
  case (stepped f)
  show ?case
    unfolding and_then.simps
  proof (rule moves.stepped)
    fix w t w'
    assume "(map_prod (\<lambda>t. and_then t k) id \<circ> f) w = (t, w')"
    then obtain u where "f w = (u, w')" "t = and_then u k" by (cases "f w") auto
    then show "Q w w' \<and> moves Q t" using stepped by blast
  qed
qed

lemma moves_turn:
  assumes Q: "reflp Q" and ts: "list_all (moves Q) ts" and t: "turn i (w, ts) = (w', ts')"
  shows "Q w w' \<and> list_all (moves Q) ts'"
proof (cases "\<exists>f. i < length ts \<and> ts ! i = Step f")
  case True
  then obtain f u v where f: "i < length ts" "ts ! i = Step f" "f w = (u, v)" by fastforce
  then have "moves Q (Step f)" using ts by (metis list_all_length)
  then have "Q w v \<and> moves Q u" using f(3) by simp
  moreover have "w' = v" "ts' = ts[i := u]" using t f by simp_all
  ultimately show ?thesis using ts set_update_subset_insert [of ts i u] by (auto simp: list_all_iff)
next
  case False
  then show ?thesis using ts t reflpD [OF Q] by (auto split: if_splits thread.splits)
qed

lemma moves_turns: "reflp Q \<Longrightarrow> list_all (moves Q) ts \<Longrightarrow> (Q ^^ length js) w (fst (turns js (w, ts)))"
proof (induction js arbitrary: w ts)
  case (Cons i js)
  obtain w1 ts1 where "turn i (w, ts) = (w1, ts1)" by (cases "turn i (w, ts)")
  with moves_turn [OF Cons.prems this] Cons.IH [of ts1 w1] Cons.prems(1) show ?case
    by (auto simp del: turn.simps relpowp.simps intro: relpowp_Suc_I2)
qed simp

text \<open>The turn of a thread that waits for a call.\<close>

lemma turn_await:
  "i < length ts \<Longrightarrow> ts ! i = and_then (await m) k \<Longrightarrow> m w = (r, w') \<Longrightarrow>
    turn i (w, ts) = (w', ts[i := and_then (Done r) k])"
  by (simp add: await_def and_then_call) (simp add: call_def)

lemma turn0_await: "m w = (r, w') \<Longrightarrow> turn 0 (w, [and_then (await m) k, u]) = (w', [and_then (Done r) k, u])"
  and turn1_await: "m w = (r, w') \<Longrightarrow> turn 1 (w, [u, and_then (await m) k]) = (w', [u, and_then (Done r) k])"
  using turn_await [of 0 "[and_then (await m) k, u]" m k] turn_await [of 1 "[u, and_then (await m) k]" m k] by simp_all

lemma moves_await: "moves Q (and_then (await m) k) \<longleftrightarrow> (\<forall>w r w'. m w = (r, w') \<longrightarrow> Q w w' \<and> moves Q (and_then (Done r) k))"
  unfolding await_def and_then_call moves_call by simp

text \<open>Such a turn, where no step turns the clock \<open>now\<close> back.\<close>

lemma later_turns:
  assumes "list_all (moves (\<lambda>w w'. now w \<le> (now w' :: nat))) ts"
  shows "now w \<le> now (fst (turns js (w, ts)))"
proof -
  have "now v \<le> now v'" if "((\<lambda>w w'. now w \<le> now w') ^^ n) v v'" for n v v'
    using that by (induction n arbitrary: v') fastforce+
  moreover have "reflp (\<lambda>w w'. now w \<le> now w')" by (simp add: reflp_def)
  ultimately show ?thesis using moves_turns [OF _ assms] by blast
qed

lemma turn_later:
  assumes ts: "list_all (moves (\<lambda>w w'. now w \<le> (now w' :: nat))) ts" and i: "i < length ts" "ts ! i = and_then (await m) k"
    and m: "m w = (r, w1)" and run: "turns (i # js) (w, ts) = (w', ts')"
  shows "now w1 \<le> now w'" and "list_all (moves (\<lambda>w w'. now w \<le> (now w' :: nat))) (ts[i := and_then (Done r) k])"
    and "turns js (w1, ts[i := and_then (Done r) k]) = (w', ts')"
proof -
  note t = turn_await [OF i m]
  show l: "list_all (moves (\<lambda>w w'. now w \<le> now w')) (ts[i := and_then (Done r) k])"
    using moves_turn [OF _ ts t] by (simp add: reflp_def)
  show js: "turns js (w1, ts[i := and_then (Done r) k]) = (w', ts')" using run by (simp only: turns.simps t)
  show "now w1 \<le> now w'" using later_turns [OF l, of w1 js] unfolding js by simp
qed

lemma turn0_later:
  assumes "m w = (r, w1)" and "turns (0 # js) (w, [and_then (await m) k, u]) = (w', ts')"
    and "list_all (moves (\<lambda>w w'. now w \<le> (now w' :: nat))) [and_then (await m) k, u]"
  shows "now w1 \<le> now w' \<and> list_all (moves (\<lambda>w w'. now w \<le> (now w' :: nat))) [and_then (Done r) k, u]
    \<and> turns js (w1, [and_then (Done r) k, u]) = (w', ts')"
  using turn_later [OF assms(3), of 0 m k w r w1 js w' ts'] assms(1,2)
  by (simp del: turns.simps and_then.simps)

lemma turn1_later:
  assumes "m w = (r, w1)" and "turns (1 # js) (w, [u, and_then (await m) k]) = (w', ts')"
    and "list_all (moves (\<lambda>w w'. now w \<le> (now w' :: nat))) [u, and_then (await m) k]"
  shows "now w1 \<le> now w' \<and> list_all (moves (\<lambda>w w'. now w \<le> (now w' :: nat))) [u, and_then (Done r) k]
    \<and> turns js (w1, [u, and_then (Done r) k]) = (w', ts')"
  using turn_later [OF assms(3), of 1 m k w r w1 js w' ts'] assms(1,2)
  by (simp del: turns.simps and_then.simps)

text \<open>A single thread is not disturbed.\<close>

lemma alone: "interleaved (w, [t]) (w', [Done r]) \<Longrightarrow> run t w = (r, w')"
proof -
  have "\<exists>t'. snd s' = [t'] \<and> run t' (fst s') = run t w" if "interleaved s s'" "s = (w, [t])" for s s'
    using that
  proof (induction rule: interleaved.induct)
    case (more s s1 s2)
    then obtain t1 where "snd s1 = [t1]" "run t1 (fst s1) = run t w" by blast
    with more.hyps(2) show ?case by (cases s1) (auto elim!: thread_stepE)
  qed simp
  then show "interleaved (w, [t]) (w', [Done r]) \<Longrightarrow> run t w = (r, w')" by fastforce
qed

text \<open>Counting the threads in some phase.\<close>

lemma length_filter_update:
  "i < length xs \<Longrightarrow> int (length (filter P (xs[i := x])))
     = int (length (filter P xs)) - (if P (xs ! i) then 1 else 0) + (if P x then 1 else 0)"
proof (induction xs arbitrary: i)
  case (Cons a xs)
  show ?case
  proof (cases i)
    case (Suc j)
    then show ?thesis using Cons.IH [of j] Cons.prems by (cases "P (xs ! j)"; cases "P x"; simp)
  qed simp
qed simp

end
