(* ===== verification/Rate_Race.thy ===== *)
theory Rate_Race
  imports Interleaving Rate_Limiter System_State
begin

text \<open>
  \<open>RedisRateLimiter.check_and_increment\<close> when several calls overlap. It awaits twice, the \<open>HGET\<close> and the
  \<open>HINCRBY\<close>; \<open>check_thread\<close> is the method cut there (\<open>run_check_thread\<close>). The code documents that
  overlapping calls may pass the limit; \<open>race_bound\<close> says by how much, on every server with the documented
  behaviour and for every order of the steps, and that no call that was admitted is lost.
\<close>

definition limiter_error :: "exn \<Rightarrow> exn" where
  "limiter_error e =
     (if is_RateLimitExceededError e then e
      else if is_RedisError e then InfrastructureError (''Rate limiter unavailable: '' @ exn_str e)
      else if is_ValueError e then InfrastructureError (''Rate limiter counter corrupted: '' @ exn_str e)
      else e)"

definition increment_thread :: "'w redis_client \<Rightarrow> string \<Rightarrow> ('w, unit) thread" where
  "increment_thread R key = call (r_hincrby R key rate_limit_field 1) (\<lambda>r. case r of
     Inl e \<Rightarrow> Done (Inl (limiter_error e))
   | Inr new_count \<Rightarrow> Done (Inr ()))"

definition check_thread :: "'w redis_client \<Rightarrow> int \<Rightarrow> uuid \<Rightarrow> ('w, unit) thread" where
  "check_thread R max_concurrent ws = (case rate_limit_key ws of
     Inl e \<Rightarrow> Done (Inl e)
   | Inr key \<Rightarrow> call (r_hget R key rate_limit_field) (\<lambda>r.
       case andThen r read_count of
         Inl e \<Rightarrow> Done (Inl (limiter_error e))
       | Inr current \<Rightarrow>
           if current \<ge> max_concurrent
           then Done (Inl (limiter_error (new_RateLimitExceededError (uuid_str ws) current max_concurrent 60)))
           else increment_thread R key))"

lemma raise_limiter_error:
  "(\<lambda>e. if is_RateLimitExceededError e then raise e
        else if is_RedisError e then raise (InfrastructureError (''Rate limiter unavailable: '' @ exn_str e))
        else if is_ValueError e then raise (InfrastructureError (''Rate limiter counter corrupted: '' @ exn_str e))
        else raise e) = (\<lambda>e. raise (limiter_error e))"
  by (simp add: fun_eq_iff limiter_error_def)

text \<open>Uninterrupted, the thread is the method.\<close>

lemma run_check_thread: "run (check_thread R limit ws) = rrl_check_and_increment R limit ws"
proof (cases "rate_limit_key ws")
  case (Inl e)
  then show ?thesis by (simp add: check_thread_def rrl_check_and_increment_def raise_def)
next
  case (Inr key)
  have incr: "run (increment_thread R key) w = catch (bnd (r_hincrby R key rate_limit_field 1) (\<lambda>_. ret ()))
      (\<lambda>e. raise (limiter_error e)) w" for w
    by (cases "r_hincrby R key rate_limit_field 1 w"; cases "fst (r_hincrby R key rate_limit_field 1 w)")
      (simp_all add: increment_thread_def bnd_def catch_def)
  have "run (check_thread R limit ws) w = rrl_check_and_increment R limit ws w" for w
  proof (cases "r_hget R key rate_limit_field w")
    case (Pair r w')
    have wrap: "rrl_check_and_increment R limit ws w = catch (bnd (r_hget R key rate_limit_field) (\<lambda>current_bytes.
        bnd (lift (read_count current_bytes)) (\<lambda>current.
        if current \<ge> limit then raise (new_RateLimitExceededError (uuid_str ws) current limit 60)
        else bnd (r_hincrby R key rate_limit_field 1) (\<lambda>_. ret ())))) (\<lambda>e. raise (limiter_error e)) w"
      by (simp add: rrl_check_and_increment_def Inr raise_limiter_error)
    show ?thesis
    proof (cases "andThen r read_count")
      case e: (Inl e)
      then show ?thesis
        by (cases r) (simp_all add: wrap check_thread_def Inr Pair bnd_def catch_def)
    next
      case c: (Inr c)
      then obtain x where "r = Inr x" "read_count x = Inr c" by auto
      then show ?thesis
        by (simp add: wrap check_thread_def Inr Pair incr) (simp add: bnd_def catch_def Pair)
    qed
  qed
  then show ?thesis by (rule ext)
qed

section \<open>The phases of a call\<close>

datatype phase = Starting | Admitted | Ended "exn + unit"

fun thread_of :: "'w redis_client \<Rightarrow> int \<Rightarrow> uuid \<Rightarrow> phase \<Rightarrow> ('w, unit) thread" where
  "thread_of R limit ws Starting = check_thread R limit ws"
| "thread_of R limit ws Admitted = increment_thread R (rate_limit_key_text ws)"
| "thread_of R limit ws (Ended r) = Done r"

fun returned :: "('w, 'a) thread \<Rightarrow> bool" where
  "returned (Done (Inr _)) = True"
| "returned _ = False"

lemma returned_thread_of: "ws \<noteq> 0 \<Longrightarrow> returned (thread_of R limit ws p) \<longleftrightarrow> p = Ended (Inr ())"
  by (cases p; simp add: check_thread_def increment_thread_def call_def)
    (metis (full_types) old.unit.exhaust returned.simps sum.exhaust)

text \<open>One step of one call, on a workspace with \<open>n\<close> uploads.\<close>

inductive phase_step :: "int \<Rightarrow> int \<Rightarrow> phase \<Rightarrow> phase \<Rightarrow> int \<Rightarrow> bool" for limit n where
  refuse: "phase_step limit n Starting (Ended (Inl e)) n"
| admit: "n < limit \<Longrightarrow> phase_step limit n Starting Admitted n"
| count: "phase_step limit n Admitted (Ended (Inr ())) (n + 1)"
| fail: "n' \<in> {n, n + 1} \<Longrightarrow> phase_step limit n Admitted (Ended (Inl e)) n'"

context redis_server
begin

definition race_inv :: "int \<Rightarrow> uuid \<Rightarrow> int \<Rightarrow> nat \<Rightarrow> 'w \<times> ('w, unit) thread list \<Rightarrow> bool" where
  "race_inv limit ws n0 m s = (\<exists>ps n. snd s = map (thread_of R limit ws) ps \<and> length ps = m
     \<and> store_ok (redis_view now db (fst s)) \<and> count_in (redis_view now db (fst s)) ws = Some n
     \<and> n0 + int (length (filter (\<lambda>p. p = Ended (Inr ())) ps)) \<le> n
     \<and> (n \<le> n0 \<and> length (filter (\<lambda>p. p = Admitted) ps) = 0
        \<or> n + int (length (filter (\<lambda>p. p = Admitted) ps)) \<le> limit - 1 + int m))"

lemma starting_step:
  assumes ws: "ws \<noteq> 0" and ok: "store_ok (redis_view now db w)" and n: "count_in (redis_view now db w) ws = Some n"
    and f: "check_thread R limit ws = Step f" and run: "f w = (t, w')"
  shows "\<exists>p' n'. t = thread_of R limit ws p' \<and> store_ok (redis_view now db w')
    \<and> count_in (redis_view now db w') ws = Some n' \<and> phase_step limit n Starting p' n'"
proof -
  obtain r w1 where r: "r_hget R (rate_limit_key_text ws) rate_limit_field w = (r, w1)" by force
  have t: "w' = w1" "t = (case andThen r read_count of
         Inl e \<Rightarrow> Done (Inl (limiter_error e))
       | Inr current \<Rightarrow>
           if current \<ge> limit
           then Done (Inl (limiter_error (new_RateLimitExceededError (uuid_str ws) current limit 60)))
           else increment_thread R (rate_limit_key_text ws))"
    using f run r by (auto simp: check_thread_def call_def rate_limit_key_Inr [OF ws])
  have p: "passes (redis_view now db w) (redis_view now db w')"
    using wp_InrD [OF hget_count_wp] wp_InlD [OF hget_count_wp] r by (cases r) (fastforce simp: t(1))+
  have ok': "store_ok (redis_view now db w')" "count_in (redis_view now db w') ws = Some n"
    using store_ok_passes [OF ok p] counters_ok_passes(3) [OF _ p] ok n by (simp_all add: store_ok_def)
  show ?thesis
  proof (cases "andThen r read_count")
    case (Inl e)
    then have "t = thread_of R limit ws (Ended (Inl (limiter_error e)))" by (simp add: t(2))
    then show ?thesis using ok' phase_step.refuse by blast
  next
    case (Inr c)
    then obtain x where x: "r = Inr x" "read_count x = Inr c" by auto
    then have "c = n" using wp_InrD [OF hget_count_wp, of ws w x w1] r ok'(2) by (simp add: t(1))
    show ?thesis
    proof (cases "limit \<le> c")
      case True
      then have "t = thread_of R limit ws (Ended (Inl (limiter_error (new_RateLimitExceededError (uuid_str ws) c limit 60))))"
        by (simp add: t(2) Inr)
      then show ?thesis using ok' phase_step.refuse by blast
    next
      case False
      then have "t = thread_of R limit ws Admitted" "n < limit" using \<open>c = n\<close> by (simp_all add: t(2) Inr)
      then show ?thesis using ok' phase_step.admit by blast
    qed
  qed
qed

lemma admitted_step:
  assumes ws: "ws \<noteq> 0" and ok: "store_ok (redis_view now db w)" and n: "count_in (redis_view now db w) ws = Some n"
    and f: "increment_thread R (rate_limit_key_text ws) = Step f" and run: "f w = (t, w')"
  shows "\<exists>p' n'. t = thread_of R limit ws p' \<and> store_ok (redis_view now db w')
    \<and> count_in (redis_view now db w') ws = Some n' \<and> phase_step limit n Admitted p' n'"
proof -
  obtain r w1 where r: "r_hincrby R (rate_limit_key_text ws) rate_limit_field 1 w = (r, w1)" by force
  have t: "w' = w1" "t = (case r of Inl e \<Rightarrow> Done (Inl (limiter_error e)) | Inr _ \<Rightarrow> Done (Inr ()))"
    using f run r by (auto simp: increment_thread_def call_def)
  have kept: "store_ok st1 \<and> count_in st1 ws = Some n" if "passes (redis_view now db w) st1" for st1
    using store_ok_passes [OF ok that] counters_ok_passes(3) [OF _ that] ok n by (simp add: store_ok_def)
  show ?thesis
  proof (cases r)
    case (Inl e)
    then obtain st1 where st1: "passes (redis_view now db w) st1" "redis_view now db w' = st1
        \<or> (\<exists>n. count_in st1 ws = Some n \<and> redis_view now db w' = put_count ws (n + 1) st1)"
      using wp_InlD [OF hincrby_wp] r unfolding t(1) by blast
    have "store_ok (redis_view now db w')" "\<exists>n' \<in> {n, n + 1}. count_in (redis_view now db w') ws = Some n'"
      using st1(2) kept [OF st1(1)] store_ok_put_count [of st1] by (auto simp: put_count_def count_in_def)
    moreover have "t = thread_of R limit ws (Ended (Inl (limiter_error e)))" by (simp add: t(2) Inl)
    ultimately show ?thesis using phase_step.fail by blast
  next
    case (Inr x)
    then obtain st1 where st1: "passes (redis_view now db w) st1" "redis_view now db w' = put_count ws (n + 1) st1"
      using wp_InrD [OF hincrby_wp] r kept unfolding t(1) by fastforce
    have "store_ok (redis_view now db w')" "count_in (redis_view now db w') ws = Some (n + 1)"
      using st1(2) kept [OF st1(1)] store_ok_put_count [of st1] by (simp_all add: put_count_def count_in_def)
    moreover have "t = thread_of R limit ws (Ended (Inr ()))" by (simp add: t(2) Inr)
    ultimately show ?thesis using phase_step.count by blast
  qed
qed

lemma phase_step:
  assumes ws: "ws \<noteq> 0" and ok: "store_ok (redis_view now db w)" and n: "count_in (redis_view now db w) ws = Some n"
    and f: "thread_of R limit ws p = Step f" and run: "f w = (t, w')"
  shows "\<exists>p' n'. t = thread_of R limit ws p' \<and> store_ok (redis_view now db w')
    \<and> count_in (redis_view now db w') ws = Some n' \<and> phase_step limit n p p' n'"
  using starting_step [OF ws ok n, of limit f t w'] admitted_step [OF ws ok n, of f t w' limit] f run by (cases p) simp_all

lemma race_inv_step:
  assumes ws: "ws \<noteq> 0" and inv: "race_inv limit ws n0 m s" and step: "thread_step s s'"
  shows "race_inv limit ws n0 m s'"
proof -
  obtain w ts where s: "s = (w, ts)" by fastforce
  from step obtain i f t w' where i: "i < length ts" "ts ! i = Step f" "f w = (t, w')" "s' = (w', ts[i := t])"
    unfolding s by (auto elim: thread_stepE)
  let ?in = "\<lambda>p. p = Ended (Inr ())" and ?ad = "\<lambda>p. p = Admitted"
  from inv obtain ps n where ps: "ts = map (thread_of R limit ws) ps" "length ps = m" "store_ok (redis_view now db w)"
    "count_in (redis_view now db w) ws = Some n" "n0 + int (length (filter ?in ps)) \<le> n"
    "n \<le> n0 \<and> length (filter ?ad ps) = 0 \<or> n + int (length (filter ?ad ps)) \<le> limit - 1 + int m"
    by (auto simp: s race_inv_def)
  have "thread_of R limit ws (ps ! i) = Step f" using i(1,2) ps(1) by simp
  from phase_step [OF ws ps(3,4) this i(3)] obtain p' n' where p': "t = thread_of R limit ws p'"
    "store_ok (redis_view now db w')" "count_in (redis_view now db w') ws = Some n'" "phase_step limit n (ps ! i) p' n'"
    by blast
  have l: "i < length ps" using i(1) ps(1) by simp
  note up = length_filter_update [OF l, of _ p']
  have le: "length (filter ?ad (ps[i := p'])) \<le> m" using length_filter_le [of ?ad "ps[i := p']"] ps(2) by simp
  have "n0 + int (length (filter ?in (ps[i := p']))) \<le> n'
      \<and> (n' \<le> n0 \<and> length (filter ?ad (ps[i := p'])) = 0 \<or> n' + int (length (filter ?ad (ps[i := p']))) \<le> limit - 1 + int m)"
    using p'(4) ps(5,6) le up [of ?in] up [of ?ad] by cases auto
  then show ?thesis
    using ps(1,2) p'(1-3) i(4) by (auto simp: race_inv_def map_update intro!: exI [of _ "ps[i := p']"])
qed

lemma race_bound:
  assumes ws: "ws \<noteq> 0" and ok: "store_ok (redis_view now db w)" and n0: "count_in (redis_view now db w) ws = Some n0"
    and run: "interleaved (w, replicate m (check_thread R limit ws)) (w', ts)"
  shows "\<exists>n. count_in (redis_view now db w') ws = Some n \<and> n0 + int (length (filter returned ts)) \<le> n
    \<and> n \<le> max n0 (limit - 1 + int m)"
proof -
  have "race_inv limit ws n0 m s'" if "interleaved s s'" "race_inv limit ws n0 m s" for s s'
    using that by (induction rule: interleaved.induct) (auto intro: race_inv_step [OF ws])
  moreover have "race_inv limit ws n0 m (w, replicate m (check_thread R limit ws))"
    using ok n0 by (auto simp: race_inv_def intro!: exI [of _ "replicate m Starting"])
  ultimately have "race_inv limit ws n0 m (w', ts)" using run by blast
  then obtain ps n where ps: "ts = map (thread_of R limit ws) ps" "count_in (redis_view now db w') ws = Some n"
    "n0 + int (length (filter (\<lambda>p. p = Ended (Inr ())) ps)) \<le> n"
    "n \<le> n0 \<or> n + int (length (filter (\<lambda>p. p = Admitted) ps)) \<le> limit - 1 + int m"
    by (auto simp: race_inv_def)
  have "length (filter returned ts) = length (filter (\<lambda>p. p = Ended (Inr ())) ps)"
    by (simp add: ps(1) filter_map comp_def returned_thread_of [OF ws])
  with ps show ?thesis by auto
qed

end

section \<open>The bound is reached\<close>

text \<open>Two calls on an empty database with limit 1: both read 0, both are admitted, and the counter is 2.\<close>

definition race_world :: "unit mem_world_scheme" where
  "race_world = \<lparr>mw_now = 0, mw_db = Map.empty, mw_faults = []\<rparr>"

abbreviation race_threads :: "(unit mem_world_scheme, unit) thread list" where
  "race_threads \<equiv> replicate 2 (check_thread mem_redis 1 1)"

lemma race_world_ok:
  "store_ok (redis_view mw_now mem_live race_world)" "count_in (redis_view mw_now mem_live race_world) 1 = Some 0"
  by (simp_all add: race_world_def redis_view_def mem_live_def purge_def store_ok_def counters_ok_def sessions_ok_def
      store_of_def timed_at_def count_in_def)

lemma race_overshoots:
  "\<exists>w'. turns [0, 1, 0, 1] (race_world, race_threads) = (w', [Done (Inr ()), Done (Inr ())])
     \<and> count_in (redis_view mw_now mem_live w') 1 = Some 2"
  by (simp add: numeral_2_eq_2 check_thread_def increment_thread_def call_def mem_redis_def run_cmd_def Let_def race_world_def
      cmd_hget_def hash_at_def read_count_def cmd_hincrby_def counter_of_def put_hash_def purge_upd
      redis_view_def count_in_store_of mem_live_def)

end
