(* ===== verification/Upload_Progress.thy ===== *)
theory Upload_Progress
  imports Complete_Upload Sample_World
begin

text \<open>
  What the contracts of the use cases leave open: a call may always raise an
  \<open>InfrastructureError\<close>, so that a program that never stores anything would keep them too. The locale
  \<open>calm_service\<close> adds that, as long as the connection is \<open>calm\<close>, a command raises only if the server
  answers with an error reply. Then an upload gets through: \<open>upload_progress\<close> says that the
  \<open>chunk_requests\<close> of a client that sends the rest of its file piece by piece are all accepted,
  unless the time of the session is over.
\<close>

section \<open>A connection that does not fail\<close>

definition answers_cmd :: "('w \<Rightarrow> bool) \<Rightarrow> ('w \<Rightarrow> nat) \<Rightarrow> ('w \<Rightarrow> redis_db) \<Rightarrow> 'r cmd \<Rightarrow> ('w, 'a) io \<Rightarrow> bool" where
  "answers_cmd calm now db c m = (\<forall>w. calm w \<longrightarrow> wp m (\<lambda>_ w'. calm w')
     (\<lambda>_ w'. calm w' \<and> fst (c (now w') (purge (now w') (db w))) = None) w)"

locale calm_service = upload_service R now db rest Env limit
  for R :: "'w redis_client" and now :: "'w \<Rightarrow> nat" and db :: "'w \<Rightarrow> redis_db" and rest :: "'w \<Rightarrow> 'o"
    and Env :: "'w environment" and limit :: int +
  fixes calm :: "'w \<Rightarrow> bool"
  assumes calm_hgetall: "answers_cmd calm now db (cmd_hgetall k) (r_hgetall R k)"
    and calm_ttl: "answers_cmd calm now db (cmd_ttl k) (r_ttl R k)"
    and calm_hset: "answers_cmd calm now db (cmd_hset k fs) (r_hset R k fs)"
    and calm_setex: "answers_cmd calm now db (cmd_set k b n) (r_set R k b n)"

text \<open>The server in memory, when no fault is to come.\<close>

lemma run_cmd_calm: "answers_cmd (\<lambda>w. mw_faults w = []) mw_now mem_live c (run_cmd enc c)"
  by (auto simp: answers_cmd_def wp_def run_cmd_def Let_def mem_live_def split: option.splits prod.splits)

interpretation mem_calm: calm_service mem_redis mw_now mem_live mem_world.more mem_environment 10
  "\<lambda>w. mw_faults w = []"
  by unfold_locales (simp_all add: mem_redis_def run_cmd_calm)

section \<open>The pieces of a file\<close>

definition sendable :: "bytes \<Rightarrow> bool" where
  "sendable d = (d \<noteq> [] \<and> int (length d) \<le> MAX_CHUNK_BYTES)"

primrec chunk_requests :: "uuid \<Rightarrow> uuid \<Rightarrow> int \<Rightarrow> bytes list \<Rightarrow> ProcessChunkRequest list" where
  "chunk_requests ws sid off [] = []"
| "chunk_requests ws sid off (d # ds) =
     \<lparr>pcr_workspace_id = ws, pcr_session_id = sid, pcr_chunk_data = d, pcr_chunk_offset = off,
        pcr_chunk_checksum = sha256_hex d\<rparr> # chunk_requests ws sid (off + int (length d)) ds"

lemma chunk_requests_ids: "r \<in> set (chunk_requests ws sid off ds) \<Longrightarrow> pcr_workspace_id r = ws \<and> pcr_session_id r = sid"
  by (induction ds arbitrary: off) auto

section \<open>One chunk\<close>

text \<open>The key of the session holds a hash, or nothing.\<close>

definition readable :: "redis_db \<Rightarrow> string \<Rightarrow> bool" where
  "readable d k = (hash_at d k \<noteq> None)"

lemma readable_purge: "readable d k \<Longrightarrow> readable (purge t d) k"
  by (auto simp: readable_def hash_at_def purge_def split: option.splits rvalue.splits)

lemma readable_upd: "k \<noteq> k' \<Longrightarrow> readable (d(k' := v)) k = readable d k"
  by (simp add: readable_def hash_at_def)

lemma readable_put_hash: "readable (put_hash d k h) k"
  by (simp add: readable_def hash_at_def put_hash_def)

lemma readable_session:
  assumes "st_sessions (redis_view now db w) ws sid = Some (Some s, e)"
  shows "readable (db w) (session_key_text ws sid)"
  using assms by (auto simp: redis_view_def store_of_def timed_at_def timed_val_def session_value_def readable_def
      hash_at_def split: option.splits rvalue.splits)

text \<open>A command that is answered whenever the key is readable is never refused.\<close>

lemma answers_cmdD:
  assumes "answers_cmd calm now db c m" and "calm w"
    and "\<And>t. fst (c t (purge t (db w))) \<noteq> None"
  shows "wp m (\<lambda>_ w'. calm w') (\<lambda>_ _. False) w"
proof -
  have "wp m (\<lambda>_ w'. calm w') (\<lambda>_ w'. calm w' \<and> fst (c (now w') (purge (now w') (db w))) = None) w"
    using assms(1,2) by (simp add: answers_cmd_def)
  then show ?thesis by (rule wp_use) (use assms(3) in auto)
qed

text \<open>The session \<open>s\<close> with this data appended, and the status \<open>x\<close>.\<close>

definition sent_all :: "uuid \<Rightarrow> uuid \<Rightarrow> UploadSession \<Rightarrow> SessionStatus \<Rightarrow> bytes \<Rightarrow> store \<Rightarrow> bool" where
  "sent_all ws sid s x data st = (\<exists>s'. session_in st ws sid = Some s' \<and> status s' = x
     \<and> offset s' = offset s + int (length data) \<and> file_size s' = file_size s)"

context calm_service
begin

abbreviation (input) calm_at :: "uuid \<Rightarrow> uuid \<Rightarrow> 'w \<Rightarrow> bool" where
  "calm_at ws sid w \<equiv> calm w \<and> readable (db w) (session_key_text ws sid)"

lemma get_answers:
  assumes ids: "ws \<noteq> 0" "sid \<noteq> 0" and c: "calm_at ws sid w" and ok: "store_ok (redis_view now db w)"
  shows "wp (rss_get_session R ws sid)
     (\<lambda>r w'. calm_at ws sid w' \<and> passes (redis_view now db w) (redis_view now db w')
        \<and> r = session_in (redis_view now db w') ws sid) (\<lambda>_ _. False) w"
proof -
  let ?k = "session_key_text ws sid"
  have "fst (cmd_hgetall ?k t (purge t (db w))) \<noteq> None" for t
    using readable_purge [of "db w" ?k] c by (simp add: cmd_hgetall_def readable_def)
  note run = wp_conj [OF answers_cmdD [OF calm_hgetall conjunct1 [OF c] this]
      wp_conj [OF obeysD [OF hgetall] obeys_read [OF hgetall read_commands(1)]]]
  show ?thesis
    unfolding rss_get_session_def session_key_Inr [OF ids] bnd_lift_Inr wp_catch wp_raise wp_bnd
  proof (rule wp_use [OF run], goal_cases)
    case (1 raw w')
    then obtain h where h: "fst (cmd_hgetall ?k (now w') (db w')) = Some h" "rep_hash h raw" by blast
    have "readable (db w') ?k"
      using h(1) by (simp add: cmd_hgetall_def readable_def)
    moreover have "\<nexists>x. st_sessions (redis_view now db w') ws sid = Some (None, x)"
      using store_ok_passes [OF ok, of "redis_view now db w'"] 1 unfolding store_ok_def sessions_ok_def by blast
    ultimately show ?case
      using hgetall_session [OF h] 1 by (auto simp: wp_rules redis_view_def split: sum.splits if_splits)
  qed simp
qed

lemma set_chunk_answers:
  assumes c: "calm_at ws sid w"
  shows "wp (store_chunk R ws' sid' i b) (\<lambda>_ w'. calm_at ws sid w') (\<lambda>_ _. False) w"
proof -
  have "fst (cmd_set (chunk_key ws' sid' (str_int i)) b chunk_ttl_seconds t d) \<noteq> None" for t d
    by (simp add: cmd_set_def chunk_ttl_seconds_def)
  note run = wp_conj [OF answers_cmdD [OF calm_setex conjunct1 [OF c] this] obeysD [OF setex]]
  show ?thesis
    unfolding store_chunk_def wp_catch
  proof (rule wp_use [OF run], goal_cases)
    case (1 u w')
    then have "db w' = (purge (now w') (db w))(chunk_key ws' sid' (str_int i) \<mapsto> (RBlob b, Some (now w' + 86400000)))"
      by (auto simp: cmd_set_def chunk_ttl_seconds_def)
    with 1 show ?case
      using readable_purge [of "db w"] c by (simp add: readable_upd)
  qed simp
qed

lemma update_answers:
  assumes s: "storable s" and c: "calm_at (workspace_id s) (session_id s) w"
  shows "wp (rss_update_session R s) (\<lambda>_ w'. calm_at (workspace_id s) (session_id s) w')
     (\<lambda>e _. is_SessionNotFoundError e) w"
proof -
  let ?k = "session_key_text (workspace_id s) (session_id s)"
  have ttl_run: "fst (cmd_ttl ?k t d) \<noteq> None" for t d by (simp add: cmd_ttl_def)
  have hset_run: "fst (cmd_hset ?k (serialize_session s) t (purge t (db w'))) \<noteq> None" if k: "readable (db w') ?k" for t w'
  proof -
    obtain h where "hash_at (purge t (db w')) ?k = Some h"
      using readable_purge [OF k, of t] by (auto simp: readable_def)
    then show ?thesis by (simp add: cmd_hset_def)
  qed
  show ?thesis
    unfolding rss_update_session_def session_key_storable [OF s] bnd_lift_Inr wp_catch wp_bnd
  proof (rule wp_use [OF wp_conj [OF answers_cmdD [OF calm_ttl conjunct1 [OF c] ttl_run] obeysD [OF ttl]]], goal_cases)
    case (1 n w1)
    then have "db w1 = purge (now w1) (db w)" by (auto simp: cmd_ttl_def)
    with 1 have w1: "calm w1" "readable (db w1) ?k"
      using readable_purge [of "db w"] c by simp_all
    show ?case
    proof (cases "n = - 2")
      case True
      then show ?thesis by (simp add: wp_rules)
    next
      case False
      have "wp (r_hset R ?k (serialize_session s)) (\<lambda>_. calm_at (workspace_id s) (session_id s)) (\<lambda>_ _. False) w1"
      proof (rule wp_use [OF wp_conj [OF answers_cmdD [OF calm_hset w1(1) hset_run [OF w1(2)]] obeysD [OF hset]]], goal_cases)
        case (1 u w')
        then obtain h where "put_hash (purge (now w') (db w1)) ?k h = db w'"
          by (auto simp: cmd_hset_def split: option.splits)
        then have "readable (db w') ?k" by (metis readable_put_hash)
        with 1 show ?case by simp
      qed simp
      then show ?thesis
        using False by (auto elim!: wp_use)
    qed
  qed simp
qed

text \<open>An acceptable chunk is stored, or its session is gone.\<close>

lemma chunk_answers:
  assumes ids: "pcr_workspace_id req = ws" "pcr_session_id req = sid" "ws \<noteq> 0" "sid \<noteq> 0"
    and c: "calm_at ws sid w" and ok: "store_ok (redis_view now db w)"
    and s: "session_in (redis_view now db w) ws sid = Some s" and acc: "accepts req s"
  shows "wp (process_chunk (RedisSessionStore R) R req) (\<lambda>_ w'. calm_at ws sid w')
     (\<lambda>e _. is_SessionNotFoundError e) w"
  unfolding process_chunk_def wp_bnd ids(1,2) RedisSessionStore_sel
proof (rule wp_use [OF get_answers [OF ids(3,4) c ok]], goal_cases)
  case (1 found w1)
  show ?case
  proof (cases found)
    case None
    then show ?thesis by (simp add: wp_rules not_found_def)
  next
    case (Some s')
    then have "s' = s" using 1 s passes_session [of "redis_view now db w" "redis_view now db w1" ws sid] by auto
    obtain e where "entry_inv (redis_view now db w) ws sid s e"
      using session_in_ok [of "redis_view now db w" ws sid s] ok s unfolding store_ok_def by blast
    then obtain cs where cs: "manifest_of s cs" and st: "storable s" "workspace_id s = ws" "session_id s = sid"
      by (auto simp: entry_inv_def)
    have so: "session_ok s" and fits: "offset s + int (length (pcr_chunk_data req)) \<le> file_size s"
      using st(1) acc by (simp_all add: storable_def accepts_def)
    have upd: "wp (rss_update_session R (appended s (pcr_chunk_data req))) (\<lambda>_ w'. calm_at ws sid w')
        (\<lambda>e _. is_SessionNotFoundError e) w2" if "calm_at ws sid w2" for w2
      using update_answers [OF storable_appended [OF st(1) fits]] that st(2,3) by simp
    have c1: "calm_at ws sid w1" using 1 by simp
    show ?thesis
      unfolding Some \<open>s' = s\<close> option.case chunk_step_accepted [OF cs so acc] wp_bnd wp_fun RedisSessionStore_sel
      by (rule wp_use [OF set_chunk_answers [OF c1]]) (auto intro: upd)
  qed
qed simp

section \<open>All the pieces\<close>

lemma chunks_answer:
  assumes c: "calm_at ws sid w" and ok: "store_ok (redis_view now db w)"
    and s: "st_sessions (redis_view now db w) ws sid = Some (Some s, e)" and opn: "\<not> is_terminal (status s)"
    and ds: "list_all sendable ds" and fits: "offset s + int (length (concat ds)) \<le> file_size s"
  shows "wp (mapM (process_chunk (RedisSessionStore R) R) (chunk_requests ws sid (offset s) ds))
     (\<lambda>_ w'. sent_all ws sid s (if ds = [] then status s else IN_PROGRESS) (concat ds) (redis_view now db w'))
     (\<lambda>x w'. is_SessionNotFoundError x \<and> outlived e (now w')) w"
  using assms
proof (induction ds arbitrary: w s e)
  case Nil
  then show ?case by (simp add: wp_rules sent_all_def session_in_def)
next
  case (Cons d ds)
  let ?req = "\<lparr>pcr_workspace_id = ws, pcr_session_id = sid, pcr_chunk_data = d, pcr_chunk_offset = offset s,
    pcr_chunk_checksum = sha256_hex d\<rparr>"
  have acc: "accepts ?req s"
    using Cons.prems(4-6) by (simp add: accepts_def sendable_def)
  have in_s: "session_in (redis_view now db w) ws sid = Some s" using Cons.prems(3) by (simp add: session_in_def)
  have ids: "ws \<noteq> 0" "sid \<noteq> 0"
    using sessions_okD [of "redis_view now db w" ws sid] Cons.prems(2,3) by (auto simp: store_ok_def entry_inv_def storable_def)
  have nrej: "rejection ?req s = None" using acc by (simp add: rejection_None)
  show ?case
    unfolding chunk_requests.simps mapM.simps wp_bnd
  proof (rule wp_use [OF wp_conj [OF chunk_answers [OF _ _ ids Cons.prems(1,2) in_s acc]
      process_service [of ?req, OF _ _ Cons.prems(2)]]], goal_cases)
    case w1: (5 res w1)
    let ?s1 = "appended s d"
    obtain e1 where e1: "st_sessions (redis_view now db w1) ws sid = Some (Some ?s1, e1)"
      "e1 = e \<or> e1 = None"
      using w1 in_s Cons.prems(3) by (auto simp: process_spec_def chunk_appended_def expiry_of_def)
    have ok1: "store_ok (redis_view now db w1)" and c1: "calm_at ws sid w1" using w1 by blast+
    have fits1: "offset ?s1 + int (length (concat ds)) \<le> file_size ?s1" using Cons.prems(6) by simp
    have opn1: "\<not> is_terminal (status ?s1)" by (simp add: is_terminal_def)
    show ?case
    proof (rule wp_use [OF Cons.IH [OF c1 ok1 e1(1) opn1 _ fits1, unfolded appended_ids]], goal_cases)
      case 1
      then show ?case using Cons.prems(5) by simp
    next
      case (2 rs w')
      then show ?case by (simp add: wp_ret sent_all_def add.assoc split: if_splits)
    next
      case (3 x w')
      with e1(2) show ?case by (auto simp: outlived_def)
    qed
  next
    case (6 x w')
    then have "\<not> is_InfrastructureError x" by (cases x) auto
    with 6 have "session_in (redis_view now db w') ws sid = None" "sessions_aged (redis_view now db w) (redis_view now db w')"
      using nrej in_s by (auto simp: process_failure_def refused_def)
    then have "outlived e (st_now (redis_view now db w'))"
      using sessions_agedD(2) [of "redis_view now db w" "redis_view now db w'" ws sid] Cons.prems(3)
      by (auto simp: session_in_def tick_value_def outlived_def split: option.splits if_splits)
    with 6 show ?case by (simp add: redis_view_def)
  qed (use ids in simp_all)
qed

text \<open>From a live session to one that the completion accepts.\<close>

lemma upload_progress:
  assumes c: "calm w" and ok: "store_ok (redis_view now db w)"
    and s: "st_sessions (redis_view now db w) ws sid = Some (Some s, e)" and opn: "\<not> is_terminal (status s)"
    and ds: "list_all sendable ds" and fits: "offset s + int (length (concat ds)) \<le> file_size s"
  shows "wp (mapM (process_chunk (RedisSessionStore R) R) (chunk_requests ws sid (offset s) ds))
     (\<lambda>_ w'. store_ok (redis_view now db w')
        \<and> content_extended ws sid (concat ds) (redis_view now db w) (redis_view now db w')
        \<and> (ds = [] \<or> offset s + int (length (concat ds)) < file_size s
           \<or> (\<exists>s'. session_in (redis_view now db w') ws sid = Some s' \<and> check_completable ws sid s' = Inr ())))
     (\<lambda>x w'. store_ok (redis_view now db w') \<and> is_SessionNotFoundError x \<and> outlived e (now w')) w"
proof -
  have ids: "ws \<noteq> 0" "sid \<noteq> 0"
    using sessions_okD [of "redis_view now db w" ws sid] ok s by (auto simp: store_ok_def entry_inv_def storable_def)
  have "session_in (redis_view now db w) ws sid \<noteq> None" using s by (simp add: session_in_def)
  note all = chunks_wp [OF chunk_requests_ids ids ok this]
  have calm_w: "calm_at ws sid w" using c readable_session [OF s] by simp
  have data: "map pcr_chunk_data (chunk_requests ws sid off ds) = ds" for off
    by (induction ds arbitrary: off) simp_all
  show ?thesis
  proof (rule wp_use [OF wp_conj [OF chunks_answer [OF calm_w ok s opn ds fits] all]], assumption, goal_cases)
    case (1 rs w')
    then show ?case
      using check_stored_session [of "redis_view now db w'" ws sid] fits
      by (auto simp: sent_all_def data split: if_splits)
  qed auto
qed

end

end
