(* ===== verification/Chunk_Race.thy ===== *)
theory Chunk_Race
  imports Interleaving Upload_Progress
begin

text \<open>
  \<open>ProcessChunkUseCase.execute\<close> when two calls for one session overlap. It reads the session, writes the
  bytes under the index that follows the manifest it read, and writes the session back; nothing
  ties the three together. \<open>chunk_thread\<close> is the method cut there (\<open>run_chunk_thread\<close>). \<open>chunk_race\<close> shows the
  lost update: two chunks for the same offset are both accepted, and the manifest that is left
  describes one of them while the bytes are those of the other.
\<close>

section \<open>The thread\<close>

definition chunk_step_thread :: "'w ISessionStore \<Rightarrow> 'w redis_client \<Rightarrow> ProcessChunkRequest \<Rightarrow> UploadSession
    \<Rightarrow> ('w, ProcessChunkResponse) thread" where
  "chunk_step_thread S R req s =
     and_then (Done (check (\<not> is_terminal (status s))
            (InvalidSessionStateError (session_id s) (status_value (status s)) ''process_chunk''))) (\<lambda>_.
     and_then (Done (check (pcr_chunk_offset req = offset s)
            (new_OffsetMismatchError (offset s) (pcr_chunk_offset req) (session_id s)))) (\<lambda>_.
     let chunk_size = int (length (pcr_chunk_data req)) in
     and_then (Done (check (chunk_size \<noteq> 0) (ValueError ''Chunk data cannot be empty''))) (\<lambda>_.
     and_then (Done (check (chunk_size \<le> MAX_CHUNK_BYTES)
            (ValueError (''Chunk size '' @ str_int chunk_size @ '' exceeds maximum 10 MB'')))) (\<lambda>_.
     let chunk_index = int (length (chunk_manifest s)) in
     and_then (Done (verify_chunk (pcr_chunk_data req) (pcr_chunk_checksum req) (Some chunk_index))) (\<lambda>_.
     and_then (await (store_chunk R (pcr_workspace_id req) (pcr_session_id req) chunk_index (pcr_chunk_data req))) (\<lambda>_.
     let new_offset = offset s + chunk_size in
     and_then (Done (record_chunk chunk_index chunk_size (pcr_chunk_checksum req) new_offset s)) (\<lambda>s'.
     and_then (await (update_session S s')) (\<lambda>_.
     Done (Inr \<lparr>pcres_new_offset = new_offset\<rparr>)))))))))"

definition chunk_thread :: "'w ISessionStore \<Rightarrow> 'w redis_client \<Rightarrow> ProcessChunkRequest
    \<Rightarrow> ('w, ProcessChunkResponse) thread" where
  "chunk_thread S R req =
     and_then (await (get_session S (pcr_workspace_id req) (pcr_session_id req))) (\<lambda>found.
     case found of
       None \<Rightarrow> Done (Inl (not_found (pcr_session_id req)))
     | Some s \<Rightarrow> chunk_step_thread S R req s)"

text \<open>Uninterrupted, the thread is the method.\<close>

lemma run_check: "run (Done (check p e)) = guard p e"
  by (simp add: check_def guard_def ret_def raise_def)

lemma run_lift: "run (Done r) = lift r"
  by (simp add: lift_def)

lemma run_ret: "run (Done (Inr x)) = ret x"
  by (simp add: ret_def)

lemma run_chunk_step_thread: "run (chunk_step_thread S R req s) = chunk_step S R req s"
  unfolding chunk_step_thread_def chunk_step_def Let_def run_and_then run_check run_await run_ret
  by (simp only: run_lift)

lemma run_chunk_thread: "run (chunk_thread S R req) = process_chunk S R req"
  unfolding chunk_thread_def process_chunk_def run_and_then run_await
  by (rule arg_cong [where f = "bnd _"]) (simp add: fun_eq_iff run_chunk_step_thread raise_def split: option.split)

text \<open>After the checks.\<close>

definition storing :: "'w ISessionStore \<Rightarrow> 'w redis_client \<Rightarrow> ProcessChunkRequest \<Rightarrow> UploadSession
    \<Rightarrow> ('w, ProcessChunkResponse) thread" where
  "storing S R req s =
     and_then (await (store_chunk R (pcr_workspace_id req) (pcr_session_id req) (int (length (chunk_manifest s)))
       (pcr_chunk_data req))) (\<lambda>_.
     and_then (await (update_session S (appended s (pcr_chunk_data req)))) (\<lambda>_.
     Done (Inr \<lparr>pcres_new_offset = offset s + int (length (pcr_chunk_data req))\<rparr>)))"

lemma chunk_step_thread_accepted:
  assumes "manifest_of s cs" and "session_ok s" and "accepts req s"
  shows "chunk_step_thread S R req s = storing S R req s"
  using assms(3) record_chunk_result [OF assms(1,2), of "pcr_chunk_data req"]
    verify_chunk_iff [of "pcr_chunk_data req" "pcr_chunk_checksum req" "Some (int (length (chunk_manifest s)))"]
  by (simp add: accepts_def chunk_step_thread_def storing_def Let_def index_ok_def check_def)

section \<open>The session and the bytes under one index\<close>

text \<open>\<open>i\<close> is the index, \<open>b\<close> what is known to be stored under it.\<close>

definition tracked :: "uuid \<Rightarrow> uuid \<Rightarrow> nat \<Rightarrow> nat \<Rightarrow> UploadSession \<Rightarrow> bytes option \<Rightarrow> store \<Rightarrow> bool" where
  "tracked ws sid t i s b st = (st_sessions st ws sid = Some (Some s, Some t) \<and> t \<le> st_now st + 86400000
     \<and> (case b of None \<Rightarrow> True
        | Some d \<Rightarrow> \<exists>u. st_chunks st ws sid (str_int (int i)) = Some (d, Some u) \<and> t \<le> u))"

lemma tracked_passes:
  assumes k: "tracked ws sid t i s b st" and p: "passes st st'" and t: "st_now st' < t"
  shows "tracked ws sid t i s b st'"
  using k t passesD(1) [OF p]
  by (auto simp: tracked_def passesD(2,5) [OF p] tick_value_Some split: option.splits)

lemma tracked_put_chunk:
  "tracked ws sid t i s b st \<Longrightarrow>
    tracked ws sid t i s (Some d) (put_chunk ws sid (str_int (int i)) (Some (d, Some (st_now st + 86400000))) st)"
  by (simp add: tracked_def put_chunk_def)

lemma tracked_updated:
  "tracked ws sid t i s b st \<Longrightarrow> workspace_id s' = ws \<Longrightarrow> session_id s' = sid \<Longrightarrow> updated_session s' st st' \<Longrightarrow>
    tracked ws sid t i s' b st'"
  by (auto simp: tracked_def updated_session_def put_session_def expiry_of_def split: option.splits)

text \<open>Bytes of another length than the manifest says.\<close>

lemma tracked_broken:
  assumes m: "manifest_of s cs" and i: "i = length (chunk_manifest s)" and d: "length d \<noteq> length d'"
    and k: "tracked ws sid t i (appended s d) (Some d') st"
  shows "\<not> store_ok st"
proof
  assume "store_ok st"
  with k have "entry_inv st ws sid (appended s d) (Some t)"
    using sessions_okD [of st ws sid] by (auto simp: tracked_def store_ok_def)
  then obtain cs' where cs': "manifest_of (appended s d) cs'" "chunks_kept st ws sid t (appended s d) cs'"
    by (auto simp: entry_inv_def)
  have "cs' = cs @ [(int (length d), sha256_hex d)]"
    using m cs'(1) by (intro manifest_from_inj [of 0]) (simp add: manifest_of_def appended_def manifest_from_append)
  moreover have "i = length cs" using m i by (simp add: manifest_of_def)
  ultimately have "chunk_stored st ws sid t i (int (length d), sha256_hex d)"
    using cs'(2) by (auto simp: chunks_kept_def is_terminal_def)
  with k d show False by (auto simp: chunk_stored_def tracked_def)
qed

section \<open>The steps\<close>

context calm_service
begin

abbreviation (input) known :: "uuid \<Rightarrow> uuid \<Rightarrow> nat \<Rightarrow> nat \<Rightarrow> UploadSession \<Rightarrow> bytes option \<Rightarrow> 'w \<Rightarrow> bool" where
  "known ws sid t i s b w \<equiv> calm_at ws sid w \<and> tracked ws sid t i s b (redis_view now db w)"

lemma get_session_run:
  assumes c: "calm_at ws sid w" and ok: "store_ok (redis_view now db w)" and ids: "ws \<noteq> 0" "sid \<noteq> 0"
    and run: "rss_get_session R ws sid w = (r, w')"
  shows "calm_at ws sid w' \<and> passes (redis_view now db w) (redis_view now db w')
    \<and> r = Inr (session_in (redis_view now db w') ws sid)"
  using wp_InlD [OF get_answers [OF ids c ok], of _ w'] wp_InrD [OF get_answers [OF ids c ok], of _ w'] run
  by (cases r) auto

lemma get_known:
  assumes k: "known ws sid t i s b w" and ok: "store_ok (redis_view now db w)" and ids: "ws \<noteq> 0" "sid \<noteq> 0"
    and run: "rss_get_session R ws sid w = (r, w')" and t: "now w' < t"
  shows "r = Inr (Some s) \<and> known ws sid t i s b w'"
proof -
  note g = get_session_run [OF conjunct1 [OF k] ok ids run]
  have "tracked ws sid t i s b (redis_view now db w')"
    by (rule tracked_passes [OF conjunct2 [OF k] conjunct1 [OF conjunct2 [OF g]]]) (simp add: redis_view_def t)
  then show ?thesis using g by (simp add: tracked_def session_in_def)
qed

lemma store_known:
  assumes k: "known ws sid t i s b w" and run: "store_chunk R ws sid (int i) d w = (r, w')" and t: "now w' < t"
  shows "r = Inr () \<and> known ws sid t i s (Some d) w'"
proof -
  have "wp (store_chunk R ws sid (int i) d) (\<lambda>_ w'. \<exists>st1. passes (redis_view now db w) st1
      \<and> redis_view now db w' = put_chunk ws sid (str_int (int i)) (Some (d, Some (st_now st1 + 86400000))) st1)
      (\<lambda>_ _. True) w"
    unfolding store_chunk_def wp_catch
    by (rule wp_use [OF performsD [OF process.set_chunk]]) (auto simp: chunk_ttl_seconds_def wp_if wp_raise)
  note g = wp_conj [OF set_chunk_answers [OF conjunct1 [OF k]] this]
  obtain u where u: "r = Inr u" using wp_InlD [OF g, of _ w'] run by (cases r) auto
  then obtain st1 where st1: "calm_at ws sid w'" "passes (redis_view now db w) st1"
    "redis_view now db w' = put_chunk ws sid (str_int (int i)) (Some (d, Some (st_now st1 + 86400000))) st1"
    using wp_InrD [OF g, of u w'] run by auto
  have "st_now st1 < t" using t arg_cong [OF st1(3), of st_now] by (simp add: put_chunk_def redis_view_def)
  then show ?thesis
    using u st1 tracked_put_chunk [OF tracked_passes [OF conjunct2 [OF k] st1(2)]] by simp
qed

lemma update_known:
  assumes k: "known ws sid t i s b w" and s': "storable s'" "workspace_id s' = ws" "session_id s' = sid"
    and run: "rss_update_session R s' w = (r, w')" and t: "now w' < t"
  shows "r = Inr () \<and> known ws sid t i s' b w'"
proof -
  note g = wp_conj [OF update_answers [OF s'(1), unfolded s'(2,3), OF conjunct1 [OF k]]
      performsD [OF sessions.update [OF s'(1), unfolded RedisSessionStore_sel]]]
  have gone: "st_now st1 \<ge> t" if "passes (redis_view now db w) st1" "session_in st1 ws sid = None" for st1
    using that k by (auto simp: tracked_def session_in_def passesD(2) [OF that(1)] tick_value_def split: if_splits)
  show ?thesis
  proof (cases r)
    case (Inl e)
    then obtain st1 where "is_SessionNotFoundError e" "passes (redis_view now db w) st1" "redis_view now db w' = st1"
      "session_in st1 ws sid = None"
      using wp_InlD [OF g, of e w'] run s'(2,3) by (cases e) auto
    with gone [of st1] t show ?thesis by (auto simp: redis_view_def)
  next
    case (Inr u)
    then obtain st1 where st1: "calm_at ws sid w'" "passes (redis_view now db w) st1" "updated_session s' st1 (redis_view now db w')"
      using wp_InrD [OF g, of u w'] run by auto
    have "st_now st1 < t" using t st1(3) by (auto simp: updated_session_def put_session_def redis_view_def dest: arg_cong [of _ _ st_now])
    then show ?thesis
      using Inr st1 tracked_updated [OF tracked_passes [OF conjunct2 [OF k] st1(2)] s'(2,3) st1(3)] by simp
  qed
qed

text \<open>Time does not run backwards in the calls after the session was read.\<close>

lemma wp_later: "wp m (\<lambda>_ w'. now w \<le> now w') (\<lambda>_ w'. now w \<le> now w') w \<Longrightarrow> m w = (r, w') \<Longrightarrow> now w \<le> now w'"
  by (cases r) (auto dest: wp_InrD wp_InlD)

lemma store_later: "store_chunk R ws sid j d w = (r, w') \<Longrightarrow> now w \<le> now w'"
proof (rule wp_later)
  show "wp (store_chunk R ws sid j d) (\<lambda>_ w'. now w \<le> now w') (\<lambda>_ w'. now w \<le> now w') w"
    unfolding store_chunk_def wp_catch
    by (rule wp_use [OF performsD [OF process.set_chunk]])
      (auto simp: chunk_ttl_seconds_def wp_if wp_raise redis_view_def put_chunk_def
        dest!: passesD(1) arg_cong [where f = st_now])
qed

lemma update_later: "storable s \<Longrightarrow> rss_update_session R s w = (r, w') \<Longrightarrow> now w \<le> now w'"
proof (rule wp_later)
  assume s: "storable s"
  show "wp (rss_update_session R s) (\<lambda>_ w'. now w \<le> now w') (\<lambda>_ w'. now w \<le> now w') w"
    by (rule wp_use [OF performsD [OF sessions.update [OF s, unfolded RedisSessionStore_sel]]])
      (auto simp: updated_session_def redis_view_def put_session_def dest!: passesD(1) arg_cong [where f = st_now])
qed

lemma storing_later:
  "storable (appended s (pcr_chunk_data req)) \<Longrightarrow> moves (\<lambda>w w'. now w \<le> now w') (storing (RedisSessionStore R) R req s)"
  unfolding storing_def moves_await RedisSessionStore_sel
  by (auto simp: moves_await split: sum.split intro: store_later update_later)

section \<open>The lost update\<close>

text \<open>Both read, both write their bytes, both write the session back, \<open>a\<close> last.\<close>

abbreviation (input) racing :: "ProcessChunkRequest \<Rightarrow> ProcessChunkRequest \<Rightarrow> ('w, ProcessChunkResponse) thread list" where
  "racing a b \<equiv> [chunk_thread (RedisSessionStore R) R a, chunk_thread (RedisSessionStore R) R b]"

lemma gets_race:
  assumes ok: "store_ok (redis_view now db w)" and k: "known ws sid t (length (chunk_manifest s)) s None w"
    and a: "pcr_workspace_id a = ws" "pcr_session_id a = sid" "accepts a s"
    and b: "pcr_workspace_id b = ws" "pcr_session_id b = sid" "accepts b s"
    and run: "turns (0 # 1 # js) (w, racing a b) = (w', ts)" and t: "now w' < t"
  shows "\<exists>w2. known ws sid t (length (chunk_manifest s)) s None w2
    \<and> turns js (w2, [storing (RedisSessionStore R) R a s, storing (RedisSessionStore R) R b s]) = (w', ts)"
proof -
  let ?k = "\<lambda>req found. case found of None \<Rightarrow> Done (Inl (not_found (pcr_session_id req)))
    | Some s \<Rightarrow> chunk_step_thread (RedisSessionStore R) R req s"
  obtain cs where m: "manifest_of s cs" and st: "storable s" "workspace_id s = ws" "session_id s = sid"
    using sessions_okD [of "redis_view now db w" ws sid] ok k by (auto simp: tracked_def store_ok_def entry_inv_def)
  have ids: "ws \<noteq> 0" "sid \<noteq> 0" and so: "session_ok s" using st by (auto simp: storable_def)
  obtain r1 w1 where g1: "rss_get_session R ws sid w = (r1, w1)" by force
  obtain r2 w2 where g2: "rss_get_session R ws sid w1 = (r2, w2)" by force
  note s1 = get_session_run [OF conjunct1 [OF k] ok ids g1]
  have ok1: "store_ok (redis_view now db w1)" using store_ok_passes [OF ok] s1 by blast
  note s2 = get_session_run [OF conjunct1 [OF s1] ok1 ids g2]
  have p2: "passes (redis_view now db w) (redis_view now db w2)" using passes_trans s1 s2 by blast
  have found: "r = Inr (Some s) \<or> r = Inr None" if "r \<in> {r1, r2}" for r
    using that s1 s2 k p2 by (auto simp: tracked_def session_in_def passesD(2) tick_value_def split: if_splits)
  have step: "chunk_step_thread (RedisSessionStore R) R req s = storing (RedisSessionStore R) R req s"
    "moves (\<lambda>w w'. now w \<le> now w') (storing (RedisSessionStore R) R req s)" if "req \<in> {a, b}" for req
    using that a(3) b(3) storing_later [OF storable_appended [OF st(1)], of req]
    by (auto intro: chunk_step_thread_accepted [OF m so] simp: accepts_def)
  have mv: "moves (\<lambda>w w'. now w \<le> now w') (and_then (Done r) (?k req))"
    if "r \<in> {r1, r2}" "req \<in> {a, b}" for r req
    using found [OF that(1)] step [OF that(2)] by auto
  have turns: "turns js (w2, [and_then (Done r1) (?k a), and_then (Done r2) (?k b)]) = (w', ts)"
    using run unfolding chunk_thread_def a(1,2) b(1,2) RedisSessionStore_sel turns.simps
      turn0_await [where m = "rss_get_session R ws sid", OF g1] turn1_await [where m = "rss_get_session R ws sid", OF g2] .
  have le: "now w2 \<le> now w'"
    using later_turns [of now "[and_then (Done r1) (?k a), and_then (Done r2) (?k b)]" w2 js] mv unfolding turns by simp
  have "now w1 \<le> now w2" using s2 passesD(1) [of "redis_view now db w1" "redis_view now db w2"] by (simp add: redis_view_def)
  then have k1: "r1 = Inr (Some s)" "known ws sid t (length (chunk_manifest s)) s None w1"
    using get_known [OF k ok ids g1] le t by auto
  have k2: "r2 = Inr (Some s)" "known ws sid t (length (chunk_manifest s)) s None w2"
    using get_known [OF k1(2) ok1 ids g2] le t by auto
  show ?thesis
    using turns k2 k1 step(1) by auto
qed

lemma stores_race:
  assumes k: "known ws sid t (length (chunk_manifest s)) s None w"
    and s: "storable s" "workspace_id s = ws" "session_id s = sid"
    and a: "pcr_workspace_id a = ws" "pcr_session_id a = sid" "accepts a s"
    and b: "pcr_workspace_id b = ws" "pcr_session_id b = sid" "accepts b s"
    and run: "turns [0, 1, 1, 0] (w, [storing (RedisSessionStore R) R a s, storing (RedisSessionStore R) R b s]) = (w', ts)"
    and t: "now w' < t"
  shows "known ws sid t (length (chunk_manifest s)) (appended s (pcr_chunk_data a)) (Some (pcr_chunk_data b)) w'"
    and "ts = map (\<lambda>r. Done (Inr \<lparr>pcres_new_offset = offset s + int (length (pcr_chunk_data r))\<rparr>)) [a, b]"
proof -
  let ?i = "length (chunk_manifest s)" and ?d = "\<lambda>r. pcr_chunk_data r"
  let ?reply = "\<lambda>r. Done (Inr \<lparr>pcres_new_offset = offset s + int (length (?d r))\<rparr>)"
  let ?upd = "\<lambda>r. and_then (await (rss_update_session R (appended s (?d r)))) (\<lambda>_. ?reply r)"
  let ?store = "\<lambda>r. store_chunk R ws sid (int ?i) (?d r)" and ?put = "\<lambda>r. rss_update_session R (appended s (?d r))"
  let ?set = "\<lambda>r. and_then (await (?store r)) (\<lambda>_. ?upd r)"
  have st: "storable (appended s (?d r))" if "r \<in> {a, b}" for r
    using that storable_appended [OF s(1)] a(3) b(3) by (auto simp: accepts_def)
  have set: "storing (RedisSessionStore R) R r s = ?set r" if "r \<in> {a, b}" for r
    using that a(1,2) b(1,2) by (auto simp: storing_def)
  obtain r1 w1 where c1: "store_chunk R ws sid (int ?i) (?d a) w = (r1, w1)" by force
  obtain r2 w2 where c2: "store_chunk R ws sid (int ?i) (?d b) w1 = (r2, w2)" by force
  obtain r3 w3 where c3: "rss_update_session R (appended s (?d b)) w2 = (r3, w3)" by force
  obtain r4 w4 where c4: "rss_update_session R (appended s (?d a)) w3 = (r4, w4)" by force
  have "list_all (moves (\<lambda>w w'. now w \<le> now w')) [?set a, ?set b]"
    using storing_later [OF st, of a] storing_later [OF st, of b] set by simp
  moreover have "turns [0, 1, 1, 0] (w, [?set a, ?set b]) = (w', ts)" using run set by simp
  ultimately have 1: "now w1 \<le> now w' \<and> list_all (moves (\<lambda>w w'. now w \<le> now w')) [and_then (Done r1) (\<lambda>_. ?upd a), ?set b]
      \<and> turns [1, 1, 0] (w1, [and_then (Done r1) (\<lambda>_. ?upd a), ?set b]) = (w', ts)"
    by (intro turn0_later [where m = "?store a", OF c1])
  then have k1: "r1 = Inr ()" "known ws sid t ?i s (Some (?d a)) w1"
    using store_known [OF k c1] t by auto
  have 2: "now w2 \<le> now w' \<and> list_all (moves (\<lambda>w w'. now w \<le> now w')) [?upd a, and_then (Done r2) (\<lambda>_. ?upd b)]
      \<and> turns [1, 0] (w2, [?upd a, and_then (Done r2) (\<lambda>_. ?upd b)]) = (w', ts)"
    using 1 unfolding k1 by (intro turn1_later [where m = "?store b", OF c2]) simp_all
  then have k2: "r2 = Inr ()" "known ws sid t ?i s (Some (?d b)) w2"
    using store_known [OF k1(2) c2] t by auto
  have 3: "now w3 \<le> now w' \<and> list_all (moves (\<lambda>w w'. now w \<le> now w')) [?upd a, and_then (Done r3) (\<lambda>_. ?reply b)]
      \<and> turns [0] (w3, [?upd a, and_then (Done r3) (\<lambda>_. ?reply b)]) = (w', ts)"
    using 2 unfolding k2 by (intro turn1_later [where m = "?put b", OF c3]) simp_all
  then have k3: "r3 = Inr ()" "known ws sid t ?i (appended s (?d b)) (Some (?d b)) w3"
    using update_known [OF k2(2) st _ _ c3] t s(2,3) by auto
  have 4: "now w4 \<le> now w' \<and> list_all (moves (\<lambda>w w'. now w \<le> now w')) [and_then (Done r4) (\<lambda>_. ?reply a), ?reply b]
      \<and> turns [] (w4, [and_then (Done r4) (\<lambda>_. ?reply a), ?reply b]) = (w', ts)"
    using 3 unfolding k3 by (intro turn0_later [where m = "?put a", OF c4]) simp_all
  then have k4: "r4 = Inr ()" "known ws sid t ?i (appended s (?d a)) (Some (?d b)) w4"
    using update_known [OF k3(2) st _ _ c4] t s(2,3) by auto
  show "known ws sid t ?i (appended s (?d a)) (Some (?d b)) w'" and "ts = map ?reply [a, b]"
    using 4 k4 by auto
qed

lemma chunk_race:
  assumes c: "calm w" and ok: "store_ok (redis_view now db w)"
    and s: "st_sessions (redis_view now db w) ws sid = Some (Some s, Some t)"
    and a: "pcr_workspace_id a = ws" "pcr_session_id a = sid" "accepts a s"
    and b: "pcr_workspace_id b = ws" "pcr_session_id b = sid" "accepts b s"
    and d: "length (pcr_chunk_data a) \<noteq> length (pcr_chunk_data b)"
    and run: "turns [0, 1, 0, 1, 1, 0] (w, racing a b) = (w', ts)" and t: "now w' < t"
  shows "ts = map (\<lambda>r. Done (Inr \<lparr>pcres_new_offset = offset s + int (length (pcr_chunk_data r))\<rparr>)) [a, b]"
    and "session_in (redis_view now db w') ws sid = Some (appended s (pcr_chunk_data a))"
    and "chunk_bytes (redis_view now db w') ws sid (length (chunk_manifest s)) = pcr_chunk_data b"
    and "\<not> store_ok (redis_view now db w')"
proof -
  obtain cs where m: "manifest_of s cs" "t \<le> now w + 86400000" and st: "storable s" "workspace_id s = ws" "session_id s = sid"
    using sessions_okD [of "redis_view now db w" ws sid] ok s
    by (auto simp: store_ok_def entry_inv_def redis_view_def)
  have k: "known ws sid t (length (chunk_manifest s)) s None w"
    using c readable_session [OF s] s m(2) by (simp add: tracked_def redis_view_def)
  obtain w2 where k2: "known ws sid t (length (chunk_manifest s)) s None w2" and
    run2: "turns [0, 1, 1, 0] (w2, [storing (RedisSessionStore R) R a s, storing (RedisSessionStore R) R b s]) = (w', ts)"
    using gets_race [OF ok k a b run t] by blast
  note fin = stores_race [OF k2 st a b run2 t]
  show "ts = map (\<lambda>r. Done (Inr \<lparr>pcres_new_offset = offset s + int (length (pcr_chunk_data r))\<rparr>)) [a, b]"
    by (rule fin(2))
  show "session_in (redis_view now db w') ws sid = Some (appended s (pcr_chunk_data a))"
    "chunk_bytes (redis_view now db w') ws sid (length (chunk_manifest s)) = pcr_chunk_data b"
    using fin(1) by (auto simp: tracked_def session_in_def chunk_bytes_def)
  show "\<not> store_ok (redis_view now db w')"
    by (rule tracked_broken [OF m(1) refl d, where ws = ws and sid = sid and t = t]) (use fin(1) in simp)
qed

end

section \<open>The race in memory\<close>

text \<open>No await of the thread takes more than two commands.\<close>

definition within_two :: "'z mem_world_scheme \<Rightarrow> 'z mem_world_scheme \<Rightarrow> bool" where
  "within_two w w' = (mw_now w' \<le> mw_now w + 2)"

lemma run_cmd_tick: "wp (run_cmd enc c) (\<lambda>_ w'. mw_now w' = Suc (mw_now w)) (\<lambda>_ w'. mw_now w' = Suc (mw_now w)) w"
  by (simp add: wp_def run_cmd_def Let_def split: option.split prod.split)

lemma session_calls_tick:
  "wp (rss_get_session mem_redis ws sid) (\<lambda>_. within_two w) (\<lambda>_. within_two w) w"
  "wp (rss_update_session mem_redis s) (\<lambda>_. within_two w) (\<lambda>_. within_two w) w"
  "wp (store_chunk mem_redis ws sid i d) (\<lambda>_. within_two w) (\<lambda>_. within_two w) w"
proof -
  have cmds: "r_hgetall mem_redis k = run_cmd (\<lambda>h. map (\<lambda>(a, b). (RStr a, RStr b)) (AList.clearjunk h)) (cmd_hgetall k)"
    "r_ttl mem_redis k = run_cmd id (cmd_ttl k)" "r_hset mem_redis k fs = run_cmd id (cmd_hset k fs)"
    "r_set mem_redis k d n = run_cmd id (cmd_set k d n)" for k fs n
    by (simp_all add: mem_redis_def)
  show "wp (rss_get_session mem_redis ws sid) (\<lambda>_. within_two w) (\<lambda>_. within_two w) w"
    unfolding rss_get_session_def wp_bnd wp_lift wp_catch cmds
    by (auto split: sum.split intro!: wp_use [OF run_cmd_tick] simp: wp_rules within_two_def)
  show "wp (rss_update_session mem_redis s) (\<lambda>_. within_two w) (\<lambda>_. within_two w) w"
    unfolding rss_update_session_def wp_bnd wp_lift wp_catch cmds
    by (auto split: sum.split intro!: wp_use [OF run_cmd_tick] simp: wp_rules within_two_def)
  show "wp (store_chunk mem_redis ws sid i d) (\<lambda>_. within_two w) (\<lambda>_. within_two w) w"
    unfolding store_chunk_def wp_catch cmds
    by (rule wp_use [OF run_cmd_tick]) (auto simp: wp_rules within_two_def)
qed

lemma await_within_two:
  assumes "\<And>w. wp m (\<lambda>_. within_two w) (\<lambda>_. within_two w) w"
  shows "moves within_two (await m)"
  unfolding await_def moves_call
proof (intro allI impI)
  fix w r w'
  assume "m w = (r, w')"
  then show "within_two w w' \<and> moves within_two (Done r)" using wp_snd [OF assms [of w]] by simp
qed

lemma chunk_thread_within_two: "moves within_two (chunk_thread (RedisSessionStore mem_redis) mem_redis req)"
  unfolding chunk_thread_def chunk_step_thread_def Let_def RedisSessionStore_sel
  by (intro moves_and_then await_within_two session_calls_tick, split option.split)
    (intro allI conjI impI moves_and_then await_within_two session_calls_tick moves.ended)

lemma race_in_time:
  assumes "turns js (sample_world, map (chunk_thread (RedisSessionStore mem_redis) mem_redis) reqs) = (w', ts)"
  shows "mw_now w' \<le> 2 * length js"
proof -
  have "mw_now v' \<le> mw_now v + 2 * n" if "(within_two ^^ n) v v'" for n and v v' :: "unit mem_world_scheme"
    using that by (induction n arbitrary: v') (fastforce simp: within_two_def)+
  moreover have "(within_two ^^ length js) sample_world w'"
    using moves_turns [of within_two "map (chunk_thread (RedisSessionStore mem_redis) mem_redis) reqs" js sample_world] assms
    by (simp add: reflp_def list_all_iff chunk_thread_within_two within_two_def [of w w for w])
  ultimately show ?thesis by (fastforce simp: sample_world_def)
qed

text \<open>Two clients send different first chunks of the session of five bytes.\<close>

abbreviation racing_chunk :: "bytes \<Rightarrow> ProcessChunkRequest" where
  "racing_chunk d \<equiv> \<lparr>pcr_workspace_id = 1, pcr_session_id = 2, pcr_chunk_data = d, pcr_chunk_offset = 0,
     pcr_chunk_checksum = sha256_hex d\<rparr>"

lemma racing_chunk_accepted: "d \<noteq> [] \<Longrightarrow> length d \<le> 5 \<Longrightarrow> accepts (racing_chunk d) sample_session"
  by (simp add: accepts_def sample_session_def MAX_CHUNK_BYTES_def is_terminal_def)

end
