(* ===== verification/Spec2Isabelle.thy ===== *)
theory Spec2Isabelle
  imports API_Sample Stub_Service Rate_Race Chunk_Race
begin

text \<open>
  A model of the RAG file uploader (\<open>src/src\<close>, a FastAPI service for resumable uploads) and of the stub
  that issues tokens for it in development (\<open>src/docker/auth_stub\<close>), with what makes them correct.
  All paths below are relative to those two directories.

  \<^bold>\<open>The program.\<close> A client of a workspace announces a file (\<open>POST\<close>), sends it in chunks (\<open>PATCH\<close>), asks for the
  offset (\<open>HEAD\<close>) and may abort (\<open>DELETE\<close>); a use case without an endpoint completes the upload. Sessions,
  chunk bytes, upload counters and file fingerprints live in Redis under keys that start with the
  workspace, finished files in S3; their arrival is announced over NATS or a webhook.

  \<^bold>\<open>How it is modelled.\<close> An \<open>async\<close> method is a function on the world, which ends with a value or an
  exception and the world after it (\<open>Prelude\<close>). The world is a type variable: Redis, S3, NATS, HTTP, the
  token and the cryptography library, the clock and the disk are parameters, records of the operations
  the code calls, and what the code relies on are locales over them. Each is interpreted by an
  implementation in memory that can be told to fail, so the hypotheses can hold; every command
  may raise, before or after it took effect.

  \<^item> Python: \<open>Py_String\<close>, \<open>Py_Uuid\<close>, \<open>Py_Datetime\<close>, \<open>Py_Json\<close>, \<open>Py_Base64\<close>, \<open>Sha256\<close> (FIPS 180-4, executable, so that
    checksums are computed and not assumed): what the code uses of the standard library, with round
    trips. \<open>Exceptions\<close>: \<open>domain/exceptions.py\<close> and the library's exceptions, one datatype.
  \<^item> The domain: \<open>Value_Objects\<close>, \<open>Upload_Session\<close> (the entity, its methods, its invariant \<open>session_ok\<close>), \<open>Events\<close>,
    \<open>Domain_Services\<close>, \<open>Dto\<close>. \<open>Protocols\<close> holds the \<open>Protocol\<close> classes: records of operations, and as locales
    (\<open>session_store\<close>, \<open>rate_limiter\<close>, \<open>dedup_store\<close>, \<open>chunk_cache\<close>, \<open>environment\<close>) what they promise over an abstract
    \<open>store\<close>, the sessions, counters, chunks and fingerprints with the times at which they expire.
    \<open>System_State\<close>: \<open>store_ok\<close>, the invariant of the stored data. \<open>Storage_Client\<close> and \<open>Events\<close> have the locales
    \<open>storage_client\<close> and \<open>event_publisher\<close>.
  \<^item> The use cases, each against these locales: \<open>Initiate_Upload\<close>, \<open>Process_Chunk\<close>, \<open>Abort_Upload\<close>, \<open>Complete_Upload\<close>
    (\<open>application/use_cases\<close>).
  \<^item> The infrastructure: \<open>Redis_Client\<close> (the commands on a database with expiry times; locale \<open>redis_server\<close>),
    \<open>Key_Builder\<close>, \<open>Serialization\<close>, \<open>Session_Store\<close>, \<open>Rate_Limiter\<close>, \<open>Dedup_Store\<close>, \<open>Chunk_Cache\<close>; \<open>S3_Client\<close> and the class
    \<open>S3StorageClient\<close> in \<open>Storage_Client\<close>; \<open>Nats_Publisher\<close>, \<open>Webhook_Publisher\<close>, \<open>Event_Retry\<close>. Each proves that its
    class keeps the contract of its protocol (a \<open>sublocale\<close>), on every server with the documented
    behaviour. \<open>store_of\<close> is the abstraction function from Redis keys to the store.
  \<^item> The composition: \<open>Upload_Service\<close> and \<open>Complete_Service\<close> put the use cases on their providers and carry the
    refinement theorems over (\<open>upload_service\<close>, \<open>complete_service\<close>); \<open>reachable\<close> is the step relation of the use
    cases. \<open>Upload_Progress\<close> adds that a calm connection answers, and shows that uploads get through.
  \<^item> Calls that overlap: \<open>Interleaving\<close> has threads, methods cut at their awaits, and their interleavings;
    \<open>Rate_Race\<close> and \<open>Chunk_Race\<close> do so for \<open>check_and_increment\<close> and for \<open>ProcessChunkUseCase.execute\<close>, prove that the
    uninterrupted thread is the method, and show what races can do to the counter and to a session.
  \<^item> The edge: \<open>Settings\<close>; \<open>Auth\<close> (\<open>infrastructure/auth\<close>, \<open>presentation/api/middleware/auth.py\<close> and the middleware
    of \<open>presentation/main.py\<close>); \<open>Uploads_Router\<close> (the four handlers of \<open>routers/uploads.py\<close> with every \<open>except\<close>
    clause, and \<open>schemas\<close>), \<open>Router_Answers\<close> (which status each exception becomes), \<open>Upload_API\<close> (what an
    answer or a failure of each handler says about the store), \<open>Upload_Routes\<close> (with authentication, the
    whole application), \<open>Isolation\<close> (what a request can change).
  \<^item> The stub: \<open>Stub_Keys\<close> (\<open>keys.py\<close>), \<open>Stub_Service\<close> (\<open>main.py\<close>, \<open>models.py\<close>).
  \<^item> \<open>Sample_World\<close>, \<open>Complete_Sample\<close>, \<open>API_Sample\<close>: the concrete worlds of the witnesses.

  \<^bold>\<open>What is shown.\<close> The use cases refine operations on the abstract store, errors included, and keep
  \<open>store_ok\<close> however they end (C1-C3, C8-C12); a client that sends its file piece by piece gets through
  as long as Redis answers (C4); the endpoints act for entitled callers only, and requests of other
  workspaces change nothing of a workspace (C5-C7, C13-C16); a completed file is in the storage with the
  announced hash and announced (C2, C20, C21). Then the components: entity, verifier, limiter, stores,
  publishers and their retries, settings, tokens and keys (C17 on), with round trips for every format that is written
  and read back.

  The contracts name the ways in which a call may fail and what it leaves behind then. \<open>passes st st'\<close> says
  that only time has passed, \<open>sessions_aged\<close> the same of the sessions, \<open>keeps\<close> that all but the scope of a
  request is untouched in this sense; \<open>outlived e t\<close> that an expiry time is over.

  \<^bold>\<open>Bounds.\<close> Loops over lists are structural recursion; retries count their attempts; the three other
  recursions have a \<open>termination\<close> proof. Only the JSON parser has fuel, the length of the text, and
  \<open>json_loads_dumps\<close> shows that it suffices for what the program writes. Integers are unbounded as in
  Python; Redis counters have 64 bits, SHA-256 works on 32-bit words, UUIDs are 128-bit words.

  \<^bold>\<open>Not modelled.\<close> Overlapping calls other than those of C24 and C26: everywhere else a call runs to its
  end before the next starts (C24 shows that C1 and C8 need this), and \<open>asyncio.gather\<close> takes its calls in
  order.
  Logging, tracing and the placeholders of \<open>observability\<close>; \<open>isinstance\<close> checks that typing excludes;
  FastAPI and pydantic themselves (routing, the parsing of headers, CORS; of several violations
  the first is reported); the cache of the settings; closing of the HTTP client. Text has the
  characters U+0000 to U+00FF, JSON has no floats, and the fractions of hours in a log message or of
  seconds in a timestamp are exact (the floats of Python round them from the year 2514 on).
\<close>

text \<open>
  C1: One call of ProcessChunkUseCase.execute on the Redis-backed stores, for any Redis server
  with the documented behaviour. If it returns, the chunk was acceptable (session not terminal,
  offset equal to the stored one, non-empty, at most 10 MB, checksum the SHA-256 of the data,
  total within the announced size), and the abstract store has exactly this chunk appended:
  manifest entry, offset, status IN_PROGRESS, expiry kept, content received so far extended by
  the data. If it raises, the exception is an InfrastructureError, SessionNotFoundError for a
  session that is gone, or the rejection the checks prescribe, and the sessions are untouched
  unless the final write raised although it took effect. The invariant of the stored data holds
  in every case.
\<close>

theorem process_chunk_refines:
  assumes "upload_service R now db rest Env limit"
    and "pcr_workspace_id req \<noteq> 0" and "pcr_session_id req \<noteq> 0" and "store_ok (redis_view now db w)"
  shows "wp (process_chunk (RedisSessionStore R) R req)
     (\<lambda>res w'. rest w' = rest w \<and> store_ok (redis_view now db w')
        \<and> process_spec req (redis_view now db w) res (redis_view now db w'))
     (\<lambda>e w'. rest w' = rest w \<and> store_ok (redis_view now db w')
        \<and> process_failure req (redis_view now db w) e (redis_view now db w')) w"
  by (rule upload_service.process_service [OF assms])

theorem process_chunk_refines_witness:
  "accepts sample_chunk sample_session \<and> wp (process_chunk (RedisSessionStore mem_redis) mem_redis sample_chunk)
     (\<lambda>res w'. mem_world.more w' = mem_world.more sample_world \<and> store_ok (sample_view w')
        \<and> process_spec sample_chunk (sample_view sample_world) res (sample_view w'))
     (\<lambda>e w'. mem_world.more w' = mem_world.more sample_world \<and> store_ok (sample_view w')
        \<and> process_failure sample_chunk (sample_view sample_world) e (sample_view w')) sample_world"
  using process_chunk_refines [OF mem_service.upload_service_axioms _ _ sample_store_ok, of sample_chunk]
  by (simp add: sample_requests)



text \<open>
  C3: Any sequence of ProcessChunk calls for one session that all return: the stored offset grew
  by the total length of the data, and the bytes stored under the session's chunk keys,
  concatenated in manifest order, are the earlier content followed by the data of the calls in
  order. The invariant of the stored data holds afterwards, also when a call raises.
\<close>

theorem upload_content:
  assumes "upload_service R now db rest Env limit"
    and "\<And>r. r \<in> set reqs \<Longrightarrow> pcr_workspace_id r = ws \<and> pcr_session_id r = sid"
    and "ws \<noteq> 0" and "sid \<noteq> 0" and "store_ok (redis_view now db w)"
    and "session_in (redis_view now db w) ws sid \<noteq> None"
  shows "wp (mapM (process_chunk (RedisSessionStore R) R) reqs)
     (\<lambda>_ w'. store_ok (redis_view now db w')
        \<and> content_extended ws sid (concat (map pcr_chunk_data reqs)) (redis_view now db w) (redis_view now db w'))
     (\<lambda>_ w'. store_ok (redis_view now db w')) w"
  by (rule upload_service.chunks_wp [OF assms])

theorem upload_content_witness:
  "wp (mapM (process_chunk (RedisSessionStore mem_redis) mem_redis) [sample_chunk, sample_chunk])
     (\<lambda>_ w'. store_ok (sample_view w')
        \<and> content_extended 1 2 (concat (map pcr_chunk_data [sample_chunk, sample_chunk]))
            (sample_view sample_world) (sample_view w'))
     (\<lambda>_ w'. store_ok (sample_view w')) sample_world"
  by (rule upload_content [OF mem_service.upload_service_axioms _ _ _ sample_store_ok])
    (use sample_session_in(1) in \<open>auto simp: sample_requests session_in_def\<close>)

text \<open>
  C4: An upload gets through. On a Redis server whose commands raise only when the server
  answers with an error, a client that sends the rest of the file of a live session in non-empty
  pieces of at most 10 MB, each with its offset and its SHA-256, has every piece accepted, and
  the content has grown by them; if they fill the announced size, the session is one the
  completion accepts. The only way to fail is that the session's time to live ends on the way,
  and then the call raises SessionNotFoundError.
\<close>

theorem upload_gets_through:
  assumes "calm_service R now db rest Env limit calm" and "calm w" and "store_ok (redis_view now db w)"
    and "st_sessions (redis_view now db w) ws sid = Some (Some s, e)" and "\<not> is_terminal (status s)"
    and "list_all sendable ds" and "offset s + int (length (concat ds)) \<le> file_size s"
  shows "wp (mapM (process_chunk (RedisSessionStore R) R) (chunk_requests ws sid (offset s) ds))
     (\<lambda>_ w'. store_ok (redis_view now db w')
        \<and> content_extended ws sid (concat ds) (redis_view now db w) (redis_view now db w')
        \<and> (ds = [] \<or> offset s + int (length (concat ds)) < file_size s
           \<or> (\<exists>s'. session_in (redis_view now db w') ws sid = Some s' \<and> check_completable ws sid s' = Inr ())))
     (\<lambda>x w'. store_ok (redis_view now db w') \<and> is_SessionNotFoundError x \<and> outlived e (now w')) w"
  by (rule calm_service.upload_progress [OF assms])

theorem upload_gets_through_witness:
  "wp (mapM (process_chunk (RedisSessionStore mem_redis) mem_redis) (chunk_requests 1 2 0 [[1, 2, 3], [4, 5]]))
     (\<lambda>_ w'. \<exists>s'. session_in (sample_view w') 1 2 = Some s' \<and> check_completable 1 2 s' = Inr ())
     (\<lambda>x w'. outlived (Some 86400000) (mw_now w')) sample_world"
proof -
  have s: "offset sample_session = 0" "file_size sample_session = 5" "\<not> is_terminal (status sample_session)"
    by (simp_all add: sample_session_def is_terminal_def)
  have "list_all sendable [[1, 2, 3], [4, 5]]" by (simp add: sendable_def MAX_CHUNK_BYTES_def)
  note run = upload_gets_through [OF mem_calm.calm_service_axioms _ sample_store_ok sample_session_in(1) s(3) this]
  show ?thesis
    by (rule wp_use [OF run [unfolded s]]) (simp_all add: sample_world_def)
qed

text \<open>
  C5: Any request to the four endpoints of the application, on any server, token library and
  body with the documented behaviour. If it is answered, it is the 401 of the middleware with
  nothing changed but by expiry, or the Authorization header carried a genuine token whose
  claims entitle the caller (the OWNER role, except for HEAD) and the effect of the request took
  place: the session of the request stored and the counter one higher, or exactly this chunk
  appended, or the offset told of a live session of the caller's workspace, or the session gone.
  In every case the invariant of the stored data holds; without an entitled caller the answer is
  401 or 403 and nothing changes but by expiry, and with one nothing changes outside the scope
  of the request: the session, or for POST the caller's workspace.
\<close>

theorem routes_entitled:
  assumes "upload_api R now db rest Env limit J genuine timer body"
    and "max_concurrent_uploads s = limit" and "store_ok (redis_view now db w)"
  shows "wp (application J s R timer Env body authorization rq)
     (\<lambda>resp w'. keeps (redis_view now db) rest {} w w' \<and> (\<exists>d. resp = refusal d)
        \<or> (\<exists>c. entitled genuine J s authorization rq c \<and> keeps (redis_view now db) rest (scope c rq) w w'
             \<and> effect c rq resp (redis_view now db w) (redis_view now db w')))
     (\<lambda>e w'. keeps (redis_view now db) rest {} w w' \<and> (answers {401, 403} e \<or> \<not> is_Exception e)
        \<or> (\<exists>c. entitled genuine J s authorization rq c \<and> keeps (redis_view now db) rest (scope c rq) w w')) w"
  by (rule upload_api.application_wp [OF assms])

theorem routes_entitled_witness:
  "wp (application sample_jwt sample_settings mem_redis mem_timer mem_environment (mem_body [1, 2, 3]) owner_header (PatchUpload owner_patch))
     (\<lambda>resp w'. (\<exists>d. resp = refusal d)
        \<or> (\<exists>c. entitled mem_genuine sample_jwt sample_settings owner_header (PatchUpload owner_patch) c
             \<and> effect c (PatchUpload owner_patch) resp (sample_view sample_world) (sample_view w')))
     (\<lambda>e w'. store_ok (sample_view w')) sample_world"
  by (rule wp_use [OF routes_entitled [OF mem_api.upload_api_axioms sample_limit sample_store_ok]])
    (unfold keeps_def, blast+)

text \<open>
  C6: PATCH /v1/uploads/{id} below the route's authentication. An answer is 204 whose Upload-
  Offset is the new offset, and the session has exactly the body appended, whose SHA-256 is the
  one the Upload-Checksum header announced. A failure is 413, 415 or 422 from the headers with
  nothing changed, 500 for an unreadable body, or what the use case raised: 404 only for a
  session that is gone, 409 only for a wrong offset, 460 only for a wrong checksum; sessions
  change only under 503 (the write took effect although it raised). What is not an answer: a
  ValueError of the request object, which is built outside the try, a TypeError for a naive
  expiry time, and an InfrastructureError of the lookup inside the except clause.
\<close>

theorem patch_uploads:
  assumes "upload_api R now db rest Env limit J genuine timer body"
    and "jwt_workspace_id c \<noteq> 0" and "cq_upload_id q \<noteq> 0" and "store_ok (redis_view now db w)"
  shows "wp (upload_chunk_handler (RedisSessionStore R) R Env body c q)
     (\<lambda>resp w'. keeps (redis_view now db) rest {(jwt_workspace_id c, cq_upload_id q)} w w'
        \<and> chunk_accepted c q resp (redis_view now db w) (redis_view now db w'))
     (\<lambda>e w'. keeps (redis_view now db) rest {(jwt_workspace_id c, cq_upload_id q)} w w'
        \<and> chunk_failed c q (redis_view now db w) e (redis_view now db w')) w"
  by (rule upload_api.upload_chunk_wp [OF assms])

theorem patch_uploads_witness:
  "check_headers owner_patch = Inr (sha256_hex [1, 2, 3])
   \<and> wp (upload_chunk_handler (RedisSessionStore mem_redis) mem_redis mem_environment (mem_body [1, 2, 3]) owner_claims owner_patch)
     (\<lambda>resp w'. chunk_accepted owner_claims owner_patch resp (sample_view sample_world) (sample_view w'))
     (\<lambda>e w'. chunk_failed owner_claims owner_patch (sample_view sample_world) e (sample_view w')) sample_world"
  by (intro conjI owner_patch_headers
      wp_use [OF patch_uploads [OF mem_api.upload_api_axioms _ _ sample_store_ok, of owner_claims owner_patch]])
    (simp_all add: owner_patch_id)

text \<open>
  C7: Tenant isolation. Take any sequence of requests to the endpoints, each with its own
  Authorization header and body, answered or failed in any way, Redis errors included. If none
  of them carries a genuine token that entitles a caller of workspace ws, then afterwards every
  session, chunk, counter and fingerprint of ws is what it was, or has expired, and the
  invariant of the stored data holds. Expiry metadata, which is keyed by session id alone, is
  not part of the claim.
\<close>

theorem workspaces_isolated:
  assumes "upload_service R now db rest Env limit"
    and "\<And>x. x \<in> set xs \<Longrightarrow> upload_api R now db rest Env limit J genuine timer (rq_body x)"
    and "max_concurrent_uploads s = limit" and "store_ok (redis_view now db w)"
    and "passes (redis_view now db w) (redis_view now db w)" and "absent genuine J s ws xs"
  shows "keeps (redis_view now db) rest (- ({ws} \<times> UNIV)) w (after_requests J s R timer Env xs w)"
  by (rule upload_service.requests_isolated [OF assms])

theorem workspaces_isolated_witness:
  "keeps sample_view mem_world.more (- ({5} \<times> UNIV)) sample_world
     (after_requests sample_jwt sample_settings mem_redis mem_timer mem_environment sample_requests_list sample_world)"
  by (rule workspaces_isolated [OF mem_service.upload_service_axioms sample_api sample_limit sample_store_ok mem_view_refl
      sample_absent])

text \<open>
  C8: The invariant of the stored data (readable sessions filed under their own ids that satisfy
  the entity's class invariant, manifests 0,1,.. whose sizes add up to the offset, the bytes of
  every listed chunk present with its size and SHA-256 as long as the session lives and is not
  finished, readable counters) is kept by every sequence of initiate, process-chunk and abort
  calls with any arguments, whether each call returns or raises.
\<close>

theorem reachable_stores_ok:
  assumes "upload_service R now db rest Env limit" and "reachable R Env limit w0 w"
    and "store_ok (redis_view now db w0)"
  shows "store_ok (redis_view now db w)"
  by (rule upload_service.reachable_store_ok [OF assms])

theorem reachable_stores_ok_witness:
  "store_ok (sample_view (world_after mem_redis mem_environment 10 (Abort 1 2)
     (world_after mem_redis mem_environment 10 (Chunk sample_chunk) sample_world)))"
  by (rule reachable_stores_ok [OF mem_service.upload_service_axioms _ sample_store_ok])
    (intro reachable.intros)

text \<open>
  C9: InitiateUploadUseCase.execute with a valid request on the Redis-backed stores. If it
  returns, the workspace was below its limit, its counter went up by one and the session of the
  request is stored with offset 0, status PENDING and a life of 24 hours, matching the response.
  If it raises, the reason is the rate limit (counter at the limit), an InfrastructureError, a
  date overflow or the entity's own validation, and the counter is what it was (or zero, if it
  was negative) unless the increment or the compensating decrement itself failed.
\<close>

theorem initiate_refines:
  assumes "upload_service R now db rest Env limit"
    and "request_ok req" and "iur_workspace_id req \<noteq> 0"
    and "store_ok (redis_view now db w)" and "count_in (redis_view now db w) (iur_workspace_id req) = Some n"
  shows "wp (initiate_upload (RedisRateLimiter R limit) (RedisSessionStore R) Env req)
     (\<lambda>res w'. rest w' = rest w \<and> store_ok (redis_view now db w') \<and> initiated req res (redis_view now db w')
        \<and> n < limit \<and> count_in (redis_view now db w') (iur_workspace_id req) = Some (n + 1))
     (\<lambda>e w'. rest w' = rest w \<and> store_ok (redis_view now db w')
        \<and> (init_failure req e \<or> is_RateLimitExceededError e \<and> limit \<le> n)
        \<and> (count_in (redis_view now db w') (iur_workspace_id req) \<in> {Some n, Some (max 0 n)}
           \<or> (\<exists>e. check_and_increment (RedisRateLimiter R limit) (iur_workspace_id req) w = (Inl e, w')
                  \<and> is_InfrastructureError e)
           \<or> (\<exists>e w1. decrement (RedisRateLimiter R limit) (iur_workspace_id req) w1 = (Inl e, w')))) w"
  by (rule upload_service.initiate_service [OF assms])

theorem initiate_refines_witness:
  "wp (initiate_upload (RedisRateLimiter mem_redis 10) (RedisSessionStore mem_redis) mem_environment sample_request)
     (\<lambda>res w'. initiated sample_request res (sample_view w') \<and> count_in (sample_view w') 1 = Some 1)
     (\<lambda>_ w'. store_ok (sample_view w')) sample_world"
  by (rule wp_use [OF initiate_refines [OF mem_service.upload_service_axioms sample_requests(1)
      sample_ids(1) sample_store_ok sample_session_in(2)]]) (auto simp only: sample_requests)



text \<open>
  C11: AbortUploadUseCase.execute on the Redis-backed stores. If it returns, the session existed
  in a non-terminal state and is gone, every other session is as it was or has expired, and the
  workspace's counter went down by one, never below zero, unless the decrement itself failed
  (which the code swallows). If it raises, no counter changed; the exception is an
  InfrastructureError or a SessionNotFoundError for a session that is absent or terminal; and
  the sessions are untouched unless a write raised although it took effect.
\<close>

theorem abort_refines:
  assumes "upload_service R now db rest Env limit" and "ws \<noteq> 0" and "sid \<noteq> 0"
    and "store_ok (redis_view now db w)" and "count_in (redis_view now db w) ws = Some n"
  shows "wp (abort_upload (RedisSessionStore R) (RedisRateLimiter R limit) ws sid)
     (\<lambda>_ w'. rest w' = rest w \<and> store_ok (redis_view now db w')
        \<and> aborted ws sid (redis_view now db w) (redis_view now db w')
        \<and> (count_in (redis_view now db w') ws = Some (max 0 (n - 1))
           \<or> (\<exists>e w1. decrement (RedisRateLimiter R limit) ws w1 = (Inl e, w'))))
     (\<lambda>e w'. rest w' = rest w \<and> store_ok (redis_view now db w')
        \<and> abort_failure ws sid (redis_view now db w) e (redis_view now db w')) w"
  by (rule upload_service.abort_service [OF assms])

theorem abort_refines_witness:
  "wp (abort_upload (RedisSessionStore mem_redis) (RedisRateLimiter mem_redis 10) 1 2)
     (\<lambda>_ w'. aborted 1 2 (sample_view sample_world) (sample_view w'))
     (\<lambda>e w'. abort_failure 1 2 (sample_view sample_world) e (sample_view w')) sample_world"
  by (rule wp_use [OF abort_refines [OF mem_service.upload_service_axioms sample_ids(2,3) sample_store_ok
      sample_session_in(2)]]) blast+

text \<open>
  C12: Two aborts of the same session in a row never both return: the second one finds the
  session gone and raises, so the upload counter is not decremented twice. The invariant of the
  stored data holds whichever of the two raises.
\<close>

theorem abort_once:
  assumes "upload_service R now db rest Env limit" and "ws \<noteq> 0" and "sid \<noteq> 0"
    and "store_ok (redis_view now db w)"
  shows "wp (bnd (abort_upload (RedisSessionStore R) (RedisRateLimiter R limit) ws sid)
          (\<lambda>_. abort_upload (RedisSessionStore R) (RedisRateLimiter R limit) ws sid))
     (\<lambda>_ _. False) (\<lambda>_ w'. store_ok (redis_view now db w')) w"
  by (rule upload_service.abort_twice [OF assms])

theorem abort_once_witness:
  "wp (bnd (abort_upload (RedisSessionStore mem_redis) (RedisRateLimiter mem_redis 10) 1 2)
          (\<lambda>_. abort_upload (RedisSessionStore mem_redis) (RedisRateLimiter mem_redis 10) 1 2))
     (\<lambda>_ _. False) (\<lambda>_ w'. store_ok (sample_view w')) sample_world"
  by (rule abort_once [OF mem_service.upload_service_axioms _ _ sample_store_ok]) simp_all

text \<open>
  C13: POST /v1/uploads with a request the schema accepts, below the route's authentication. If
  the handler answers, it is 201 with the id, offset 0 and expiry of a session that is now
  stored as the request describes, for the workspace of the claims (never one of the request's
  choice); the workspace was below its limit and its counter is one higher. If it raises, it is
  an answer 422, 429, 500 or 503, and 429 only at the limit: 413 and 415, which the handler maps
  too, cannot occur behind the schema.
\<close>

theorem post_uploads:
  assumes "upload_api R now db rest Env limit J genuine timer body" and "validate_schema r = Inr r'"
    and "jwt_workspace_id c \<noteq> 0" and "store_ok (redis_view now db w)"
    and "count_in (redis_view now db w) (jwt_workspace_id c) = Some n"
  shows "wp (initiate_upload_handler (RedisRateLimiter R limit) (RedisSessionStore R) Env c r)
     (\<lambda>resp w'. keeps (redis_view now db) rest ({jwt_workspace_id c} \<times> UNIV) w w'
        \<and> created c r n resp (redis_view now db w') \<and> n < limit)
     (\<lambda>e w'. keeps (redis_view now db) rest ({jwt_workspace_id c} \<times> UNIV) w w'
        \<and> (answers {422, 500, 503} e \<or> answers {429} e \<and> limit \<le> n)) w"
  by (rule upload_api.initiate_handler_wp [OF assms])

theorem post_uploads_witness:
  "wp (initiate_upload_handler (RedisRateLimiter mem_redis 10) (RedisSessionStore mem_redis) mem_environment owner_claims owner_post)
     (\<lambda>resp w'. created owner_claims owner_post 0 resp (sample_view w'))
     (\<lambda>e w'. answers {422, 500, 503} e) sample_world"
  by (rule wp_use [OF post_uploads [OF mem_api.upload_api_axioms owner_post_valid _ sample_store_ok sample_session_in(2)]])
    simp_all

text \<open>
  C14: HEAD /v1/uploads/{id} below the route's authentication: it changes nothing. If it
  answers, the session exists in the caller's workspace, is not terminal, and Upload-Offset and
  Upload-Length are its offset and size. Every failure is an answer 404, 410 or 503, or the
  TypeError of a naive expiry time: 404 only when the session is gone, 410 only when it is
  complete, aborted or failed. The 500 for corrupted data cannot occur on stored data that
  satisfies the invariant.
\<close>

theorem head_uploads:
  assumes "upload_api R now db rest Env limit J genuine timer body"
    and "jwt_workspace_id c \<noteq> 0" and "sid \<noteq> 0" and "store_ok (redis_view now db w)"
  shows "wp (query_upload_offset_handler (RedisSessionStore R) timer Env c sid)
     (\<lambda>resp w'. rest w' = rest w \<and> offset_told c sid resp (redis_view now db w) (redis_view now db w'))
     (\<lambda>e w'. rest w' = rest w \<and> query_failed c sid (redis_view now db w) e (redis_view now db w')) w"
  by (rule upload_api.query_wp [OF assms])

theorem head_uploads_witness:
  "wp (query_upload_offset_handler (RedisSessionStore mem_redis) mem_timer mem_environment owner_claims 2)
     (\<lambda>resp w'. offset_told owner_claims 2 resp (sample_view sample_world) (sample_view w'))
     (\<lambda>e w'. query_failed owner_claims 2 (sample_view sample_world) e (sample_view w')) sample_world"
  by (rule wp_use [OF head_uploads [OF mem_api.upload_api_axioms _ _ sample_store_ok]]) simp_all

text \<open>
  C15: DELETE /v1/uploads/{id} below the route's authentication. An answer is 204, the session
  was there, not terminal, and is gone; every other session is as it was or has expired. Every
  failure is an answer 404 or 503, or the error of the lookup behind a 404; no counter changed,
  and sessions only under 503. A 404 means that the session was absent or terminal: aborting
  twice answers 404, and the 403 for a foreign workspace cannot occur, since the key of a
  session contains its workspace.
\<close>

theorem delete_uploads:
  assumes "upload_api R now db rest Env limit J genuine timer body"
    and "jwt_workspace_id c \<noteq> 0" and "sid \<noteq> 0" and "store_ok (redis_view now db w)"
  shows "wp (abort_upload_handler (RedisSessionStore R) (RedisRateLimiter R limit) Env c sid)
     (\<lambda>resp w'. keeps (redis_view now db) rest {(jwt_workspace_id c, sid)} w w'
        \<and> resp = \<lparr>rs_status = 204, rs_headers = [], rs_body = None\<rparr>
        \<and> aborted (jwt_workspace_id c) sid (redis_view now db w) (redis_view now db w'))
     (\<lambda>e w'. keeps (redis_view now db) rest {(jwt_workspace_id c, sid)} w w'
        \<and> abort_failed c sid (redis_view now db w) e (redis_view now db w')) w"
  by (rule upload_api.abort_handler_wp [OF assms])

theorem delete_uploads_witness:
  "wp (abort_upload_handler (RedisSessionStore mem_redis) (RedisRateLimiter mem_redis 10) mem_environment owner_claims 2)
     (\<lambda>resp w'. aborted 1 2 (sample_view sample_world) (sample_view w'))
     (\<lambda>e w'. abort_failed owner_claims 2 (sample_view sample_world) e (sample_view w')) sample_world"
  by (rule wp_use [OF delete_uploads [OF mem_api.upload_api_axioms _ _ sample_store_ok]]) simp_all

text \<open>
  C16: get_current_user on any token library that decodes genuine tokens only: a request is
  authenticated only with a bearer token of at most 8192 characters that is genuine for the
  configured key and algorithm, and the claims are those the token's payload states and well
  formed (an owner without shared files, a collaborator with at most 1000). Otherwise the answer
  is 401, whatever the library raised, and authentication never touches the stored data.
\<close>

theorem only_genuine_tokens:
  assumes "token_verifier J genuine view rest"
  shows "wp (get_current_user J s authorization)
     (\<lambda>c w'. rest w' = rest w \<and> passes (view w) (view w') \<and> authentic genuine J s authorization c)
     (\<lambda>e w'. rest w' = rest w \<and> passes (view w) (view w') \<and> (is_unauthorized e \<or> \<not> is_Exception e)) w"
  by (rule token_verifier.user_wp [OF assms])

theorem only_genuine_tokens_witness:
  "authentic mem_genuine sample_jwt sample_settings owner_header owner_claims
   \<and> wp (get_current_user sample_jwt sample_settings owner_header)
     (\<lambda>c w'. authentic mem_genuine sample_jwt sample_settings owner_header c)
     (\<lambda>e w'. is_unauthorized e \<or> \<not> is_Exception e) sample_world"
  by (intro conjI owner_authentic wp_use [OF only_genuine_tokens [OF mem_tokens.token_verifier_axioms]]) simp_all



text \<open>
  C18: Start-up of the stub authentication service, on any disk, cryptography package and token
  library with the documented behaviour. If it succeeds, the key manager holds a private key
  with its public key, and the two PEM files hold that pair, whatever they held before: missing,
  truncated, of another type, or of different pairs. No other file changes. If nothing fails of
  its own accord, a valid stored pair is the one that is used and the files stay as they are;
  start-up fails only when one of the tools did.
\<close>

theorem stub_keys_ready:
  fixes C :: "('w, 'k) crypto"
  assumes "key_tools D C J files genuine signs faulty horizon"
  shows "wp (stub_lifespan D C J)
     (\<lambda>m w'. same_paths stub_files m \<and> key_files_only m (files w) (files w')
        \<and> (\<exists>k. keys_ready C (files w') m k
             \<and> (\<forall>k'. pair_stored C (files w) m k' \<and> \<not> faulty \<longrightarrow> k = k' \<and> files w' = files w)))
     (\<lambda>_ w'. faulty \<and> key_files_only (stub_files :: 'k RSAKeyManager) (files w) (files w')) w"
  by (rule key_tools.lifespan_wp [OF assms])

theorem stub_keys_ready_witness:
  "wp (stub_lifespan mem_disk stub_crypto stub_tokens)
     (\<lambda>m w'. \<exists>k. keys_ready stub_crypto (sw_files w') m k) (\<lambda>_ _. False) half_world"
  by (rule wp_use [OF stub_keys_ready [OF mem_stub.key_tools_axioms]]) blast+

text \<open>
  C19: On tools that do not fail of their own accord, the stub service starts from any disk, can
  be started again on what the first start left, and uses the same key pair both times, so that
  tokens issued before a restart stay valid. It holds until November 2286, when the test token
  of the key check expires and every start generates a new pair.
\<close>

theorem stub_restarts:
  assumes "key_tools D C J files genuine signs faulty horizon" and "\<not> faulty"
  shows "wp (bnd (stub_lifespan D C J) (\<lambda>m. bnd (stub_lifespan D C J) (\<lambda>m'. ret (m, m'))))
     (\<lambda>ms w'. \<exists>k. keys_ready C (files w') (fst ms) k \<and> keys_ready C (files w') (snd ms) k) (\<lambda>_ _. False) w"
  by (rule key_tools.restart_wp [OF assms])

theorem stub_restarts_witness:
  "wp (bnd (stub_lifespan mem_disk stub_crypto stub_tokens) (\<lambda>m. bnd (stub_lifespan mem_disk stub_crypto stub_tokens) (\<lambda>m'. ret (m, m'))))
     (\<lambda>ms w'. \<exists>k. keys_ready stub_crypto (sw_files w') (fst ms) k \<and> keys_ready stub_crypto (sw_files w') (snd ms) k)
     (\<lambda>_ _. False) half_world"
  by (rule stub_restarts [OF mem_stub.key_tools_axioms]) simp



text \<open>
  C21: The checks before a completion (workspace, status IN_PROGRESS, manifest indices exactly
  0..n-1, sizes adding up to the announced size, offset equal to it) accept a stored session
  exactly when it belongs to the workspace, is in progress and all its announced bytes were
  received: for sessions whose manifest satisfies the stored-data invariant the index and size
  checks add nothing to the comparison of offset and size.
\<close>

theorem complete_iff_all_received:
  assumes "store_ok st" and "session_in st ws sid = Some s"
  shows "(check_completable ws sid s = Inr ()) = (status s = IN_PROGRESS \<and> offset s = file_size s)"
  by (rule check_stored_session [OF assms])

theorem complete_iff_all_received_witness:
  "check_completable 1 2 full_session = Inr ()"
  using complete_iff_all_received [OF full_store_ok, of 1 2 full_session] full_session_in(1)
  by (simp add: session_in_def full_session_simps)

text \<open>
  C22: Every method of the UploadSession entity that changes it (add_chunk, update_offset,
  mark_in_progress, mark_complete, mark_failed, mark_aborted) keeps the invariant its
  constructor checks, never changes the identity, size, checksum or dates, never lets the offset
  shrink, only appends to the manifest, and never leaves a terminal state for a non-terminal
  one.
\<close>

theorem entity_invariant:
  assumes "method_step s s'" and "UploadSession_post_init s = Inr s"
  shows "UploadSession_post_init s' = Inr s'
    \<and> (session_id s', workspace_id s', filename s', file_size s', sha256_checksum s', created_at s', expires_at s')
       = (session_id s, workspace_id s, filename s, file_size s, sha256_checksum s, created_at s, expires_at s)
    \<and> offset s \<le> offset s' \<and> take (length (chunk_manifest s)) (chunk_manifest s') = chunk_manifest s
    \<and> (is_terminal (status s) \<longrightarrow> is_terminal (status s'))"
  using session_ok_method [OF assms(1)] method_step_fixed [OF assms(1)] method_step_terminal [OF assms(1)] assms(2)
  by (auto simp: UploadSession_post_init_iff)

theorem entity_invariant_witness:
  "UploadSession_post_init (mark_failed sample_session) = Inr (mark_failed sample_session)"
  using entity_invariant [OF method_step.intros(5), of sample_session] by (simp add: session_ok_sample)

text \<open>
  C23: ChunkVerifier.verify_chunk accepts a chunk exactly when the expected checksum is the
  lowercase SHA-256 of the data (and the index is not negative). A well-formed other checksum
  raises ChecksumMismatchError carrying both hashes, the index and the size; a malformed one, or
  a negative index, raises ValueError.
\<close>

theorem chunk_verification:
  "\<exists>m. verify_chunk data c i =
     (if index_ok i \<and> c = sha256_hex data then Inr ()
      else if index_ok i \<and> valid_hash (SHA256Hash c)
        then Inl (ChecksumMismatchError c (sha256_hex data) i (int (length data)))
      else Inl (ValueError m))"
  by (rule verify_chunk_outcome)

text \<open>
  C24: ProcessChunkUseCase.execute is not safe when two calls for one session overlap (two PATCH
  requests for the same offset). chunk_thread is the method cut at its awaits: run without
  interruption it is the method. If two acceptable chunks of different lengths are sent for one
  live session and the steps come in the order read, read, store, store, write, write, then, as
  long as the session lives, both calls return and confirm their offset; the session that is
  left lists the first chunk, the bytes under its index are those of the second, and the
  invariant of the stored data is broken. The completion of such an upload fails, because it
  hashes the bytes it assembles (complete_refines, stored_object_checked).
\<close>

theorem chunks_race:
  assumes "calm_service R now db rest Env limit calm" and "calm w" and "store_ok (redis_view now db w)"
    and "st_sessions (redis_view now db w) ws sid = Some (Some s, Some t)"
    and "pcr_workspace_id a = ws" and "pcr_session_id a = sid" and "accepts a s"
    and "pcr_workspace_id b = ws" and "pcr_session_id b = sid" and "accepts b s"
    and "length (pcr_chunk_data a) \<noteq> length (pcr_chunk_data b)"
    and "turns [0, 1, 0, 1, 1, 0] (w, map (chunk_thread (RedisSessionStore R) R) [a, b]) = (w', ts)" and "now w' < t"
  shows "run (chunk_thread (RedisSessionStore R) R a) = process_chunk (RedisSessionStore R) R a
    \<and> ts = map (\<lambda>r. Done (Inr \<lparr>pcres_new_offset = offset s + int (length (pcr_chunk_data r))\<rparr>)) [a, b]
    \<and> session_in (redis_view now db w') ws sid = Some (appended s (pcr_chunk_data a))
    \<and> chunk_bytes (redis_view now db w') ws sid (length (chunk_manifest s)) = pcr_chunk_data b
    \<and> \<not> store_ok (redis_view now db w')"
  using calm_service.chunk_race [OF assms(1-11) _ assms(13), of ts] assms(12) by (simp add: run_chunk_thread)

theorem chunks_race_witness:
  "\<exists>w' ts. turns [0, 1, 0, 1, 1, 0] (sample_world,
        map (chunk_thread (RedisSessionStore mem_redis) mem_redis) [racing_chunk [1, 2, 3], racing_chunk [4, 5]]) = (w', ts)
     \<and> ts = [Done (Inr \<lparr>pcres_new_offset = 3\<rparr>), Done (Inr \<lparr>pcres_new_offset = 2\<rparr>)]
     \<and> chunk_bytes (sample_view w') 1 2 0 = [4, 5] \<and> \<not> store_ok (sample_view w')"
proof -
  obtain w' ts where run: "turns [0, 1, 0, 1, 1, 0] (sample_world,
      map (chunk_thread (RedisSessionStore mem_redis) mem_redis) [racing_chunk [1, 2, 3], racing_chunk [4, 5]]) = (w', ts)"
    by fastforce
  then have "mw_now w' < 86400000" using race_in_time by fastforce
  note race = chunks_race [OF mem_calm.calm_service_axioms _ sample_store_ok sample_session_in(1) _ _
      racing_chunk_accepted _ _ racing_chunk_accepted _ run this]
  have s: "offset sample_session = 0" "chunk_manifest sample_session = []" "mw_faults sample_world = []"
    by (simp_all add: sample_session_def sample_world_def)
  from race show ?thesis using run by (simp add: s)
qed

text \<open>
  C25: RedisRateLimiter.check_and_increment for a workspace with n active uploads, one call at a
  time: it returns only if n is below the limit, and then the counter is n + 1, so it never
  exceeds the limit; at the limit it raises RateLimitExceededError and changes nothing; any
  other exception is an InfrastructureError. Counters of other workspaces and all sessions are
  as they were or have expired.
\<close>

theorem rate_limit_enforced:
  assumes "redis_server R now db rest" and "0 < limit" and "ws \<noteq> 0" and "store_ok (redis_view now db w)"
    and "count_in (redis_view now db w) ws = Some n"
  shows "wp (check_and_increment (RedisRateLimiter R limit) ws)
     (\<lambda>_ w'. n < limit \<and> count_in (redis_view now db w') ws = Some (n + 1)
        \<and> others_kept ws (redis_view now db w) (redis_view now db w'))
     (\<lambda>e w'. is_RateLimitExceededError e \<and> limit \<le> n \<and> passes (redis_view now db w) (redis_view now db w')
        \<or> is_InfrastructureError e) w"
  by (rule rate_limiter.check_limit [OF redis_server.rate_limiter [OF assms(1,2)] assms(3-5)])

theorem rate_limit_enforced_witness:
  "wp (check_and_increment (RedisRateLimiter mem_redis 10) 1)
     (\<lambda>_ w'. 0 < (10 :: int) \<and> count_in (sample_view w') 1 = Some (0 + 1)
        \<and> others_kept 1 (sample_view sample_world) (sample_view w'))
     (\<lambda>e w'. is_RateLimitExceededError e \<and> 10 \<le> (0 :: int) \<and> passes (sample_view sample_world) (sample_view w')
        \<or> is_InfrastructureError e) sample_world"
  by (rule rate_limit_enforced [OF mem.redis_server_axioms _ _ sample_store_ok sample_session_in(2)]) simp_all

text \<open>
  C26: RedisRateLimiter.check_and_increment when m calls for one workspace overlap. The method
  awaits twice (HGET, HINCRBY) and is documented as not atomic. check_thread is the method cut
  at its awaits: run without interruption it is the method. From a counter n0, whatever the
  order of the steps and however far each call has come, the counter never exceeds max(n0, limit
  - 1 + m), and no admission is lost: it has grown by at least the number of calls that
  returned. The witness runs two calls with limit 1 in the order read, read, add, add: both
  return and the counter is 2.
\<close>

theorem races_bounded:
  assumes "redis_server R now db rest" and "ws \<noteq> 0" and "store_ok (redis_view now db w)"
    and "count_in (redis_view now db w) ws = Some n0"
    and "interleaved (w, replicate m (check_thread R limit ws)) (w', ts)"
  shows "run (check_thread R limit ws) = check_and_increment (RedisRateLimiter R limit) ws
    \<and> (\<exists>n. count_in (redis_view now db w') ws = Some n \<and> n0 + int (length (filter returned ts)) \<le> n
         \<and> n \<le> max n0 (limit - 1 + int m))"
  using redis_server.race_bound [OF assms] by (simp add: run_check_thread RedisRateLimiter_def)

theorem races_bounded_witness:
  "\<exists>w'. turns [0, 1, 0, 1] (race_world, race_threads) = (w', [Done (Inr ()), Done (Inr ())])
     \<and> (\<exists>n. count_in (redis_view mw_now mem_live w') 1 = Some n \<and> 0 + int (length (filter returned [Done (Inr () :: exn + unit), Done (Inr ())])) \<le> n
         \<and> n \<le> max 0 (1 - 1 + int 2))"
proof -
  obtain w' where w': "turns [0, 1, 0, 1] (race_world, race_threads) = (w', [Done (Inr ()), Done (Inr ())])"
    using race_overshoots by blast
  have "interleaved (race_world, race_threads) (w', [Done (Inr ()), Done (Inr ())])"
    using turns_interleaved [of "(race_world, race_threads)" "[0, 1, 0, 1]"] by (simp only: w')
  from races_bounded [OF mem.redis_server_axioms _ race_world_ok this] show ?thesis using w' by simp
qed

text \<open>
  C27: RedisDeduplicationStore through DeduplicationService: after register_upload of a
  fingerprint, check_for_duplicate for the same workspace and hash returns only if the
  fingerprint is gone again (its key expired); otherwise it raises DuplicateFileError with the
  registered file's id, path and date, or an infrastructure or timeout error.
\<close>

theorem fingerprint_found:
  assumes "redis_with_timer R now db rest timer" and "ws \<noteq> 0" and "metadata_storable m"
  shows "wp (bnd (register_upload (RedisDeduplicationStore R timer) ws h m)
          (\<lambda>_. check_for_duplicate (RedisDeduplicationStore R timer) ws h))
     (\<lambda>_ w'. st_files (redis_view now db w') ws (hash_value h) = None)
     (\<lambda>e _. is_InfrastructureError e \<or> e = AsyncTimeoutError
        \<or> e = new_DuplicateFileError (hash_value h) (fm_file_id m) (fm_s3_path m) (fm_uploaded_at m)) w"
  by (rule dedup_store.register_then_duplicate
      [OF redis_server.dedup_store [OF redis_with_timer.axioms(1) [OF assms(1)] redis_with_timer.timer [OF assms(1)]]
        assms(2,3)])

theorem fingerprint_found_witness:
  "wp (bnd (register_upload (RedisDeduplicationStore mem_redis mem_timer) 1 (sha256_checksum sample_session) sample_metadata)
          (\<lambda>_. check_for_duplicate (RedisDeduplicationStore mem_redis mem_timer) 1 (sha256_checksum sample_session)))
     (\<lambda>_ w'. st_files (sample_view w') 1 (replicate 64 (CHR ''a'')) = None)
     (\<lambda>e _. is_InfrastructureError e \<or> e = AsyncTimeoutError
        \<or> e = new_DuplicateFileError (replicate 64 (CHR ''a'')) 3 ''1/2'' sample_time) sample_world"
  using fingerprint_found [OF mem_timed.redis_with_timer_axioms _ storable_metadata, of 1
      "sha256_checksum sample_session" sample_world]
  by (simp add: sample_metadata_def sample_session_def)

text \<open>
  C28: EventPublisherWithRetry.publish around any publisher that keeps its contract: if it
  returns, the event was delivered, at least once and at most once per attempt; if it raises,
  the exception is an InfrastructureError (or a cancellation), the event was delivered at most
  that often, and the message "Event written to DLQ" is only raised when the dead-letter entry
  with the event's payload is in Redis under the event's key with the configured time to live.
  Nothing the use cases store in Redis changes either way.
\<close>

theorem retries_bounded:
  assumes "retrying P most sent now db other R Env sleep c" and "event_ok ev"
  shows "wp (publish (with_retry P R Env sleep c) ev)
     (\<lambda>_ w'. passes (redis_view now db w) (redis_view now db w') \<and> other w' = other w
        \<and> (\<exists>n. 1 \<le> n \<and> n \<le> rp_max_retry_attempts c * most \<and> delivered ev n (sent w) (sent w')))
     (\<lambda>e w'. passes (redis_view now db w) (redis_view now db w') \<and> other w' = other w
        \<and> (\<exists>n \<le> rp_max_retry_attempts c * most. delivered ev n (sent w) (sent w'))
        \<and> (is_InfrastructureError e \<or> \<not> is_Exception e)
        \<and> (e \<noteq> publish_failed (rp_max_retry_attempts c) ev
           \<or> in_dlq (now w') (rp_dlq_ttl_seconds c) ev (rp_max_retry_attempts c) (db w'))) w"
  by (rule retrying.with_retry_wp [OF assms])

theorem retries_bounded_witness:
  "wp (publish mem_events sample_event)
     (\<lambda>_ w'. \<exists>n. 1 \<le> n \<and> n \<le> 3 \<and> delivered sample_event n (mem_sent full_world) (mem_sent w'))
     (\<lambda>e w'. e \<noteq> publish_failed 3 sample_event \<or> in_dlq (mw_now w') 604800 sample_event 3 (mem_live w')) full_world"
  unfolding mem_events_def
  by (rule wp_use [OF retries_bounded [OF mem_retry.retrying_axioms sample_event_ok]])
    (auto simp: sample_retry_def comp_def)

text \<open>
  C29: EventPublisherWithRetry.publish ends whenever the calls in it end, however it ends: it
  calls the wrapped publisher at most max_retry_attempts times and asks asyncio.sleep for at
  most 2^(max_retry_attempts - 1) - 1 seconds in all when it returns, and for at most 1.5
  seconds more (the pauses between the attempts to write the dead letter) when it raises. tries
  counts the calls of the publisher and slept the milliseconds asked for, in any world where the
  other calls leave both alone.
\<close>

theorem retries_end:
  assumes "retry_counts P R Env sleep tries slept"
  shows "wp (publish (with_retry P R Env sleep c) ev)
     (\<lambda>_ w'. tries w' \<le> tries w + rp_max_retry_attempts c
        \<and> slept w' \<le> slept w + 1000 * (2 ^ (rp_max_retry_attempts c - 1) - 1))
     (\<lambda>_ w'. tries w' \<le> tries w + rp_max_retry_attempts c
        \<and> slept w' \<le> slept w + (1000 * (2 ^ (rp_max_retry_attempts c - 1) - 1) + 1500)) w"
  by (rule wp_use [OF retry_counts.retry_spends [OF assms]]) (simp_all add: retry_counts.spent_def [OF assms])

theorem retries_end_witness:
  "wp (publish (with_retry (webhook_publisher mem_http sample_webhook) mem_redis mem_environment mem_pause sample_retry) sample_event)
     (\<lambda>_ w'. length (mem_sent w') \<le> 3 \<and> http_world.more w' \<le> 3000)
     (\<lambda>_ w'. length (mem_sent w') \<le> 3 \<and> http_world.more w' \<le> 4500) idle_world"
  by (rule wp_use [OF retries_end [OF mem_counts.retry_counts_axioms]])
    (simp_all add: sample_retry_def idle_world_def bodies_def)

text \<open>
  C30: The retry loop (attempt numbers 1, 2, .., max, a pause of 2^(attempt-1) seconds after
  each failed attempt but the last) is the recursive schedule "try; if attempts are left, pause,
  double the pause and go on", started with one second, for every number of attempts and
  whatever publisher and sleep do.
\<close>

theorem retries_back_off:
  "publish_attempts P sleep mx ev [1..<Suc mx] None = backoff P sleep ev 1000 mx"
  by (rule publish_attempts_backoff)

text \<open>
  C31: RedisSessionStore: deserializing the hash fields that _serialize_session writes gives
  back the session, for every session that satisfies the class invariant.
\<close>

theorem session_roundtrip:
  assumes "storable s"
  shows "deserialize_session (map_of (serialize_session s)) = Inr s"
  by (rule deserialize_serialize [OF assms])

theorem session_roundtrip_witness:
  "deserialize_session (map_of (serialize_session sample_session)) = Inr sample_session"
  by (rule session_roundtrip [OF storable_sample])

text \<open>
  C32: The JSON text of an event, parsed by a consumer that reads the fields of the published
  format and builds the event again, gives the same event with its two times in UTC; in
  particular the rebuilt event passes the constructor's checks.
\<close>

theorem event_reads_back:
  assumes "FileLoadCompletedEvent_post_init ev = Inr ev" and "valid_hash (ev_sha256_checksum ev)" and "event_to_json ev = Inr j"
  shows "andThen (to_json j) parse_event = Inr (event_in_utc ev)"
  using event_roundtrip [OF _ assms(2,3)] assms(1) by (simp add: FileLoadCompletedEvent_post_init_iff)

theorem event_reads_back_witness:
  "\<exists>j. event_to_json sample_event = Inr j \<and> andThen (to_json j) parse_event = Inr (event_in_utc sample_event)"
  using event_reads_back [OF sample_event_built sample_event_hash] sample_event_json by auto

text \<open>
  C33: The Redis keys of the program identify their resource: two session, deduplication, rate-
  limit, expiry or chunk keys are equal only for the same ids, keys of different kinds are never
  equal, and the key builder refuses exactly the NIL UUID.
\<close>

theorem keys_separate:
  "(session_key ws sid = Inr k \<and> session_key ws' sid' = Inr k) = (session_key ws sid = Inr k \<and> ws' = ws \<and> sid' = sid)
   \<and> (dedup_key ws = Inr k \<and> dedup_key ws' = Inr k) = (dedup_key ws = Inr k \<and> ws' = ws)
   \<and> (rate_limit_key ws = Inr k \<and> rate_limit_key ws' = Inr k) = (rate_limit_key ws = Inr k \<and> ws' = ws)
   \<and> (expiry_key sid = expiry_key sid') = (sid = sid')
   \<and> (chunk_key ws sid i = chunk_key ws' sid' i') = (ws = ws' \<and> sid = sid' \<and> i = i')
   \<and> distinct [session_key_text ws sid, dedup_key_text ws', rate_limit_key_text ws2, expiry_key sid',
        chunk_key ws3 sid3 i]
   \<and> (session_key ws sid = Inr (session_key_text ws sid)) = (ws \<noteq> 0 \<and> sid \<noteq> 0)
   \<and> (dedup_key ws = Inr (dedup_key_text ws)) = (ws \<noteq> 0)
   \<and> (rate_limit_key ws = Inr (rate_limit_key_text ws)) = (ws \<noteq> 0)"
  by (intro conjI) (auto simp: key_Inr_iff)

text \<open>
  C34: NATSEventPublisher: along every sequence of connect, publish and disconnect calls on a
  new object, whatever the NATS client does in them, the object never claims to be connected
  without a client and a JetStream context.
\<close>

theorem nats_state_consistent:
  assumes "mk_NATSEventPublisher url subject stream timeout mx = Inr p" and "reachable_nats N (w, p) s"
  shows "publisher_inv (snd s)"
  using reachable_nats_inv [OF assms(2)] assms(1) by (auto simp: mk_NATSEventPublisher_def publisher_inv_def)

theorem nats_state_consistent_witness:
  "publisher_inv (snd (nats_after mem_nats Disconnect (nats_after mem_nats Connect (nats_sample_world, nats_sample))))"
  by (rule nats_state_consistent [OF nats_sample_built, of mem_nats nats_sample_world]) (intro reachable_nats.intros)



text \<open>
  C36: WebhookEventPublisher.publish sends nothing but the event's JSON, at most once per call
  and to the configured URL, and every request it sends carries the HMAC-SHA256 of its body
  under the shared secret, so that the receiver's recomputation agrees. If it raises, the
  exception is an InfrastructureError or a cancellation.
\<close>

theorem webhook_signed:
  assumes "webhook_receiver H received view other"
  shows "wp (webhook_publish H c ev)
     (\<lambda>_ w'. \<exists>r. received w' = received w @ [r] \<and> signature_ok (wh_secret c) r \<and> fst r = wh_url c
        \<and> event_to_json ev = Inr (fst (snd r)))
     (\<lambda>e w'. (is_InfrastructureError e \<or> \<not> is_Exception e)
        \<and> (received w' = received w \<or> (\<exists>r. received w' = received w @ [r] \<and> signature_ok (wh_secret c) r
             \<and> fst r = wh_url c \<and> event_to_json ev = Inr (fst (snd r))))) w"
  by (rule wp_use [OF webhook_receiver.webhook_wp [OF assms]])
    (use signature_ok_request [of c ev] in \<open>auto simp: webhook_request_def\<close>)

theorem webhook_signed_witness:
  "wp (webhook_publish mem_http sample_webhook sample_event)
     (\<lambda>_ w'. \<exists>r. mw_requests w' = mw_requests full_world @ [r] \<and> signature_ok ''secret'' r)
     (\<lambda>e w'. is_InfrastructureError e \<or> \<not> is_Exception e) full_world"
  by (rule wp_use [OF webhook_signed [OF mem_receiver.webhook_receiver_axioms]]) (auto simp: sample_webhook_def)



text \<open>
  C38: The middleware of the application, for a path under /v1. Either the next handler is not
  called at all and the request is answered with the 401 of the middleware (or cancelled), or
  the header is a bearer token that the validator accepted and the outcome is that of the next
  handler in the world after the validation. Which of the two does not depend on the handler.
\<close>

theorem middleware_guards:
  assumes "is_protected path"
  shows "(\<exists>r w'. (r = Inl CancelledError \<or> (\<exists>d. r = Inr (refusal d)))
       \<and> (\<forall>next. jwt_validation_middleware J s path authorization next w = (r, w')))
     \<or> (\<exists>v token c w'. authorization = Some (''Bearer '' @ token) \<and> mk_JWTValidator J s = Inr v
          \<and> jwt_validate J v token w = (Inr c, w')
          \<and> (\<forall>next. jwt_validation_middleware J s path authorization next w = next w'))"
  by (rule middleware_cases [OF assms])

theorem middleware_guards_witness:
  "\<exists>r w'. (r = Inl CancelledError \<or> (\<exists>d. r = Inr (refusal d)))
     \<and> (\<forall>next. jwt_validation_middleware sample_jwt sample_settings ''/v1/uploads'' None next sample_world = (r, w'))"
  using middleware_guards [of "''/v1/uploads''" sample_jwt sample_settings None sample_world]
  by (auto simp: is_protected_def starts_with_def)

text \<open>
  C39: Whatever the token library does, even one that returns arbitrary payloads,
  get_current_user returns well-formed claims (an owner has no shared files, a collaborator a
  list of at most 1000 file ids) or raises the 401 answer; nothing else but a cancellation
  escapes it.
\<close>

theorem authenticated_claims:
  "wp (get_current_user J s authorization) (\<lambda>c _. claims_ok c) (\<lambda>e _. is_unauthorized e \<or> \<not> is_Exception e) w"
  by (rule get_current_user_answers)

theorem authenticated_claims_witness:
  "wp (get_current_user sample_jwt sample_settings owner_header) (\<lambda>c _. claims_ok c) (\<lambda>_ _. True) sample_world"
  by (rule wp_use [OF authenticated_claims]) simp_all



end
